theory Spec2Isabelle
  imports Complex_Main
begin

section \<open>Data model of the LP core (lp.c)\<close>

text \<open>
  The C type \<open>Real\<close> is modelled by the mathematical reals and \<open>int\<close> by the
  integers (the counters and positions of lp.c stay far from the machine bounds).
  A pointer to a row or column is an address (a natural number); the objects live in a
  store that maps addresses to records. A C array is a function from the index to the
  element, next to the length field the source keeps for it; the capacity fields
  (\<open>size\<close>) and the reallocation of arrays are left out, every allocation is taken to
  succeed.
\<close>

datatype RETCODE = SCIP_OKAY | SCIP_ERROR | SCIP_NOMEMORY | SCIP_INVALIDDATA | SCIP_LPERROR

datatype LPSOLSTAT =
    SCIP_LPSOLSTAT_NOTSOLVED
  | SCIP_LPSOLSTAT_OPTIMAL
  | SCIP_LPSOLSTAT_INFEASIBLE
  | SCIP_LPSOLSTAT_UNBOUNDED
  | SCIP_LPSOLSTAT_OBJLIMIT
  | SCIP_LPSOLSTAT_ITERLIMIT
  | SCIP_LPSOLSTAT_TIMELIMIT
  | SCIP_LPSOLSTAT_ERROR

datatype BOUNDTYPE = SCIP_BOUNDTYPE_LOWER | SCIP_BOUNDTYPE_UPPER

datatype SIDETYPE = SCIP_SIDETYPE_LEFT | SCIP_SIDETYPE_RIGHT

type_synonym rowptr = nat
type_synonym colptr = nat

text \<open>The fields of \<open>VAR\<close> that lp.c reads: objective value and the domain bounds.\<close>

record VAR =
  var_obj :: real
  var_lb :: real
  var_ub :: real

record COL =
  col_var :: VAR
  col_rows :: "int \<Rightarrow> rowptr"
  col_vals :: "int \<Rightarrow> real"
  col_linkpos :: "int \<Rightarrow> int"
  col_index :: int
  col_len :: int
  col_nunlinked :: int
  col_lppos :: int
  col_lpipos :: int
  col_primsol :: real
  col_redcost :: real
  col_farkas :: real
  col_strongdown :: real
  col_strongup :: real
  col_validredcostlp :: int
  col_validfarkaslp :: int
  col_strongitlim :: int
  col_sorted :: bool
  col_lbchanged :: bool
  col_ubchanged :: bool
  col_coefchanged :: bool

record ROW =
  row_cols :: "int \<Rightarrow> colptr"
  row_vals :: "int \<Rightarrow> real"
  row_linkpos :: "int \<Rightarrow> int"
  row_constant :: real
  row_lhs :: real
  row_rhs :: real
  row_sqrnorm :: real
  row_maxval :: real
  row_dualsol :: real
  row_activity :: real
  row_dualfarkas :: real
  row_pseudoactivity :: real
  row_minactivity :: real
  row_maxactivity :: real
  row_minactivityinf :: int
  row_maxactivityinf :: int
  row_index :: int
  row_len :: int
  row_nunlinked :: int
  row_nuses :: int
  row_lppos :: int
  row_lpipos :: int
  row_minidx :: int
  row_maxidx :: int
  row_nummaxval :: int
  row_validactivitylp :: int
  row_sorted :: bool
  row_validpsactivity :: bool
  row_validactivitybds :: bool
  row_validminmaxidx :: bool
  row_lhschanged :: bool
  row_rhschanged :: bool
  row_coefchanged :: bool
  row_local :: bool
  row_modifiable :: bool
  row_nlocks :: int

text \<open>
  The external LP solver is reached through the \<open>SCIPlpi...\<close> functions. The model
  records every call that changes or runs the solver, with the data sent, in the order
  the calls are made. The arguments of the two adding calls are: number of new vectors,
  (objective,) lower and upper bounds or sides, number of nonzeros, start positions,
  indices and values.
\<close>

datatype LPICALL =
    LpiDelCols int int
  | LpiDelRows int int
  | LpiChgBounds int "int list" "real list" "real list"
  | LpiChgSides int "int list" "real list" "real list"
  | LpiAddCols int "real list" "real list" "real list" int "int list" "int list" "real list"
  | LpiAddRows int "real list" "real list" int "int list" "int list" "real list"
  | LpiSolvePrimal
  | LpiGetBasisFeasibility
  | LpiGetObjval
  | LpiGetIntpar

record LP =
  lp_cols :: "int \<Rightarrow> colptr"
  lp_rows :: "int \<Rightarrow> rowptr"
  lp_lpicols :: "int \<Rightarrow> colptr"
  lp_lpirows :: "int \<Rightarrow> rowptr"
  lp_chgcols :: "int \<Rightarrow> colptr"
  lp_chgrows :: "int \<Rightarrow> rowptr"
  lp_ncols :: int
  lp_nrows :: int
  lp_nlpicols :: int
  lp_nlpirows :: int
  lp_nchgcols :: int
  lp_nchgrows :: int
  lp_lpifirstchgcol :: int
  lp_lpifirstchgrow :: int
  lp_firstnewcol :: int
  lp_firstnewrow :: int
  lp_objval :: real
  lp_lpsolstat :: LPSOLSTAT
  lp_flushed :: bool
  lp_solved :: bool
  lp_primalfeasible :: bool
  lp_dualfeasible :: bool
  lp_lpicalls :: "LPICALL list"

record STAT =
  stat_ncolidx :: int
  stat_nrowidx :: int
  stat_nlp :: int
  stat_nprimallp :: int
  stat_nlpiterations :: int
  stat_nprimallpiterations :: int

text \<open>
  The settings \<open>SET\<close> and the numerical comparisons of set.c are not among the
  sources. The comparisons are taken as parameters: they are fields of the settings
  record, so that \<open>SCIPsetIsInfinity st x\<close> reads as the call in the source (the settings are
  written \<open>st\<close>) and every
  theorem holds for every way of comparing up to tolerance.
\<close>

record SET =
  set_infinity :: real
  SCIPsetIsInfinity :: "real \<Rightarrow> bool"
  SCIPsetIsZero :: "real \<Rightarrow> bool"
  SCIPsetIsEQ :: "real \<Rightarrow> real \<Rightarrow> bool"
  SCIPsetIsGT :: "real \<Rightarrow> real \<Rightarrow> bool"
  SCIPsetIsGE :: "real \<Rightarrow> real \<Rightarrow> bool"
  SCIPsetIsSumLT :: "real \<Rightarrow> real \<Rightarrow> bool"
  SCIPsetIsSumGT :: "real \<Rightarrow> real \<Rightarrow> bool"

text \<open>
  Modelled from the spec: the macro \<open>SCIP_INVALID\<close> is defined in def.h, which is
  not among the sources. The spec only says that an invalidated cache holds a "not
  computed" sentinel; no theorem below depends on the value chosen here.
\<close>

definition SCIP_INVALID :: real where
  "SCIP_INVALID = 10 ^ 99"

text \<open>The program state: the store of rows and columns, the LP and the statistics.\<close>

record STATE =
  h_rows :: "rowptr \<Rightarrow> ROW"
  h_cols :: "colptr \<Rightarrow> COL"
  h_lp :: LP
  h_stat :: STAT

definition upd_row :: "rowptr \<Rightarrow> (ROW \<Rightarrow> ROW) \<Rightarrow> STATE \<Rightarrow> STATE" where
  "upd_row r f s = s\<lparr>h_rows := (h_rows s)(r := f (h_rows s r))\<rparr>"

definition upd_col :: "colptr \<Rightarrow> (COL \<Rightarrow> COL) \<Rightarrow> STATE \<Rightarrow> STATE" where
  "upd_col c f s = s\<lparr>h_cols := (h_cols s)(c := f (h_cols s c))\<rparr>"

definition upd_lp :: "(LP \<Rightarrow> LP) \<Rightarrow> STATE \<Rightarrow> STATE" where
  "upd_lp f s = s\<lparr>h_lp := f (h_lp s)\<rparr>"

text \<open>
  An \<open>int*\<close> argument that receives a position: \<open>NULL\<close>, or the address of one entry
  of the link-position array of a row or of a column.
\<close>

datatype INTREF = NULLREF | RowLinkposRef rowptr int | ColLinkposRef colptr int

fun store_ref :: "INTREF \<Rightarrow> int \<Rightarrow> STATE \<Rightarrow> STATE" where
  "store_ref NULLREF v s = s"
| "store_ref (RowLinkposRef r i) v s =
     upd_row r (\<lambda>row. row\<lparr>row_linkpos := (row_linkpos row)(i := v)\<rparr>) s"
| "store_ref (ColLinkposRef c i) v s =
     upd_col c (\<lambda>col. col\<lparr>col_linkpos := (col_linkpos col)(i := v)\<rparr>) s"

section \<open>Changing announcements\<close>

text \<open>\<open>coefChanged\<close>: announces that the given coefficient of the matrix changed.\<close>

definition coefChanged :: "rowptr \<Rightarrow> colptr \<Rightarrow> STATE \<Rightarrow> STATE" where
  "coefChanged r c s =
     (let row = h_rows s r; col = h_cols s c; lp = h_lp s in
      if row_lpipos row \<ge> 0 \<and> col_lpipos col \<ge> 0 then
        (let s1 =
           (if row_lpipos row \<ge> lp_lpifirstchgrow lp then
              upd_row r (\<lambda>x. x\<lparr>row_coefchanged := True\<rparr>) s
            else if col_lpipos col \<ge> lp_lpifirstchgcol lp then
              upd_col c (\<lambda>x. x\<lparr>col_coefchanged := True\<rparr>) s
            else if lp_lpifirstchgrow lp - row_lpipos row \<le> lp_lpifirstchgcol lp - col_lpipos col then
              upd_lp (\<lambda>l. l\<lparr>lp_lpifirstchgrow := row_lpipos row\<rparr>)
                (upd_row r (\<lambda>x. x\<lparr>row_coefchanged := True\<rparr>) s)
            else
              upd_lp (\<lambda>l. l\<lparr>lp_lpifirstchgcol := col_lpipos col\<rparr>)
                (upd_col c (\<lambda>x. x\<lparr>col_coefchanged := True\<rparr>) s))
         in upd_lp (\<lambda>l. l\<lparr>lp_flushed := False, lp_solved := False,
                            lp_dualfeasible := False, lp_primalfeasible := False,
                            lp_objval := SCIP_INVALID,
                            lp_lpsolstat := SCIP_LPSOLSTAT_NOTSOLVED\<rparr>) s1)
      else s)"

section \<open>Local column changing methods\<close>

text \<open>\<open>colAddCoeff\<close>: adds a previously non existing coefficient to an LP column.\<close>

definition colAddCoeff ::
  "colptr \<Rightarrow> rowptr \<Rightarrow> real \<Rightarrow> int \<Rightarrow> INTREF \<Rightarrow> STATE \<Rightarrow> RETCODE \<times> STATE" where
  "colAddCoeff c r val linkpos rowpos s =
     (let s1 = (if col_len (h_cols s c) > 0 then
                  upd_col c (\<lambda>col. col\<lparr>col_sorted := (col_sorted col \<and>
                     row_index (h_rows s (col_rows col (col_len col - 1))) < row_index (h_rows s r))\<rparr>) s
                else s);
          s2 = store_ref rowpos (col_len (h_cols s1 c)) s1;
          s3 = upd_col c (\<lambda>col. col\<lparr>
                  col_rows := (col_rows col)(col_len col := r),
                  col_vals := (col_vals col)(col_len col := val),
                  col_linkpos := (col_linkpos col)(col_len col := linkpos),
                  col_nunlinked := (if linkpos = - 1 then col_nunlinked col + 1 else col_nunlinked col),
                  col_len := col_len col + 1\<rparr>) s2
      in (SCIP_OKAY, coefChanged r c s3))"

text \<open>\<open>colDelCoeffPos\<close>: deletes the coefficient at the given position from a column.\<close>

definition colDelCoeffPos :: "colptr \<Rightarrow> int \<Rightarrow> STATE \<Rightarrow> RETCODE \<times> STATE" where
  "colDelCoeffPos c pos s =
     (let r = col_rows (h_cols s c) pos;
          s1 = (if col_linkpos (h_cols s c) pos = - 1 then
                  upd_col c (\<lambda>col. col\<lparr>col_nunlinked := col_nunlinked col - 1\<rparr>) s
                else s);
          s2 = (if pos < col_len (h_cols s1 c) - 1 then
                  (let sa = upd_col c (\<lambda>col. col\<lparr>
                              col_rows := (col_rows col)(pos := col_rows col (col_len col - 1)),
                              col_vals := (col_vals col)(pos := col_vals col (col_len col - 1)),
                              col_linkpos := (col_linkpos col)(pos := col_linkpos col (col_len col - 1))\<rparr>) s1;
                       cola = h_cols sa c;
                       sb = (if col_linkpos cola pos \<noteq> - 1 then
                               upd_row (col_rows cola pos)
                                 (\<lambda>row. row\<lparr>row_linkpos := (row_linkpos row)(col_linkpos cola pos := pos)\<rparr>) sa
                             else sa)
                   in upd_col c (\<lambda>col. col\<lparr>col_sorted := False\<rparr>) sb)
                else s1);
          s3 = upd_col c (\<lambda>col. col\<lparr>col_len := col_len col - 1\<rparr>) s2
      in (SCIP_OKAY, coefChanged r c s3))"

text \<open>\<open>colChgCoeffPos\<close>: changes a coefficient at the given position of a column.\<close>

definition colChgCoeffPos :: "SET \<Rightarrow> colptr \<Rightarrow> int \<Rightarrow> real \<Rightarrow> STATE \<Rightarrow> RETCODE \<times> STATE" where
  "colChgCoeffPos st c pos val s =
     (if SCIPsetIsZero st val then colDelCoeffPos c pos s
      else if \<not> SCIPsetIsEQ st (col_vals (h_cols s c) pos) val then
        (let s1 = upd_col c (\<lambda>col. col\<lparr>col_vals := (col_vals col)(pos := val)\<rparr>) s
         in (SCIP_OKAY, coefChanged (col_rows (h_cols s1 c) pos) c s1))
      else (SCIP_OKAY, s))"

section \<open>Local row changing methods\<close>

text \<open>\<open>rowAddNorms\<close>: updates the row norms after the addition of a coefficient.\<close>

definition rowAddNorms :: "SET \<Rightarrow> int \<Rightarrow> real \<Rightarrow> ROW \<Rightarrow> ROW" where
  "rowAddNorms st colidx val row =
     (let absval = \<bar>val\<bar>;
          row1 = (if colidx \<noteq> - 1 then
                    row\<lparr>row_minidx := min (row_minidx row) colidx,
                        row_maxidx := max (row_maxidx row) colidx\<rparr>
                  else row);
          row2 = row1\<lparr>row_sqrnorm := row_sqrnorm row1 + absval * absval\<rparr>
      in if row_nummaxval row2 > 0 then
           (if SCIPsetIsGT st absval (row_maxval row2) then
              row2\<lparr>row_maxval := absval, row_nummaxval := 1\<rparr>
            else if SCIPsetIsGE st absval (row_maxval row2) then
              row2\<lparr>row_nummaxval := row_nummaxval row2 + 1\<rparr>
            else row2)
         else row2)"

text \<open>\<open>rowDelNorms\<close>: updates the row norms after the deletion of a coefficient.\<close>

definition rowDelNorms :: "SET \<Rightarrow> int \<Rightarrow> real \<Rightarrow> ROW \<Rightarrow> ROW" where
  "rowDelNorms st colidx val row =
     (let absval = \<bar>val\<bar>;
          row1 = (if colidx \<noteq> - 1 \<and> (colidx = row_minidx row \<or> colidx = row_maxidx row) then
                    row\<lparr>row_validminmaxidx := False\<rparr>
                  else row);
          row2 = row1\<lparr>row_sqrnorm := max (row_sqrnorm row1 - absval * absval) 0\<rparr>
      in if row_nummaxval row2 > 0 \<and> SCIPsetIsGE st absval (row_maxval row2) then
           row2\<lparr>row_nummaxval := row_nummaxval row2 - 1\<rparr>
         else row2)"

text \<open>
  \<open>SCIProwInvalidActivityBounds\<close>: invalidates the activity bounds. The source returns
  \<open>SCIP_OKAY\<close> on every path, so the model is the change of the row alone.
\<close>

definition SCIProwInvalidActivityBounds :: "ROW \<Rightarrow> ROW" where
  "SCIProwInvalidActivityBounds row =
     row\<lparr>row_validactivitybds := False, row_minactivity := SCIP_INVALID,
         row_maxactivity := SCIP_INVALID, row_minactivityinf := - 1,
         row_maxactivityinf := - 1\<rparr>"

text \<open>\<open>rowAddCoeff\<close>: adds a previously non existing coefficient to an LP row.\<close>

definition rowAddCoeff ::
  "SET \<Rightarrow> rowptr \<Rightarrow> colptr \<Rightarrow> real \<Rightarrow> int \<Rightarrow> INTREF \<Rightarrow> STATE \<Rightarrow> RETCODE \<times> STATE" where
  "rowAddCoeff st r c val linkpos colpos s =
     (if row_nlocks (h_rows s r) > 0 then (SCIP_INVALIDDATA, s)
      else
        (let s1 = (if row_len (h_rows s r) > 0 then
                     upd_row r (\<lambda>row. row\<lparr>row_sorted := (row_sorted row \<and>
                        col_index (h_cols s (row_cols row (row_len row - 1))) < col_index (h_cols s c))\<rparr>) s
                   else s);
             s2 = store_ref colpos (row_len (h_rows s1 r)) s1;
             s3 = upd_row r (\<lambda>row. row\<lparr>
                     row_cols := (row_cols row)(row_len row := c),
                     row_vals := (row_vals row)(row_len row := val),
                     row_linkpos := (row_linkpos row)(row_len row := linkpos),
                     row_nunlinked := (if linkpos = - 1 then row_nunlinked row + 1 else row_nunlinked row),
                     row_len := row_len row + 1\<rparr>) s2;
             s4 = upd_row r (\<lambda>row. SCIProwInvalidActivityBounds
                     (row\<lparr>row_pseudoactivity := SCIP_INVALID, row_validpsactivity := False\<rparr>)) s3;
             s5 = upd_row r (rowAddNorms st (col_index (h_cols s4 c)) val) s4
         in (SCIP_OKAY, coefChanged r c s5)))"

text \<open>\<open>rowDelCoeffPos\<close>: deletes the coefficient at the given position from a row.\<close>

definition rowDelCoeffPos :: "SET \<Rightarrow> rowptr \<Rightarrow> int \<Rightarrow> STATE \<Rightarrow> RETCODE \<times> STATE" where
  "rowDelCoeffPos st r pos s =
     (let c = row_cols (h_rows s r) pos;
          val = row_vals (h_rows s r) pos
      in if row_nlocks (h_rows s r) > 0 then (SCIP_INVALIDDATA, s)
         else
           (let s1 = (if row_linkpos (h_rows s r) pos = - 1 then
                        upd_row r (\<lambda>row. row\<lparr>row_nunlinked := row_nunlinked row - 1\<rparr>) s
                      else s);
                s2 = (if pos < row_len (h_rows s1 r) - 1 then
                        (let sa = upd_row r (\<lambda>row. row\<lparr>
                                    row_cols := (row_cols row)(pos := row_cols row (row_len row - 1)),
                                    row_vals := (row_vals row)(pos := row_vals row (row_len row - 1)),
                                    row_linkpos := (row_linkpos row)(pos := row_linkpos row (row_len row - 1))\<rparr>) s1;
                             rowa = h_rows sa r;
                             sb = (if row_linkpos rowa pos \<noteq> - 1 then
                                     upd_col (row_cols rowa pos)
                                       (\<lambda>col. col\<lparr>col_linkpos := (col_linkpos col)(row_linkpos rowa pos := pos)\<rparr>) sa
                                   else sa)
                         in upd_row r (\<lambda>row. row\<lparr>row_sorted := False\<rparr>) sb)
                      else s1);
                s3 = upd_row r (\<lambda>row. row\<lparr>row_len := row_len row - 1\<rparr>) s2;
                s4 = upd_row r (\<lambda>row. SCIProwInvalidActivityBounds
                        (row\<lparr>row_pseudoactivity := SCIP_INVALID, row_validpsactivity := False\<rparr>)) s3;
                s5 = upd_row r (rowDelNorms st (col_index (h_cols s4 c)) val) s4
            in (SCIP_OKAY, coefChanged r c s5)))"

text \<open>\<open>rowChgCoeffPos\<close>: changes a coefficient at the given position of a row.\<close>

definition rowChgCoeffPos :: "SET \<Rightarrow> rowptr \<Rightarrow> int \<Rightarrow> real \<Rightarrow> STATE \<Rightarrow> RETCODE \<times> STATE" where
  "rowChgCoeffPos st r pos val s =
     (if row_nlocks (h_rows s r) > 0 then (SCIP_INVALIDDATA, s)
      else if SCIPsetIsZero st val then rowDelCoeffPos st r pos s
      else if \<not> SCIPsetIsEQ st (row_vals (h_rows s r) pos) val then
        (let s1 = upd_row r (\<lambda>row. rowDelNorms st (- 1) (row_vals row pos) row) s;
             s2 = upd_row r (\<lambda>row. row\<lparr>row_vals := (row_vals row)(pos := val)\<rparr>) s1;
             s3 = upd_row r (\<lambda>row. rowAddNorms st (- 1) (row_vals row pos) row) s2;
             s4 = coefChanged r (row_cols (h_rows s3 r) pos) s3;
             s5 = upd_row r (\<lambda>row. SCIProwInvalidActivityBounds
                     (row\<lparr>row_pseudoactivity := SCIP_INVALID, row_validpsactivity := False\<rparr>)) s4
         in (SCIP_OKAY, s5))
      else (SCIP_OKAY, s))"

text \<open>
  \<open>rowSideChanged\<close>: notifies the LP row that its sides were changed. The side type
  is one of the two enumerators, so the aborting \<open>default\<close> branch has no counterpart.
\<close>

definition rowSideChanged :: "rowptr \<Rightarrow> SIDETYPE \<Rightarrow> STATE \<Rightarrow> RETCODE \<times> STATE" where
  "rowSideChanged r sidetype s =
     (if row_lpipos (h_rows s r) \<ge> 0 then
        (let s1 = (if \<not> row_lhschanged (h_rows s r) \<and> \<not> row_rhschanged (h_rows s r) then
                     upd_lp (\<lambda>l. l\<lparr>lp_chgrows := (lp_chgrows l)(lp_nchgrows l := r),
                                      lp_nchgrows := lp_nchgrows l + 1\<rparr>) s
                   else s);
             s2 = (case sidetype of
                     SCIP_SIDETYPE_LEFT \<Rightarrow> upd_row r (\<lambda>row. row\<lparr>row_lhschanged := True\<rparr>) s1
                   | SCIP_SIDETYPE_RIGHT \<Rightarrow> upd_row r (\<lambda>row. row\<lparr>row_rhschanged := True\<rparr>) s1);
             s3 = upd_lp (\<lambda>l. l\<lparr>lp_flushed := False, lp_solved := False,
                                  lp_primalfeasible := False, lp_objval := SCIP_INVALID,
                                  lp_lpsolstat := SCIP_LPSOLSTAT_NOTSOLVED\<rparr>) s2
         in (SCIP_OKAY, s3))
      else (SCIP_OKAY, s))"

text \<open>\<open>rowUpdatePseudoActivity\<close>: after the best bound of a column changed.\<close>

definition rowUpdatePseudoActivity :: "int \<Rightarrow> real \<Rightarrow> real \<Rightarrow> ROW \<Rightarrow> ROW" where
  "rowUpdatePseudoActivity pos oldbestbound newbestbound row =
     (if row_validpsactivity row then
        row\<lparr>row_pseudoactivity :=
              row_pseudoactivity row + (newbestbound - oldbestbound) * row_vals row pos\<rparr>
      else row)"

text \<open>\<open>rowUpdateActivityBoundsLb\<close>: after the lower bound of a column changed.\<close>

definition rowUpdateActivityBoundsLb :: "SET \<Rightarrow> int \<Rightarrow> real \<Rightarrow> real \<Rightarrow> ROW \<Rightarrow> ROW" where
  "rowUpdateActivityBoundsLb st pos oldlb newlb row =
     (if row_validactivitybds row then
        (let val = row_vals row pos in
         if val > 0 then
           (let row1 = (if SCIPsetIsInfinity st (- oldlb) then
                          row\<lparr>row_minactivityinf := row_minactivityinf row - 1\<rparr>
                        else row\<lparr>row_minactivity := row_minactivity row - val * oldlb\<rparr>)
            in if SCIPsetIsInfinity st (- newlb) then
                 row1\<lparr>row_minactivityinf := row_minactivityinf row1 + 1\<rparr>
               else row1\<lparr>row_minactivity := row_minactivity row1 + val * newlb\<rparr>)
         else
           (let row1 = (if SCIPsetIsInfinity st (- oldlb) then
                          row\<lparr>row_maxactivityinf := row_maxactivityinf row - 1\<rparr>
                        else row\<lparr>row_maxactivity := row_maxactivity row - val * oldlb\<rparr>)
            in if SCIPsetIsInfinity st (- newlb) then
                 row1\<lparr>row_maxactivityinf := row_maxactivityinf row1 + 1\<rparr>
               else row1\<lparr>row_maxactivity := row_maxactivity row1 + val * newlb\<rparr>))
      else row)"

text \<open>\<open>rowUpdateActivityBoundsUb\<close>: after the upper bound of a column changed.\<close>

definition rowUpdateActivityBoundsUb :: "SET \<Rightarrow> int \<Rightarrow> real \<Rightarrow> real \<Rightarrow> ROW \<Rightarrow> ROW" where
  "rowUpdateActivityBoundsUb st pos oldub newub row =
     (if row_validactivitybds row then
        (let val = row_vals row pos in
         if val > 0 then
           (let row1 = (if SCIPsetIsInfinity st oldub then
                          row\<lparr>row_maxactivityinf := row_maxactivityinf row - 1\<rparr>
                        else row\<lparr>row_maxactivity := row_maxactivity row - val * oldub\<rparr>)
            in if SCIPsetIsInfinity st newub then
                 row1\<lparr>row_maxactivityinf := row_maxactivityinf row1 + 1\<rparr>
               else row1\<lparr>row_maxactivity := row_maxactivity row1 + val * newub\<rparr>)
         else
           (let row1 = (if SCIPsetIsInfinity st oldub then
                          row\<lparr>row_minactivityinf := row_minactivityinf row - 1\<rparr>
                        else row\<lparr>row_minactivity := row_minactivity row - val * oldub\<rparr>)
            in if SCIPsetIsInfinity st newub then
                 row1\<lparr>row_minactivityinf := row_minactivityinf row1 + 1\<rparr>
               else row1\<lparr>row_minactivity := row_minactivity row1 + val * newub\<rparr>))
      else row)"

section \<open>Frame properties of the store updates\<close>

lemma h_cols_upd_row [simp]: "h_cols (upd_row r f s) = h_cols s"
  by (simp add: upd_row_def)

lemma h_cols_upd_lp [simp]: "h_cols (upd_lp f s) = h_cols s"
  by (simp add: upd_lp_def)

lemma h_cols_upd_col [simp]:
  "h_cols (upd_col c f s) c' = (if c' = c then f (h_cols s c) else h_cols s c')"
  by (simp add: upd_col_def)

lemma h_rows_upd_col [simp]: "h_rows (upd_col c f s) = h_rows s"
  by (simp add: upd_col_def)

lemma h_rows_upd_lp [simp]: "h_rows (upd_lp f s) = h_rows s"
  by (simp add: upd_lp_def)

lemma h_rows_upd_row [simp]:
  "h_rows (upd_row r f s) r' = (if r' = r then f (h_rows s r) else h_rows s r')"
  by (simp add: upd_row_def)

lemma h_lp_upd_row [simp]: "h_lp (upd_row r f s) = h_lp s"
  by (simp add: upd_row_def)

lemma h_lp_upd_col [simp]: "h_lp (upd_col c f s) = h_lp s"
  by (simp add: upd_col_def)

lemma h_lp_upd_lp [simp]: "h_lp (upd_lp f s) = f (h_lp s)"
  by (simp add: upd_lp_def)

lemma h_stat_upd [simp]:
  "h_stat (upd_row r f s) = h_stat s"
  "h_stat (upd_col c g s) = h_stat s"
  "h_stat (upd_lp k s) = h_stat s"
  by (simp_all add: upd_row_def upd_col_def upd_lp_def)

lemma coefChanged_col_len [simp]:
  "col_len (h_cols (coefChanged r c s) c') = col_len (h_cols s c')"
  by (simp add: coefChanged_def Let_def)

lemma coefChanged_row_len [simp]:
  "row_len (h_rows (coefChanged r c s) r') = row_len (h_rows s r')"
  by (simp add: coefChanged_def Let_def)

lemma store_ref_col_len [simp]:
  "col_len (h_cols (store_ref p v s) c') = col_len (h_cols s c')"
  by (cases p) simp_all

lemma store_ref_row_len [simp]:
  "row_len (h_rows (store_ref p v s) r') = row_len (h_rows s r')"
  by (cases p) simp_all

lemma rowAddCoeff_col_len [simp]:
  "col_len (h_cols (snd (rowAddCoeff st r c val lpos cpos s)) c') = col_len (h_cols s c')"
  by (simp add: rowAddCoeff_def Let_def)

lemma rowDelCoeffPos_col_len [simp]:
  "col_len (h_cols (snd (rowDelCoeffPos st r pos s)) c') = col_len (h_cols s c')"
  by (simp add: rowDelCoeffPos_def Let_def)

lemma colAddCoeff_row_len [simp]:
  "row_len (h_rows (snd (colAddCoeff c r val lpos rpos s)) r') = row_len (h_rows s r')"
  by (simp add: colAddCoeff_def Let_def)

lemma colDelCoeffPos_row_len [simp]:
  "row_len (h_rows (snd (colDelCoeffPos c pos s)) r') = row_len (h_rows s r')"
  by (simp add: colDelCoeffPos_def Let_def)

section \<open>Double linked coefficient matrix methods\<close>

text \<open>
  The loops of the source run an index \<open>i\<close> from 0 up to the length field, which is
  read again at every test as in C. \<open>CHECK_OKAY\<close> returns the code of a failed call at
  once.
\<close>

function colLink_loop :: "SET \<Rightarrow> colptr \<Rightarrow> int \<Rightarrow> STATE \<Rightarrow> RETCODE \<times> STATE" where
  "colLink_loop st c i s =
     (if i < col_len (h_cols s c) then
        (if col_linkpos (h_cols s c) i = - 1 then
           (let res = rowAddCoeff st (col_rows (h_cols s c) i) c (col_vals (h_cols s c) i) i
                         (ColLinkposRef c i) s
            in if fst res \<noteq> SCIP_OKAY then res
               else colLink_loop st c (i + 1)
                      (upd_col c (\<lambda>col. col\<lparr>col_nunlinked := col_nunlinked col - 1\<rparr>) (snd res)))
         else colLink_loop st c (i + 1) s)
      else (SCIP_OKAY, s))"
  by pat_completeness auto
termination
  by (relation "measure (\<lambda>(st, c, i, s). nat (col_len (h_cols s c) - i))") auto

declare colLink_loop.simps [simp del]

text \<open>\<open>colLink\<close>: inserts the column coefficients in the corresponding rows.\<close>

definition colLink :: "SET \<Rightarrow> colptr \<Rightarrow> STATE \<Rightarrow> RETCODE \<times> STATE" where
  "colLink st c s =
     (if col_nunlinked (h_cols s c) > 0 then colLink_loop st c 0 s else (SCIP_OKAY, s))"

function colUnlink_loop :: "SET \<Rightarrow> colptr \<Rightarrow> int \<Rightarrow> STATE \<Rightarrow> RETCODE \<times> STATE" where
  "colUnlink_loop st c i s =
     (if i < col_len (h_cols s c) then
        (if col_linkpos (h_cols s c) i \<noteq> - 1 then
           (let res = rowDelCoeffPos st (col_rows (h_cols s c) i) (col_linkpos (h_cols s c) i) s
            in if fst res \<noteq> SCIP_OKAY then res
               else colUnlink_loop st c (i + 1)
                      (upd_col c (\<lambda>col. col\<lparr>col_linkpos := (col_linkpos col)(i := - 1),
                                             col_nunlinked := col_nunlinked col + 1\<rparr>) (snd res)))
         else colUnlink_loop st c (i + 1) s)
      else (SCIP_OKAY, s))"
  by pat_completeness auto
termination
  by (relation "measure (\<lambda>(st, c, i, s). nat (col_len (h_cols s c) - i))") auto

declare colUnlink_loop.simps [simp del]

text \<open>\<open>colUnlink\<close>: removes the column coefficients from the corresponding rows.\<close>

definition colUnlink :: "SET \<Rightarrow> colptr \<Rightarrow> STATE \<Rightarrow> RETCODE \<times> STATE" where
  "colUnlink st c s =
     (if col_nunlinked (h_cols s c) < col_len (h_cols s c) then colUnlink_loop st c 0 s
      else (SCIP_OKAY, s))"

function rowLink_loop :: "rowptr \<Rightarrow> int \<Rightarrow> STATE \<Rightarrow> RETCODE \<times> STATE" where
  "rowLink_loop r i s =
     (if i < row_len (h_rows s r) then
        (if row_linkpos (h_rows s r) i = - 1 then
           (let res = colAddCoeff (row_cols (h_rows s r) i) r (row_vals (h_rows s r) i) i
                         (RowLinkposRef r i) s
            in if fst res \<noteq> SCIP_OKAY then res
               else rowLink_loop r (i + 1)
                      (upd_row r (\<lambda>row. row\<lparr>row_nunlinked := row_nunlinked row - 1\<rparr>) (snd res)))
         else rowLink_loop r (i + 1) s)
      else (SCIP_OKAY, s))"
  by pat_completeness auto
termination
  by (relation "measure (\<lambda>(r, i, s). nat (row_len (h_rows s r) - i))") auto

declare rowLink_loop.simps [simp del]

text \<open>\<open>rowLink\<close>: inserts the row coefficients in the corresponding columns.\<close>

definition rowLink :: "rowptr \<Rightarrow> STATE \<Rightarrow> RETCODE \<times> STATE" where
  "rowLink r s =
     (if row_nunlinked (h_rows s r) > 0 then rowLink_loop r 0 s else (SCIP_OKAY, s))"

function rowUnlink_loop :: "rowptr \<Rightarrow> int \<Rightarrow> STATE \<Rightarrow> RETCODE \<times> STATE" where
  "rowUnlink_loop r i s =
     (if i < row_len (h_rows s r) then
        (if row_linkpos (h_rows s r) i \<noteq> - 1 then
           (let res = colDelCoeffPos (row_cols (h_rows s r) i) (row_linkpos (h_rows s r) i) s
            in if fst res \<noteq> SCIP_OKAY then res
               else rowUnlink_loop r (i + 1)
                      (upd_row r (\<lambda>row. row\<lparr>row_nunlinked := row_nunlinked row + 1\<rparr>) (snd res)))
         else rowUnlink_loop r (i + 1) s)
      else (SCIP_OKAY, s))"
  by pat_completeness auto
termination
  by (relation "measure (\<lambda>(r, i, s). nat (row_len (h_rows s r) - i))") auto

declare rowUnlink_loop.simps [simp del]

text \<open>\<open>rowUnlink\<close>: removes the row coefficients from the corresponding columns.\<close>

definition rowUnlink :: "rowptr \<Rightarrow> STATE \<Rightarrow> RETCODE \<times> STATE" where
  "rowUnlink r s =
     (if row_nunlinked (h_rows s r) < row_len (h_rows s r) then rowUnlink_loop r 0 s
      else (SCIP_OKAY, s))"

section \<open>Column methods\<close>

text \<open>
  \<open>SCIPcolCreate\<close>: creates an LP column. The address \<open>c\<close> of the new column and
  the content \<open>fresh\<close> of the newly allocated, not yet written link-position array are
  chosen by the allocator and are arguments of the model. \<open>rowarr\<close> and \<open>valarr\<close> are
  the arrays \<open>row\<close> and \<open>val\<close> of the caller; \<open>(*row)\<close> is the first row of the array.
\<close>

function SCIPcolCreate_linkpos_loop :: "rowptr \<Rightarrow> int \<Rightarrow> int \<Rightarrow> STATE \<Rightarrow> STATE" where
  "SCIPcolCreate_linkpos_loop r0 len i s =
     (if i < len then
        SCIPcolCreate_linkpos_loop r0 len (i + 1)
          (upd_row r0 (\<lambda>row. row\<lparr>row_linkpos := (row_linkpos row)(i := - 1)\<rparr>) s)
      else s)"
  by pat_completeness auto
termination
  by (relation "measure (\<lambda>(r0, len, i, s). nat (len - i))") auto

declare SCIPcolCreate_linkpos_loop.simps [simp del]

function SCIPcolCreate_sorted_loop :: "colptr \<Rightarrow> int \<Rightarrow> int \<Rightarrow> STATE \<Rightarrow> STATE" where
  "SCIPcolCreate_sorted_loop c len i s =
     (if i < len then
        SCIPcolCreate_sorted_loop c len (i + 1)
          (upd_col c (\<lambda>col. col\<lparr>col_sorted := (col_sorted col \<and>
              (i = 0 \<or> row_index (h_rows s (col_rows col (i - 1)))
                         < row_index (h_rows s (col_rows col i))))\<rparr>) s)
      else s)"
  by pat_completeness auto
termination
  by (relation "measure (\<lambda>(c, len, i, s). nat (len - i))") auto

declare SCIPcolCreate_sorted_loop.simps [simp del]

definition SCIPcolCreate ::
  "colptr \<Rightarrow> (int \<Rightarrow> int) \<Rightarrow> VAR \<Rightarrow> int \<Rightarrow> (int \<Rightarrow> rowptr) \<Rightarrow> (int \<Rightarrow> real) \<Rightarrow> STATE
     \<Rightarrow> RETCODE \<times> STATE" where
  "SCIPcolCreate c fresh var len rowarr valarr s =
     (let s1 = (if len > 0 then
                  SCIPcolCreate_linkpos_loop (rowarr 0) len 0
                    (upd_col c (\<lambda>col. col\<lparr>col_rows := rowarr, col_vals := valarr,
                                           col_linkpos := fresh\<rparr>) s)
                else
                  upd_col c (\<lambda>col. col\<lparr>col_rows := (\<lambda>_. 0), col_vals := (\<lambda>_. 0),
                                         col_linkpos := (\<lambda>_. 0)\<rparr>) s);
          s2 = upd_col c (\<lambda>col. col\<lparr>col_var := var,
                  col_index := stat_ncolidx (h_stat s1)\<rparr>) s1;
          s3 = s2\<lparr>h_stat := (h_stat s2)\<lparr>stat_ncolidx := stat_ncolidx (h_stat s2) + 1\<rparr>\<rparr>;
          s4 = upd_col c (\<lambda>col. col\<lparr>col_len := len, col_nunlinked := len,
                  col_lppos := - 1, col_lpipos := - 1, col_primsol := 0,
                  col_redcost := SCIP_INVALID, col_farkas := SCIP_INVALID,
                  col_strongdown := SCIP_INVALID, col_strongup := SCIP_INVALID,
                  col_validredcostlp := - 1, col_validfarkaslp := - 1,
                  col_strongitlim := - 1, col_sorted := True, col_lbchanged := False,
                  col_ubchanged := False, col_coefchanged := False\<rparr>) s3
      in (SCIP_OKAY, SCIPcolCreate_sorted_loop c len 0 s4))"

text \<open>
  \<open>SCIPcolBoundChanged\<close>: notifies the LP that the bounds of a column were changed.
  The four loops of the source over the rows of the column differ in the update applied
  to the linked rows only; \<open>f pos\<close> is that update for position \<open>pos\<close> of the row. The
  bound type is one of the two enumerators, so the \<open>default\<close> branch has no
  counterpart.
\<close>

function SCIPcolBoundChanged_loop ::
  "(int \<Rightarrow> ROW \<Rightarrow> ROW) \<Rightarrow> colptr \<Rightarrow> int \<Rightarrow> STATE \<Rightarrow> STATE" where
  "SCIPcolBoundChanged_loop f c r s =
     (if r < col_len (h_cols s c) then
        (if col_linkpos (h_cols s c) r \<ge> 0 then
           SCIPcolBoundChanged_loop f c (r + 1)
             (upd_row (col_rows (h_cols s c) r) (f (col_linkpos (h_cols s c) r)) s)
         else SCIPcolBoundChanged_loop f c (r + 1) s)
      else s)"
  by pat_completeness auto
termination
  by (relation "measure (\<lambda>(f, c, r, s). nat (col_len (h_cols s c) - r))") auto

declare SCIPcolBoundChanged_loop.simps [simp del]

definition SCIPcolBoundChanged ::
  "SET \<Rightarrow> colptr \<Rightarrow> BOUNDTYPE \<Rightarrow> real \<Rightarrow> real \<Rightarrow> STATE \<Rightarrow> RETCODE \<times> STATE" where
  "SCIPcolBoundChanged st c boundtype oldbound newbound s =
     (let s1 = (if col_lpipos (h_cols s c) \<ge> 0 then
                  (let sa = (if \<not> col_lbchanged (h_cols s c) \<and> \<not> col_ubchanged (h_cols s c) then
                               upd_lp (\<lambda>l. l\<lparr>lp_chgcols := (lp_chgcols l)(lp_nchgcols l := c),
                                                lp_nchgcols := lp_nchgcols l + 1\<rparr>) s
                             else s);
                       sb = (case boundtype of
                               SCIP_BOUNDTYPE_LOWER \<Rightarrow> upd_col c (\<lambda>col. col\<lparr>col_lbchanged := True\<rparr>) sa
                             | SCIP_BOUNDTYPE_UPPER \<Rightarrow> upd_col c (\<lambda>col. col\<lparr>col_ubchanged := True\<rparr>) sa)
                   in upd_lp (\<lambda>l. l\<lparr>lp_flushed := False, lp_solved := False,
                                      lp_primalfeasible := False, lp_objval := SCIP_INVALID,
                                      lp_lpsolstat := SCIP_LPSOLSTAT_NOTSOLVED\<rparr>) sb)
                else s);
          s2 = (if var_obj (col_var (h_cols s1 c)) \<ge> 0 \<and> boundtype = SCIP_BOUNDTYPE_LOWER then
                  SCIPcolBoundChanged_loop (\<lambda>pos. rowUpdatePseudoActivity pos oldbound newbound) c 0 s1
                else if var_obj (col_var (h_cols s1 c)) < 0 \<and> boundtype = SCIP_BOUNDTYPE_UPPER then
                  SCIPcolBoundChanged_loop (\<lambda>pos. rowUpdatePseudoActivity pos oldbound newbound) c 0 s1
                else s1);
          s3 = (if boundtype = SCIP_BOUNDTYPE_LOWER then
                  SCIPcolBoundChanged_loop (\<lambda>pos. rowUpdateActivityBoundsLb st pos oldbound newbound) c 0 s2
                else
                  SCIPcolBoundChanged_loop (\<lambda>pos. rowUpdateActivityBoundsUb st pos oldbound newbound) c 0 s2)
      in (SCIP_OKAY, s3))"

section \<open>Row methods\<close>

text \<open>\<open>SCIProwAddCoeff\<close>: adds a previously non existing coefficient to an LP row.\<close>

definition SCIProwAddCoeff :: "SET \<Rightarrow> rowptr \<Rightarrow> colptr \<Rightarrow> real \<Rightarrow> STATE \<Rightarrow> RETCODE \<times> STATE" where
  "SCIProwAddCoeff st r c val s =
     (let res = rowAddCoeff st r c val (- 1) NULLREF s
      in if fst res \<noteq> SCIP_OKAY then res else (SCIP_OKAY, snd res))"

text \<open>\<open>SCIProwChgLhs\<close> and \<open>SCIProwChgRhs\<close>: change a side of an LP row.\<close>

definition SCIProwChgLhs :: "SET \<Rightarrow> rowptr \<Rightarrow> real \<Rightarrow> STATE \<Rightarrow> RETCODE \<times> STATE" where
  "SCIProwChgLhs st r lhs s =
     (if \<not> SCIPsetIsEQ st (row_lhs (h_rows s r)) lhs then
        (let res = rowSideChanged r SCIP_SIDETYPE_LEFT
                     (upd_row r (\<lambda>row. row\<lparr>row_lhs := lhs\<rparr>) s)
         in if fst res \<noteq> SCIP_OKAY then res else (SCIP_OKAY, snd res))
      else (SCIP_OKAY, s))"

definition SCIProwChgRhs :: "SET \<Rightarrow> rowptr \<Rightarrow> real \<Rightarrow> STATE \<Rightarrow> RETCODE \<times> STATE" where
  "SCIProwChgRhs st r rhs s =
     (if \<not> SCIPsetIsEQ st (row_rhs (h_rows s r)) rhs then
        (let res = rowSideChanged r SCIP_SIDETYPE_RIGHT
                     (upd_row r (\<lambda>row. row\<lparr>row_rhs := rhs\<rparr>) s)
         in if fst res \<noteq> SCIP_OKAY then res else (SCIP_OKAY, snd res))
      else (SCIP_OKAY, s))"

lemma rowUpdateActivityBoundsLb_len [simp]:
  "row_len (rowUpdateActivityBoundsLb st pos oldlb newlb row) = row_len row"
  by (simp add: rowUpdateActivityBoundsLb_def Let_def)

lemma rowUpdateActivityBoundsUb_len [simp]:
  "row_len (rowUpdateActivityBoundsUb st pos oldub newub row) = row_len row"
  by (simp add: rowUpdateActivityBoundsUb_def Let_def)

text \<open>
  \<open>rowCalcActivityBounds\<close>: calculates the minimal and maximal activity of a row with
  respect to the bounds of its columns (\<open>row->cols[i]->var->dom.lb\<close> and \<open>dom.ub\<close>).
\<close>

function rowCalcActivityBounds_loop :: "SET \<Rightarrow> rowptr \<Rightarrow> int \<Rightarrow> STATE \<Rightarrow> STATE" where
  "rowCalcActivityBounds_loop st r i s =
     (if i < row_len (h_rows s r) then
        (let s1 = upd_row r (rowUpdateActivityBoundsLb st i 0
                     (var_lb (col_var (h_cols s (row_cols (h_rows s r) i))))) s;
             s2 = upd_row r (rowUpdateActivityBoundsUb st i 0
                     (var_ub (col_var (h_cols s1 (row_cols (h_rows s1 r) i))))) s1
         in rowCalcActivityBounds_loop st r (i + 1) s2)
      else s)"
  by pat_completeness auto
termination
  by (relation "measure (\<lambda>(st, r, i, s). nat (row_len (h_rows s r) - i))") auto

declare rowCalcActivityBounds_loop.simps [simp del]

definition rowCalcActivityBounds :: "SET \<Rightarrow> rowptr \<Rightarrow> STATE \<Rightarrow> RETCODE \<times> STATE" where
  "rowCalcActivityBounds st r s =
     (let res = rowLink r s
      in if fst res \<noteq> SCIP_OKAY then res
         else
           (let s1 = upd_row r (\<lambda>row. row\<lparr>row_validactivitybds := True,
                        row_minactivity := row_constant row,
                        row_maxactivity := row_constant row,
                        row_minactivityinf := 0, row_maxactivityinf := 0\<rparr>) (snd res)
            in (SCIP_OKAY, rowCalcActivityBounds_loop st r 0 s1)))"

text \<open>
  \<open>SCIProwGetActivityBounds\<close>: returns the minimal and maximal activity of a row. Both
  result pointers are taken to be given; the results are \<open>None\<close> when the function
  returns an error before writing them.
\<close>

definition SCIProwGetActivityBounds ::
  "SET \<Rightarrow> rowptr \<Rightarrow> STATE \<Rightarrow> RETCODE \<times> STATE \<times> (real \<times> real) option" where
  "SCIProwGetActivityBounds st r s =
     (let res = (if \<not> row_validactivitybds (h_rows s r) then rowCalcActivityBounds st r s
                 else (SCIP_OKAY, s))
      in if fst res \<noteq> SCIP_OKAY then (fst res, snd res, None)
         else
           (let row = h_rows (snd res) r;
                minactivity = (if row_minactivityinf row > 0 then - set_infinity st
                               else row_minactivity row);
                maxactivity = (if row_maxactivityinf row > 0 then set_infinity st
                               else row_maxactivity row)
            in (SCIP_OKAY, snd res, Some (minactivity, maxactivity))))"

text \<open>
  Modelled from the spec: var.c is not among the sources. \<open>SCIPvarGetLb\<close> and
  \<open>SCIPvarGetUb\<close> are the reads of the current lower and upper bound that the
  variable/domain subsystem supplies.
\<close>

definition SCIPvarGetLb :: "VAR \<Rightarrow> real" where
  "SCIPvarGetLb var = var_lb var"

definition SCIPvarGetUb :: "VAR \<Rightarrow> real" where
  "SCIPvarGetUb var = var_ub var"

text \<open>
  \<open>SCIProwGetActivityResiduals\<close>: gets the activity bounds of a row after setting a
  variable to zero. The return code of \<open>rowCalcActivityBounds\<close> is not checked here.
\<close>

definition SCIProwGetActivityResiduals ::
  "SET \<Rightarrow> rowptr \<Rightarrow> VAR \<Rightarrow> real \<Rightarrow> STATE \<Rightarrow> RETCODE \<times> STATE \<times> real \<times> real" where
  "SCIProwGetActivityResiduals st r var val s =
     (let s1 = (if \<not> row_validactivitybds (h_rows s r) then snd (rowCalcActivityBounds st r s)
                else s);
          row = h_rows s1 r;
          lb = SCIPvarGetLb var;
          ub = SCIPvarGetUb var
      in if val > 0 then
           (let minresactivity =
                  (if SCIPsetIsInfinity st (- lb) then
                     (if row_minactivityinf row \<ge> 2 then - set_infinity st
                      else row_minactivity row)
                   else
                     (if row_minactivityinf row \<ge> 1 then - set_infinity st
                      else row_minactivity row - val * lb));
                maxresactivity =
                  (if SCIPsetIsInfinity st ub then
                     (if row_maxactivityinf row \<ge> 2 then set_infinity st
                      else row_maxactivity row)
                   else
                     (if row_maxactivityinf row \<ge> 1 then set_infinity st
                      else row_maxactivity row - val * ub))
            in (SCIP_OKAY, s1, minresactivity, maxresactivity))
         else
           (let minresactivity =
                  (if SCIPsetIsInfinity st ub then
                     (if row_minactivityinf row \<ge> 2 then - set_infinity st
                      else row_minactivity row)
                   else
                     (if row_minactivityinf row \<ge> 1 then - set_infinity st
                      else row_minactivity row - val * ub));
                maxresactivity =
                  (if SCIPsetIsInfinity st (- lb) then
                     (if row_maxactivityinf row \<ge> 2 then set_infinity st
                      else row_maxactivity row)
                   else
                     (if row_maxactivityinf row \<ge> 1 then set_infinity st
                      else row_maxactivity row - val * lb))
            in (SCIP_OKAY, s1, minresactivity, maxresactivity)))"

section \<open>What the announcements leave unchanged in the LP\<close>

text \<open>
  Adding, deleting and changing coefficients reaches the LP data through \<open>coefChanged\<close>
  only, which moves the two first-change marks and clears status fields. \<open>lp_frame l l'\<close>
  says that \<open>l'\<close> agrees with \<open>l\<close> on everything else and that the solved flag was not
  switched on.
\<close>

definition lp_frame :: "LP \<Rightarrow> LP \<Rightarrow> bool" where
  "lp_frame l l' \<longleftrightarrow>
     lp_cols l' = lp_cols l \<and> lp_rows l' = lp_rows l \<and>
     lp_lpicols l' = lp_lpicols l \<and> lp_lpirows l' = lp_lpirows l \<and>
     lp_chgcols l' = lp_chgcols l \<and> lp_chgrows l' = lp_chgrows l \<and>
     lp_ncols l' = lp_ncols l \<and> lp_nrows l' = lp_nrows l \<and>
     lp_nlpicols l' = lp_nlpicols l \<and> lp_nlpirows l' = lp_nlpirows l \<and>
     lp_nchgcols l' = lp_nchgcols l \<and> lp_nchgrows l' = lp_nchgrows l \<and>
     lp_lpicalls l' = lp_lpicalls l \<and> (lp_solved l' \<longrightarrow> lp_solved l)"

lemma lp_frame_refl [simp]: "lp_frame l l"
  by (simp add: lp_frame_def)

lemma lp_frame_trans: "lp_frame l l' \<Longrightarrow> lp_frame l' l'' \<Longrightarrow> lp_frame l l''"
  by (simp add: lp_frame_def)

lemma store_ref_lp [simp]: "h_lp (store_ref p v s) = h_lp s"
  by (cases p) simp_all

lemma coefChanged_lp_frame: "lp_frame (h_lp s) (h_lp (coefChanged r c s))"
  by (simp add: coefChanged_def Let_def lp_frame_def)

lemma coefChanged_lp_frame': "h_lp s' = l \<Longrightarrow> lp_frame l (h_lp (coefChanged r c s'))"
  using coefChanged_lp_frame [of s' r c] by simp

lemma colAddCoeff_lp_frame: "lp_frame (h_lp s) (h_lp (snd (colAddCoeff c r val lpos rpos s)))"
  by (auto simp: colAddCoeff_def Let_def intro!: coefChanged_lp_frame')

lemma colDelCoeffPos_lp_frame: "lp_frame (h_lp s) (h_lp (snd (colDelCoeffPos c pos s)))"
  by (auto simp: colDelCoeffPos_def Let_def intro!: coefChanged_lp_frame')

lemma rowAddCoeff_lp_frame: "lp_frame (h_lp s) (h_lp (snd (rowAddCoeff st r c val lpos cpos s)))"
  by (auto simp: rowAddCoeff_def Let_def intro!: coefChanged_lp_frame')

lemma rowDelCoeffPos_lp_frame: "lp_frame (h_lp s) (h_lp (snd (rowDelCoeffPos st r pos s)))"
  by (auto simp: rowDelCoeffPos_def Let_def intro!: coefChanged_lp_frame')

lemma lp_frame_step: "lp_frame l (h_lp s1) \<Longrightarrow> lp_frame (h_lp s1) l' \<Longrightarrow> lp_frame l l'"
  by (rule lp_frame_trans)

lemma colLink_loop_lp_frame: "lp_frame (h_lp s) (h_lp (snd (colLink_loop st c i s)))"
proof (induction st c i s rule: colLink_loop.induct)
  case (1 st c i s)
  show ?case
    apply (subst colLink_loop.simps)
    using "1.IH"(1) [OF _ _ refl] "1.IH"(2) rowAddCoeff_lp_frame [of s st "col_rows (h_cols s c) i" c "col_vals (h_cols s c) i" i "ColLinkposRef c i"]
    by (auto simp: Let_def intro: lp_frame_trans)
qed

lemma colUnlink_loop_lp_frame: "lp_frame (h_lp s) (h_lp (snd (colUnlink_loop st c i s)))"
proof (induction st c i s rule: colUnlink_loop.induct)
  case (1 st c i s)
  show ?case
    apply (subst colUnlink_loop.simps)
    using "1.IH"(1) [OF _ _ refl] "1.IH"(2) rowDelCoeffPos_lp_frame [of s st "col_rows (h_cols s c) i" "col_linkpos (h_cols s c) i"]
    by (auto simp: Let_def intro: lp_frame_trans)
qed

lemma rowLink_loop_lp_frame: "lp_frame (h_lp s) (h_lp (snd (rowLink_loop r i s)))"
proof (induction r i s rule: rowLink_loop.induct)
  case (1 r i s)
  show ?case
    apply (subst rowLink_loop.simps)
    using "1.IH"(1) [OF _ _ refl] "1.IH"(2) colAddCoeff_lp_frame [of s "row_cols (h_rows s r) i" r "row_vals (h_rows s r) i" i "RowLinkposRef r i"]
    by (auto simp: Let_def intro: lp_frame_trans)
qed

lemma rowUnlink_loop_lp_frame: "lp_frame (h_lp s) (h_lp (snd (rowUnlink_loop r i s)))"
proof (induction r i s rule: rowUnlink_loop.induct)
  case (1 r i s)
  show ?case
    apply (subst rowUnlink_loop.simps)
    using "1.IH"(1) [OF _ _ refl] "1.IH"(2) colDelCoeffPos_lp_frame [of s "row_cols (h_rows s r) i" "row_linkpos (h_rows s r) i"]
    by (auto simp: Let_def intro: lp_frame_trans)
qed

lemma colLink_lp_frame: "lp_frame (h_lp s) (h_lp (snd (colLink st c s)))"
  by (simp add: colLink_def colLink_loop_lp_frame)

lemma colUnlink_lp_frame: "lp_frame (h_lp s) (h_lp (snd (colUnlink st c s)))"
  by (simp add: colUnlink_def colUnlink_loop_lp_frame)

lemma rowLink_lp_frame: "lp_frame (h_lp s) (h_lp (snd (rowLink r s)))"
  by (simp add: rowLink_def rowLink_loop_lp_frame)

lemma rowUnlink_lp_frame: "lp_frame (h_lp s) (h_lp (snd (rowUnlink r s)))"
  by (simp add: rowUnlink_def rowUnlink_loop_lp_frame)

lemma lp_frame_nrows: "lp_frame l l' \<Longrightarrow> lp_nrows l' = lp_nrows l"
  by (simp add: lp_frame_def)

lemma lp_frame_ncols: "lp_frame l l' \<Longrightarrow> lp_ncols l' = lp_ncols l"
  by (simp add: lp_frame_def)

lemma rowUnlink_nrows [simp]: "lp_nrows (h_lp (snd (rowUnlink r s))) = lp_nrows (h_lp s)"
  by (rule lp_frame_nrows [OF rowUnlink_lp_frame])

lemma rowLink_nrows [simp]: "lp_nrows (h_lp (snd (rowLink r s))) = lp_nrows (h_lp s)"
  by (rule lp_frame_nrows [OF rowLink_lp_frame])

lemma colLink_ncols [simp]: "lp_ncols (h_lp (snd (colLink st c s))) = lp_ncols (h_lp s)"
  by (rule lp_frame_ncols [OF colLink_lp_frame])

section \<open>The external LP solver\<close>

text \<open>
  Modelled from the spec: the LP interface (\<open>SCIPlpi...\<close>) is not among the sources.
  The solver is an external collaborator: every call returns a code, and after a solve
  it holds one raw termination signal, feasibility flags of the basis, an objective
  value and two iteration counts. \<open>lpi_retcode\<close> gives the code of a call from the calls
  made before it. Each \<open>SCIPlpiIs...\<close> query tests the termination signal.
\<close>

datatype LPITERM =
    LPI_OPTIMAL
  | LPI_PRIMALINFEASIBLE
  | LPI_PRIMALUNBOUNDED
  | LPI_ITERLIMEXC
  | LPI_TIMELIMEXC
  | LPI_OBJLIMEXC
  | LPI_UNKNOWN

record LPI =
  lpi_infinity :: real
  lpi_retcode :: "LPICALL list \<Rightarrow> LPICALL \<Rightarrow> RETCODE"
  lpi_termination :: LPITERM
  lpi_primalfeasible :: bool
  lpi_dualfeasible :: bool
  lpi_objval :: real
  lpi_iter1 :: int
  lpi_iter2 :: int

definition lpi_call :: "LPI \<Rightarrow> LPICALL \<Rightarrow> STATE \<Rightarrow> RETCODE \<times> STATE" where
  "lpi_call lpi call s =
     (lpi_retcode lpi (lp_lpicalls (h_lp s)) call,
      upd_lp (\<lambda>l. l\<lparr>lp_lpicalls := lp_lpicalls l @ [call]\<rparr>) s)"

definition SCIPlpiInfinity :: "LPI \<Rightarrow> real" where
  "SCIPlpiInfinity lpi = lpi_infinity lpi"

definition SCIPlpiIsOptimal :: "LPI \<Rightarrow> bool" where
  "SCIPlpiIsOptimal lpi \<longleftrightarrow> lpi_termination lpi = LPI_OPTIMAL"

definition SCIPlpiIsPrimalInfeasible :: "LPI \<Rightarrow> bool" where
  "SCIPlpiIsPrimalInfeasible lpi \<longleftrightarrow> lpi_termination lpi = LPI_PRIMALINFEASIBLE"

definition SCIPlpiIsPrimalUnbounded :: "LPI \<Rightarrow> bool" where
  "SCIPlpiIsPrimalUnbounded lpi \<longleftrightarrow> lpi_termination lpi = LPI_PRIMALUNBOUNDED"

definition SCIPlpiIsIterlimExc :: "LPI \<Rightarrow> bool" where
  "SCIPlpiIsIterlimExc lpi \<longleftrightarrow> lpi_termination lpi = LPI_ITERLIMEXC"

definition SCIPlpiIsTimelimExc :: "LPI \<Rightarrow> bool" where
  "SCIPlpiIsTimelimExc lpi \<longleftrightarrow> lpi_termination lpi = LPI_TIMELIMEXC"

definition SCIPlpiIsObjlimExc :: "LPI \<Rightarrow> bool" where
  "SCIPlpiIsObjlimExc lpi \<longleftrightarrow> lpi_termination lpi = LPI_OBJLIMEXC"

section \<open>LP methods\<close>

text \<open>\<open>SCIProwCapture\<close>: increases the usage counter of an LP row.\<close>

definition SCIProwCapture :: "rowptr \<Rightarrow> STATE \<Rightarrow> STATE" where
  "SCIProwCapture r s = upd_row r (\<lambda>row. row\<lparr>row_nuses := row_nuses row + 1\<rparr>) s"

text \<open>
  \<open>SCIProwFree\<close>: frees an LP row. Releasing the memory is not modelled: the record
  stays in the store.
\<close>

definition SCIProwFree :: "rowptr \<Rightarrow> STATE \<Rightarrow> RETCODE \<times> STATE" where
  "SCIProwFree r s =
     (let res = rowUnlink r s
      in if fst res \<noteq> SCIP_OKAY then res else (SCIP_OKAY, snd res))"

text \<open>
  \<open>SCIProwRelease\<close>, called with the address of entry \<open>idx\<close> of \<open>lp->rows\<close> as in
  \<open>SCIPlpShrinkRows\<close>: decreases the usage counter, frees the row if necessary and
  sets the entry to \<open>NULL\<close> (address 0).
\<close>

definition SCIProwRelease :: "int \<Rightarrow> STATE \<Rightarrow> RETCODE \<times> STATE" where
  "SCIProwRelease idx s =
     (let r = lp_rows (h_lp s) idx;
          s1 = upd_row r (\<lambda>row. row\<lparr>row_nuses := row_nuses row - 1\<rparr>) s;
          res = (if row_nuses (h_rows s1 r) = 0 then SCIProwFree r s1 else (SCIP_OKAY, s1))
      in if fst res \<noteq> SCIP_OKAY then res
         else (SCIP_OKAY, upd_lp (\<lambda>l. l\<lparr>lp_rows := (lp_rows l)(idx := 0)\<rparr>) (snd res)))"

lemma SCIProwRelease_nrows [simp]:
  "lp_nrows (h_lp (snd (SCIProwRelease idx s))) = lp_nrows (h_lp s)"
  by (simp add: SCIProwRelease_def SCIProwFree_def Let_def)

text \<open>\<open>SCIPlpAddCol\<close>: adds a column to the LP.\<close>

definition SCIPlpAddCol :: "colptr \<Rightarrow> STATE \<Rightarrow> RETCODE \<times> STATE" where
  "SCIPlpAddCol c s =
     (let s1 = upd_lp (\<lambda>l. l\<lparr>lp_cols := (lp_cols l)(lp_ncols l := c)\<rparr>) s;
          s2 = upd_col c (\<lambda>col. col\<lparr>col_lppos := lp_ncols (h_lp s1)\<rparr>) s1;
          s3 = upd_lp (\<lambda>l. l\<lparr>lp_ncols := lp_ncols l + 1, lp_flushed := False,
                               lp_solved := False, lp_dualfeasible := False,
                               lp_objval := SCIP_INVALID,
                               lp_lpsolstat := SCIP_LPSOLSTAT_NOTSOLVED\<rparr>) s2
      in (SCIP_OKAY, s3))"

text \<open>\<open>SCIPlpAddRow\<close>: adds a row to the LP and captures it.\<close>

definition SCIPlpAddRow :: "rowptr \<Rightarrow> STATE \<Rightarrow> RETCODE \<times> STATE" where
  "SCIPlpAddRow r s =
     (let s0 = SCIProwCapture r s;
          s1 = upd_lp (\<lambda>l. l\<lparr>lp_rows := (lp_rows l)(lp_nrows l := r)\<rparr>) s0;
          s2 = upd_row r (\<lambda>row. row\<lparr>row_lppos := lp_nrows (h_lp s1)\<rparr>) s1;
          s3 = upd_lp (\<lambda>l. l\<lparr>lp_nrows := lp_nrows l + 1, lp_flushed := False,
                               lp_solved := False, lp_primalfeasible := False,
                               lp_objval := SCIP_INVALID,
                               lp_lpsolstat := SCIP_LPSOLSTAT_NOTSOLVED\<rparr>) s2
      in (SCIP_OKAY, s3))"

text \<open>\<open>SCIPlpShrinkCols\<close>: removes all columns after the given number from the LP.\<close>

function SCIPlpShrinkCols_loop :: "int \<Rightarrow> STATE \<Rightarrow> STATE" where
  "SCIPlpShrinkCols_loop c s =
     (if c < lp_ncols (h_lp s) then
        SCIPlpShrinkCols_loop (c + 1)
          (upd_col (lp_cols (h_lp s) c) (\<lambda>col. col\<lparr>col_lppos := - 1\<rparr>) s)
      else s)"
  by pat_completeness auto
termination
  by (relation "measure (\<lambda>(c, s). nat (lp_ncols (h_lp s) - c))") auto

declare SCIPlpShrinkCols_loop.simps [simp del]

definition SCIPlpShrinkCols :: "int \<Rightarrow> STATE \<Rightarrow> RETCODE \<times> STATE" where
  "SCIPlpShrinkCols newncols s =
     (if newncols < lp_ncols (h_lp s) then
        (let s1 = SCIPlpShrinkCols_loop newncols s;
             s2 = upd_lp (\<lambda>l. l\<lparr>lp_ncols := newncols,
                     lp_lpifirstchgcol := min (lp_lpifirstchgcol l) newncols,
                     lp_flushed := False, lp_solved := False, lp_primalfeasible := False,
                     lp_objval := SCIP_INVALID,
                     lp_lpsolstat := SCIP_LPSOLSTAT_NOTSOLVED\<rparr>) s1
         in (SCIP_OKAY, s2))
      else (SCIP_OKAY, s))"

text \<open>\<open>SCIPlpShrinkRows\<close>: removes and releases all rows after the given number.\<close>

function SCIPlpShrinkRows_loop :: "int \<Rightarrow> STATE \<Rightarrow> RETCODE \<times> STATE" where
  "SCIPlpShrinkRows_loop r s =
     (if r < lp_nrows (h_lp s) then
        (let s1 = upd_row (lp_rows (h_lp s) r) (\<lambda>row. row\<lparr>row_lppos := - 1\<rparr>) s;
             res = SCIProwRelease r s1
         in if fst res \<noteq> SCIP_OKAY then res
            else SCIPlpShrinkRows_loop (r + 1) (snd res))
      else (SCIP_OKAY, s))"
  by pat_completeness auto
termination
  by (relation "measure (\<lambda>(r, s). nat (lp_nrows (h_lp s) - r))") auto

declare SCIPlpShrinkRows_loop.simps [simp del]

definition SCIPlpShrinkRows :: "int \<Rightarrow> STATE \<Rightarrow> RETCODE \<times> STATE" where
  "SCIPlpShrinkRows newnrows s =
     (if newnrows < lp_nrows (h_lp s) then
        (let res = SCIPlpShrinkRows_loop newnrows s
         in if fst res \<noteq> SCIP_OKAY then res
            else (SCIP_OKAY,
                  upd_lp (\<lambda>l. l\<lparr>lp_nrows := newnrows,
                     lp_lpifirstchgrow := min (lp_lpifirstchgrow l) newnrows,
                     lp_flushed := False, lp_solved := False, lp_dualfeasible := False,
                     lp_objval := SCIP_INVALID,
                     lp_lpsolstat := SCIP_LPSOLSTAT_NOTSOLVED\<rparr>) (snd res)))
      else (SCIP_OKAY, s))"

section \<open>LP solver data update\<close>

text \<open>\<open>lpFlushDelCols\<close>: applies all cached column removals to the LP solver.\<close>

function lpFlushDelCols_find :: "STATE \<Rightarrow> STATE" where
  "lpFlushDelCols_find s =
     (let lp = h_lp s in
      if lp_lpifirstchgcol lp < lp_nlpicols lp
         \<and> lp_lpifirstchgcol lp < lp_ncols lp
         \<and> col_lpipos (h_cols s (lp_cols lp (lp_lpifirstchgcol lp))) = lp_lpifirstchgcol lp
         \<and> \<not> col_coefchanged (h_cols s (lp_cols lp (lp_lpifirstchgcol lp)))
      then lpFlushDelCols_find (upd_lp (\<lambda>l. l\<lparr>lp_lpifirstchgcol := lp_lpifirstchgcol l + 1\<rparr>) s)
      else s)"
  by pat_completeness auto
termination
  by (relation "measure (\<lambda>s. nat (lp_nlpicols (h_lp s) - lp_lpifirstchgcol (h_lp s)))") auto

declare lpFlushDelCols_find.simps [simp del]

function lpFlushDelCols_loop :: "int \<Rightarrow> STATE \<Rightarrow> STATE" where
  "lpFlushDelCols_loop i s =
     (if i < lp_nlpicols (h_lp s) then
        lpFlushDelCols_loop (i + 1)
          (upd_col (lp_lpicols (h_lp s) i)
             (\<lambda>col. col\<lparr>col_lpipos := - 1, col_primsol := 0, col_redcost := SCIP_INVALID,
                         col_farkas := SCIP_INVALID, col_strongdown := SCIP_INVALID,
                         col_strongup := SCIP_INVALID, col_validredcostlp := - 1,
                         col_validfarkaslp := - 1, col_strongitlim := - 1\<rparr>) s)
      else s)"
  by pat_completeness auto
termination
  by (relation "measure (\<lambda>(i, s). nat (lp_nlpicols (h_lp s) - i))") auto

declare lpFlushDelCols_loop.simps [simp del]

definition lpFlushDelCols :: "LPI \<Rightarrow> STATE \<Rightarrow> RETCODE \<times> STATE" where
  "lpFlushDelCols lpi s =
     (let s1 = lpFlushDelCols_find s in
      if lp_lpifirstchgcol (h_lp s1) < lp_nlpicols (h_lp s1) then
        (let res = lpi_call lpi (LpiDelCols (lp_lpifirstchgcol (h_lp s1)) (lp_nlpicols (h_lp s1) - 1)) s1
         in if fst res \<noteq> SCIP_OKAY then res
            else
              (let s2 = lpFlushDelCols_loop (lp_lpifirstchgcol (h_lp (snd res))) (snd res)
               in (SCIP_OKAY, upd_lp (\<lambda>l. l\<lparr>lp_nlpicols := lp_lpifirstchgcol l\<rparr>) s2)))
      else (SCIP_OKAY, s1))"

text \<open>
  The temporary arrays that \<open>lpFlushAddCols\<close> and \<open>lpFlushAddRows\<close> fill for the solver.
  An array is the list of the entries written so far: entry \<open>pos\<close>, respectively
  \<open>nnonz\<close>, is written by appending. The names of the columns and rows are left out,
  as is \<open>naddcoefs\<close>, which sizes the buffers only.
\<close>

record ADDBUF =
  buf_obj :: "real list"
  buf_lb :: "real list"
  buf_ub :: "real list"
  buf_beg :: "int list"
  buf_ind :: "int list"
  buf_val :: "real list"
  buf_nnonz :: int

definition empty_buf :: ADDBUF where
  "empty_buf = \<lparr>buf_obj = [], buf_lb = [], buf_ub = [], buf_beg = [], buf_ind = [],
                 buf_val = [], buf_nnonz = 0\<rparr>"

text \<open>The inner loop of \<open>lpFlushAddCols\<close> over the entries of a new column.\<close>

function lpFlushAddCols_coefs :: "STATE \<Rightarrow> colptr \<Rightarrow> int \<Rightarrow> ADDBUF \<Rightarrow> ADDBUF" where
  "lpFlushAddCols_coefs s c i b =
     (if i < col_len (h_cols s c) then
        (let lpipos = row_lpipos (h_rows s (col_rows (h_cols s c) i)) in
         if lpipos \<ge> 0 then
           lpFlushAddCols_coefs s c (i + 1)
             (b\<lparr>buf_ind := buf_ind b @ [lpipos],
                buf_val := buf_val b @ [col_vals (h_cols s c) i],
                buf_nnonz := buf_nnonz b + 1\<rparr>)
         else lpFlushAddCols_coefs s c (i + 1) b)
      else b)"
  by pat_completeness auto
termination
  by (relation "measure (\<lambda>(s, c, i, b). nat (col_len (h_cols s c) - i))") auto

declare lpFlushAddCols_coefs.simps [simp del]

function lpFlushAddCols_loop ::
  "LPI \<Rightarrow> SET \<Rightarrow> int \<Rightarrow> ADDBUF \<Rightarrow> STATE \<Rightarrow> RETCODE \<times> STATE \<times> ADDBUF" where
  "lpFlushAddCols_loop lpi st c b s =
     (if c < lp_ncols (h_lp s) then
        (let col = lp_cols (h_lp s) c;
             res = colLink st col s
         in if fst res \<noteq> SCIP_OKAY then (fst res, snd res, b)
            else
              (let s1 = upd_lp (\<lambda>l. l\<lparr>lp_lpicols := (lp_lpicols l)(c := col)\<rparr>) (snd res);
                   s2 = upd_col col (\<lambda>x. x\<lparr>col_lpipos := c, col_primsol := SCIP_INVALID,
                           col_redcost := SCIP_INVALID, col_farkas := SCIP_INVALID,
                           col_strongdown := SCIP_INVALID, col_strongup := SCIP_INVALID,
                           col_validredcostlp := - 1, col_validfarkaslp := - 1,
                           col_strongitlim := - 1, col_lbchanged := False,
                           col_ubchanged := False, col_coefchanged := False\<rparr>) s1;
                   var = col_var (h_cols s2 col);
                   b1 = b\<lparr>buf_obj := buf_obj b @ [var_obj var],
                          buf_lb := buf_lb b @ [if SCIPsetIsInfinity st (- var_lb var)
                                                then - SCIPlpiInfinity lpi else var_lb var],
                          buf_ub := buf_ub b @ [if SCIPsetIsInfinity st (var_ub var)
                                                then SCIPlpiInfinity lpi else var_ub var],
                          buf_beg := buf_beg b @ [buf_nnonz b]\<rparr>;
                   b2 = lpFlushAddCols_coefs s2 col 0 b1
               in lpFlushAddCols_loop lpi st (c + 1) b2 s2))
      else (SCIP_OKAY, s, b))"
  by pat_completeness auto
termination
  by (relation "measure (\<lambda>(lpi, st, c, b, s). nat (lp_ncols (h_lp s) - c))") auto

declare lpFlushAddCols_loop.simps [simp del]

text \<open>\<open>lpFlushAddCols\<close>: applies all cached column additions to the LP solver.\<close>

definition lpFlushAddCols :: "LPI \<Rightarrow> SET \<Rightarrow> STATE \<Rightarrow> RETCODE \<times> STATE" where
  "lpFlushAddCols lpi st s =
     (if lp_ncols (h_lp s) = lp_nlpicols (h_lp s) then (SCIP_OKAY, s)
      else
        (let naddcols = lp_ncols (h_lp s) - lp_nlpicols (h_lp s);
             (rc, s1, b) = lpFlushAddCols_loop lpi st (lp_nlpicols (h_lp s)) empty_buf s
         in if rc \<noteq> SCIP_OKAY then (rc, s1)
            else
              (let res = lpi_call lpi (LpiAddCols naddcols (buf_obj b) (buf_lb b) (buf_ub b)
                            (buf_nnonz b) (buf_beg b) (buf_ind b) (buf_val b)) s1
               in if fst res \<noteq> SCIP_OKAY then res
                  else (SCIP_OKAY,
                        upd_lp (\<lambda>l. l\<lparr>lp_nlpicols := lp_ncols l,
                                         lp_lpifirstchgcol := lp_ncols l\<rparr>) (snd res)))))"

text \<open>\<open>lpFlushDelRows\<close>: applies all cached row removals to the LP solver.\<close>

function lpFlushDelRows_find :: "STATE \<Rightarrow> STATE" where
  "lpFlushDelRows_find s =
     (let lp = h_lp s in
      if lp_lpifirstchgrow lp < lp_nlpirows lp
         \<and> lp_lpifirstchgrow lp < lp_nrows lp
         \<and> row_lpipos (h_rows s (lp_rows lp (lp_lpifirstchgrow lp))) = lp_lpifirstchgrow lp
         \<and> \<not> row_coefchanged (h_rows s (lp_rows lp (lp_lpifirstchgrow lp)))
      then lpFlushDelRows_find (upd_lp (\<lambda>l. l\<lparr>lp_lpifirstchgrow := lp_lpifirstchgrow l + 1\<rparr>) s)
      else s)"
  by pat_completeness auto
termination
  by (relation "measure (\<lambda>s. nat (lp_nlpirows (h_lp s) - lp_lpifirstchgrow (h_lp s)))") auto

declare lpFlushDelRows_find.simps [simp del]

function lpFlushDelRows_loop :: "int \<Rightarrow> STATE \<Rightarrow> STATE" where
  "lpFlushDelRows_loop i s =
     (if i < lp_nlpirows (h_lp s) then
        lpFlushDelRows_loop (i + 1)
          (upd_row (lp_lpirows (h_lp s) i)
             (\<lambda>row. row\<lparr>row_lpipos := - 1, row_dualsol := 0, row_activity := SCIP_INVALID,
                         row_dualfarkas := 0, row_validactivitylp := - 1\<rparr>) s)
      else s)"
  by pat_completeness auto
termination
  by (relation "measure (\<lambda>(i, s). nat (lp_nlpirows (h_lp s) - i))") auto

declare lpFlushDelRows_loop.simps [simp del]

definition lpFlushDelRows :: "LPI \<Rightarrow> STATE \<Rightarrow> RETCODE \<times> STATE" where
  "lpFlushDelRows lpi s =
     (let s1 = lpFlushDelRows_find s in
      if lp_lpifirstchgrow (h_lp s1) < lp_nlpirows (h_lp s1) then
        (let res = lpi_call lpi (LpiDelRows (lp_lpifirstchgrow (h_lp s1)) (lp_nlpirows (h_lp s1) - 1)) s1
         in if fst res \<noteq> SCIP_OKAY then res
            else
              (let s2 = lpFlushDelRows_loop (lp_lpifirstchgrow (h_lp (snd res))) (snd res)
               in (SCIP_OKAY, upd_lp (\<lambda>l. l\<lparr>lp_nlpirows := lp_lpifirstchgrow l\<rparr>) s2)))
      else (SCIP_OKAY, s1))"

text \<open>The inner loop of \<open>lpFlushAddRows\<close> over the entries of a new row.\<close>

function lpFlushAddRows_coefs :: "STATE \<Rightarrow> rowptr \<Rightarrow> int \<Rightarrow> ADDBUF \<Rightarrow> ADDBUF" where
  "lpFlushAddRows_coefs s r i b =
     (if i < row_len (h_rows s r) then
        (let lpipos = col_lpipos (h_cols s (row_cols (h_rows s r) i)) in
         if lpipos \<ge> 0 then
           lpFlushAddRows_coefs s r (i + 1)
             (b\<lparr>buf_ind := buf_ind b @ [lpipos],
                buf_val := buf_val b @ [row_vals (h_rows s r) i],
                buf_nnonz := buf_nnonz b + 1\<rparr>)
         else lpFlushAddRows_coefs s r (i + 1) b)
      else b)"
  by pat_completeness auto
termination
  by (relation "measure (\<lambda>(s, r, i, b). nat (row_len (h_rows s r) - i))") auto

declare lpFlushAddRows_coefs.simps [simp del]

text \<open>In the buffer of \<open>lpFlushAddRows\<close>, \<open>buf_lb\<close> and \<open>buf_ub\<close> hold \<open>lhs\<close> and \<open>rhs\<close>.\<close>

function lpFlushAddRows_loop ::
  "LPI \<Rightarrow> SET \<Rightarrow> int \<Rightarrow> ADDBUF \<Rightarrow> STATE \<Rightarrow> RETCODE \<times> STATE \<times> ADDBUF" where
  "lpFlushAddRows_loop lpi st r b s =
     (if r < lp_nrows (h_lp s) then
        (let row = lp_rows (h_lp s) r;
             res = rowLink row s
         in if fst res \<noteq> SCIP_OKAY then (fst res, snd res, b)
            else
              (let s1 = upd_lp (\<lambda>l. l\<lparr>lp_lpirows := (lp_lpirows l)(r := row)\<rparr>) (snd res);
                   s2 = upd_row row (\<lambda>x. x\<lparr>row_lpipos := r, row_dualsol := SCIP_INVALID,
                           row_activity := SCIP_INVALID, row_dualfarkas := SCIP_INVALID,
                           row_validactivitylp := - 1, row_lhschanged := False,
                           row_rhschanged := False, row_coefchanged := False\<rparr>) s1;
                   x = h_rows s2 row;
                   b1 = b\<lparr>buf_lb := buf_lb b @ [if SCIPsetIsInfinity st (- row_lhs x)
                                                then - SCIPlpiInfinity lpi
                                                else row_lhs x + row_constant x],
                          buf_ub := buf_ub b @ [if SCIPsetIsInfinity st (row_rhs x)
                                                then SCIPlpiInfinity lpi
                                                else row_rhs x + row_constant x],
                          buf_beg := buf_beg b @ [buf_nnonz b]\<rparr>;
                   b2 = lpFlushAddRows_coefs s2 row 0 b1
               in lpFlushAddRows_loop lpi st (r + 1) b2 s2))
      else (SCIP_OKAY, s, b))"
  by pat_completeness auto
termination
  by (relation "measure (\<lambda>(lpi, st, r, b, s). nat (lp_nrows (h_lp s) - r))") auto

declare lpFlushAddRows_loop.simps [simp del]

text \<open>\<open>lpFlushAddRows\<close>: applies all cached row additions to the LP solver.\<close>

definition lpFlushAddRows :: "LPI \<Rightarrow> SET \<Rightarrow> STATE \<Rightarrow> RETCODE \<times> STATE" where
  "lpFlushAddRows lpi st s =
     (if lp_nrows (h_lp s) = lp_nlpirows (h_lp s) then (SCIP_OKAY, s)
      else
        (let naddrows = lp_nrows (h_lp s) - lp_nlpirows (h_lp s);
             (rc, s1, b) = lpFlushAddRows_loop lpi st (lp_nlpirows (h_lp s)) empty_buf s
         in if rc \<noteq> SCIP_OKAY then (rc, s1)
            else
              (let res = lpi_call lpi (LpiAddRows naddrows (buf_lb b) (buf_ub b)
                            (buf_nnonz b) (buf_beg b) (buf_ind b) (buf_val b)) s1
               in if fst res \<noteq> SCIP_OKAY then res
                  else (SCIP_OKAY,
                        upd_lp (\<lambda>l. l\<lparr>lp_nlpirows := lp_nrows l,
                                         lp_lpifirstchgrow := lp_nrows l\<rparr>) (snd res)))))"

text \<open>
  The temporary arrays of \<open>lpFlushChgCols\<close> and \<open>lpFlushChgRows\<close>: the indices and the
  two bounds or sides; \<open>nchg\<close> is the number of entries written.
\<close>

record CHGBUF =
  chg_ind :: "int list"
  chg_lb :: "real list"
  chg_ub :: "real list"
  chg_nchg :: int

definition empty_chgbuf :: CHGBUF where
  "empty_chgbuf = \<lparr>chg_ind = [], chg_lb = [], chg_ub = [], chg_nchg = 0\<rparr>"

function lpFlushChgCols_loop :: "LPI \<Rightarrow> SET \<Rightarrow> int \<Rightarrow> CHGBUF \<Rightarrow> STATE \<Rightarrow> STATE \<times> CHGBUF" where
  "lpFlushChgCols_loop lpi st i b s =
     (if i < lp_nchgcols (h_lp s) then
        (let c = lp_chgcols (h_lp s) i;
             col = h_cols s c;
             var = col_var col
         in if col_lpipos col \<ge> 0 \<and> (col_lbchanged col \<or> col_ubchanged col) then
              lpFlushChgCols_loop lpi st (i + 1)
                (b\<lparr>chg_ind := chg_ind b @ [col_lpipos col],
                   chg_lb := chg_lb b @ [if SCIPsetIsInfinity st (- var_lb var)
                                         then - SCIPlpiInfinity lpi else var_lb var],
                   chg_ub := chg_ub b @ [if SCIPsetIsInfinity st (var_ub var)
                                         then SCIPlpiInfinity lpi else var_ub var],
                   chg_nchg := chg_nchg b + 1\<rparr>)
                (upd_col c (\<lambda>x. x\<lparr>col_lbchanged := False, col_ubchanged := False\<rparr>) s)
            else lpFlushChgCols_loop lpi st (i + 1) b s)
      else (s, b))"
  by pat_completeness auto
termination
  by (relation "measure (\<lambda>(lpi, st, i, b, s). nat (lp_nchgcols (h_lp s) - i))") auto

declare lpFlushChgCols_loop.simps [simp del]

text \<open>\<open>lpFlushChgCols\<close>: applies all cached column changes to the LP.\<close>

definition lpFlushChgCols :: "LPI \<Rightarrow> SET \<Rightarrow> STATE \<Rightarrow> RETCODE \<times> STATE" where
  "lpFlushChgCols lpi st s =
     (if lp_nchgcols (h_lp s) = 0 then (SCIP_OKAY, s)
      else
        (let (s1, b) = lpFlushChgCols_loop lpi st 0 empty_chgbuf s;
             res = (if chg_nchg b > 0 then
                      lpi_call lpi (LpiChgBounds (chg_nchg b) (chg_ind b) (chg_lb b) (chg_ub b)) s1
                    else (SCIP_OKAY, s1))
         in if fst res \<noteq> SCIP_OKAY then res
            else (SCIP_OKAY, upd_lp (\<lambda>l. l\<lparr>lp_nchgcols := 0\<rparr>) (snd res))))"

function lpFlushChgRows_loop :: "LPI \<Rightarrow> SET \<Rightarrow> int \<Rightarrow> CHGBUF \<Rightarrow> STATE \<Rightarrow> STATE \<times> CHGBUF" where
  "lpFlushChgRows_loop lpi st i b s =
     (if i < lp_nchgrows (h_lp s) then
        (let r = lp_chgrows (h_lp s) i;
             row = h_rows s r
         in if row_lpipos row \<ge> 0 \<and> (row_lhschanged row \<or> row_rhschanged row) then
              lpFlushChgRows_loop lpi st (i + 1)
                (b\<lparr>chg_ind := chg_ind b @ [row_lpipos row],
                   chg_lb := chg_lb b @ [if SCIPsetIsInfinity st (- row_lhs row)
                                         then - SCIPlpiInfinity lpi
                                         else row_lhs row + row_constant row],
                   chg_ub := chg_ub b @ [if SCIPsetIsInfinity st (row_rhs row)
                                         then SCIPlpiInfinity lpi
                                         else row_rhs row + row_constant row],
                   chg_nchg := chg_nchg b + 1\<rparr>)
                (upd_row r (\<lambda>x. x\<lparr>row_lhschanged := False, row_rhschanged := False\<rparr>) s)
            else lpFlushChgRows_loop lpi st (i + 1) b s)
      else (s, b))"
  by pat_completeness auto
termination
  by (relation "measure (\<lambda>(lpi, st, i, b, s). nat (lp_nchgrows (h_lp s) - i))") auto

declare lpFlushChgRows_loop.simps [simp del]

text \<open>\<open>lpFlushChgRows\<close>: applies all cached row changes to the LP.\<close>

definition lpFlushChgRows :: "LPI \<Rightarrow> SET \<Rightarrow> STATE \<Rightarrow> RETCODE \<times> STATE" where
  "lpFlushChgRows lpi st s =
     (if lp_nchgrows (h_lp s) = 0 then (SCIP_OKAY, s)
      else
        (let (s1, b) = lpFlushChgRows_loop lpi st 0 empty_chgbuf s;
             res = (if chg_nchg b > 0 then
                      lpi_call lpi (LpiChgSides (chg_nchg b) (chg_ind b) (chg_lb b) (chg_ub b)) s1
                    else (SCIP_OKAY, s1))
         in if fst res \<noteq> SCIP_OKAY then res
            else (SCIP_OKAY, upd_lp (\<lambda>l. l\<lparr>lp_nchgrows := 0\<rparr>) (snd res))))"

text \<open>
  \<open>CHECK_OKAY\<close> in sequence: \<open>check_okay res f\<close> returns the failed result \<open>res\<close>, or
  goes on with \<open>f\<close> from the state reached.
\<close>

definition check_okay ::
  "RETCODE \<times> STATE \<Rightarrow> (STATE \<Rightarrow> RETCODE \<times> STATE) \<Rightarrow> RETCODE \<times> STATE" where
  "check_okay res f = (if fst res \<noteq> SCIP_OKAY then res else f (snd res))"

text \<open>\<open>lpFlush\<close>: applies all cached changes to the LP solver.\<close>

definition lpFlush :: "LPI \<Rightarrow> SET \<Rightarrow> STATE \<Rightarrow> RETCODE \<times> STATE" where
  "lpFlush lpi st s =
     (if lp_flushed (h_lp s) then (SCIP_OKAY, s)
      else
        check_okay (lpFlushDelCols lpi s) (\<lambda>s1.
        check_okay (lpFlushDelRows lpi s1) (\<lambda>s2.
        check_okay (lpFlushChgCols lpi st s2) (\<lambda>s3.
        check_okay (lpFlushChgRows lpi st s3) (\<lambda>s4.
        check_okay (lpFlushAddCols lpi st s4) (\<lambda>s5.
        check_okay (lpFlushAddRows lpi st s5) (\<lambda>s6.
          (SCIP_OKAY, upd_lp (\<lambda>l. l\<lparr>lp_flushed := True\<rparr>) s6))))))))"

section \<open>Solving\<close>

text \<open>\<open>SCIPlpGetIterations\<close>: the number of iterations used in the last LP solve.\<close>

definition SCIPlpGetIterations :: "LPI \<Rightarrow> STATE \<Rightarrow> RETCODE \<times> STATE \<times> int" where
  "SCIPlpGetIterations lpi s =
     (let res1 = lpi_call lpi LpiGetIntpar s in
      if fst res1 \<noteq> SCIP_OKAY then (fst res1, snd res1, 0)
      else
        (let res2 = lpi_call lpi LpiGetIntpar (snd res1) in
         if fst res2 \<noteq> SCIP_OKAY then (fst res2, snd res2, 0)
         else (SCIP_OKAY, snd res2, lpi_iter1 lpi + lpi_iter2 lpi)))"

text \<open>\<open>SCIPlpSolvePrimal\<close>: solves the LP with the primal simplex algorithm.\<close>

definition SCIPlpSolvePrimal_finish :: "LPI \<Rightarrow> STATE \<Rightarrow> RETCODE \<times> STATE" where
  "SCIPlpSolvePrimal_finish lpi s =
     (let s1 = upd_lp (\<lambda>l. l\<lparr>lp_solved := True\<rparr>) s;
          s2 = s1\<lparr>h_stat := (h_stat s1)\<lparr>stat_nlp := stat_nlp (h_stat s1) + 1,
                     stat_nprimallp := stat_nprimallp (h_stat s1) + 1\<rparr>\<rparr>;
          (rc, s3, iterations) = SCIPlpGetIterations lpi s2
      in if rc \<noteq> SCIP_OKAY then (rc, s3)
         else (SCIP_OKAY,
               s3\<lparr>h_stat := (h_stat s3)\<lparr>
                     stat_nlpiterations := stat_nlpiterations (h_stat s3) + iterations,
                     stat_nprimallpiterations := stat_nprimallpiterations (h_stat s3) + iterations\<rparr>\<rparr>))"

definition SCIPlpSolvePrimal :: "LPI \<Rightarrow> SET \<Rightarrow> STATE \<Rightarrow> RETCODE \<times> STATE" where
  "SCIPlpSolvePrimal lpi st s =
     check_okay (lpFlush lpi st s) (\<lambda>s1.
     check_okay (lpi_call lpi LpiSolvePrimal s1) (\<lambda>s2.
     check_okay (lpi_call lpi LpiGetBasisFeasibility s2) (\<lambda>s3.
       (let s4 = upd_lp (\<lambda>l. l\<lparr>lp_primalfeasible := lpi_primalfeasible lpi,
                                 lp_dualfeasible := lpi_dualfeasible lpi\<rparr>) s3
        in if SCIPlpiIsOptimal lpi then
             check_okay
               (let res = lpi_call lpi LpiGetObjval
                            (upd_lp (\<lambda>l. l\<lparr>lp_lpsolstat := SCIP_LPSOLSTAT_OPTIMAL\<rparr>) s4)
                in if fst res \<noteq> SCIP_OKAY then res
                   else (SCIP_OKAY, upd_lp (\<lambda>l. l\<lparr>lp_objval := lpi_objval lpi\<rparr>) (snd res)))
               (SCIPlpSolvePrimal_finish lpi)
           else if SCIPlpiIsPrimalInfeasible lpi then
             SCIPlpSolvePrimal_finish lpi
               (upd_lp (\<lambda>l. l\<lparr>lp_lpsolstat := SCIP_LPSOLSTAT_INFEASIBLE,
                                lp_objval := set_infinity st\<rparr>) s4)
           else if SCIPlpiIsPrimalUnbounded lpi then
             SCIPlpSolvePrimal_finish lpi
               (upd_lp (\<lambda>l. l\<lparr>lp_lpsolstat := SCIP_LPSOLSTAT_UNBOUNDED,
                                lp_objval := - set_infinity st\<rparr>) s4)
           else if SCIPlpiIsIterlimExc lpi then
             SCIPlpSolvePrimal_finish lpi
               (upd_lp (\<lambda>l. l\<lparr>lp_lpsolstat := SCIP_LPSOLSTAT_ITERLIMIT,
                                lp_objval := - set_infinity st\<rparr>) s4)
           else if SCIPlpiIsTimelimExc lpi then
             SCIPlpSolvePrimal_finish lpi
               (upd_lp (\<lambda>l. l\<lparr>lp_lpsolstat := SCIP_LPSOLSTAT_TIMELIMIT,
                                lp_objval := - set_infinity st\<rparr>) s4)
           else if SCIPlpiIsObjlimExc lpi then
             (SCIP_LPERROR,
              upd_lp (\<lambda>l. l\<lparr>lp_lpsolstat := SCIP_LPSOLSTAT_ERROR,
                               lp_objval := - set_infinity st\<rparr>) s4)
           else
             (SCIP_LPERROR, upd_lp (\<lambda>l. l\<lparr>lp_lpsolstat := SCIP_LPSOLSTAT_ERROR\<rparr>) s4)))))"

section \<open>Column queries\<close>

text \<open>\<open>SCIPcolGetPrimsol\<close>: the primal LP solution of a column.\<close>

definition SCIPcolGetPrimsol :: "COL \<Rightarrow> real" where
  "SCIPcolGetPrimsol col = (if col_lppos col \<ge> 0 then col_primsol col else 0)"

section \<open>Linear constraints (cons_linear.c)\<close>

text \<open>
  The fields of a linear constraint that the activity bounds and the bound tightening
  use. A variable is an address into a store of variables; \<open>VAR\<close> holds the objective
  value and the current (local) bounds.
\<close>

type_synonym varptr = nat

datatype RESULT = SCIP_DIDNOTRUN | SCIP_DIDNOTFIND | SCIP_CUTOFF | SCIP_REDUCEDDOM

record LINCONS =
  lc_vars :: "int \<Rightarrow> varptr"
  lc_vals :: "int \<Rightarrow> real"
  lc_lhs :: real
  lc_rhs :: real
  lc_pseudoactivity :: real
  lc_minactivity :: real
  lc_maxactivity :: real
  lc_minactivityinf :: int
  lc_maxactivityinf :: int
  lc_nvars :: int
  lc_modifiable :: bool
  lc_validactivities :: bool

record CONSSTATE =
  cs_vars :: "varptr \<Rightarrow> VAR"
  cs_lincons :: LINCONS

text \<open>
  scip.c and var.c are not among the sources. The two functions that change a bound of
  a variable are taken as parameters, fields of the record that stands for \<open>SCIP*\<close>:
  they return a code and the state after the change, in which the bound may have been
  changed further (the source reads the bound again "because it may be additionally
  modified due to integrality") and the activities of the constraint may have been
  updated by the bound change event.
\<close>

record SCIP =
  scip_set :: SET
  SCIPchgVarLb :: "varptr \<Rightarrow> real \<Rightarrow> CONSSTATE \<Rightarrow> RETCODE \<times> CONSSTATE"
  SCIPchgVarUb :: "varptr \<Rightarrow> real \<Rightarrow> CONSSTATE \<Rightarrow> RETCODE \<times> CONSSTATE"

text \<open>
  Modelled from the spec: the remaining functions of scip.c and var.c that the modelled
  code calls. The numerical queries are those of the settings; the local bounds are the
  current bounds of the variable; the best bound of a variable is its lower bound if
  the objective coefficient is at least 0 and its upper bound otherwise.
\<close>

definition SCIPinfinity :: "SCIP \<Rightarrow> real" where
  "SCIPinfinity scip = set_infinity (scip_set scip)"

definition SCIPisInfinity :: "SCIP \<Rightarrow> real \<Rightarrow> bool" where
  "SCIPisInfinity scip x = SCIPsetIsInfinity (scip_set scip) x"

definition SCIPisSumLT :: "SCIP \<Rightarrow> real \<Rightarrow> real \<Rightarrow> bool" where
  "SCIPisSumLT scip x y = SCIPsetIsSumLT (scip_set scip) x y"

definition SCIPisSumGT :: "SCIP \<Rightarrow> real \<Rightarrow> real \<Rightarrow> bool" where
  "SCIPisSumGT scip x y = SCIPsetIsSumGT (scip_set scip) x y"

definition SCIPvarGetLbLocal :: "VAR \<Rightarrow> real" where
  "SCIPvarGetLbLocal var = var_lb var"

definition SCIPvarGetUbLocal :: "VAR \<Rightarrow> real" where
  "SCIPvarGetUbLocal var = var_ub var"

definition SCIPvarGetBestBoundType :: "VAR \<Rightarrow> BOUNDTYPE" where
  "SCIPvarGetBestBoundType var =
     (if var_obj var \<ge> 0 then SCIP_BOUNDTYPE_LOWER else SCIP_BOUNDTYPE_UPPER)"

text \<open>\<open>linconsUpdateChgLb\<close>: updates the activities for a change in a lower bound.\<close>

definition linconsUpdateChgLb :: "SCIP \<Rightarrow> VAR \<Rightarrow> real \<Rightarrow> real \<Rightarrow> real \<Rightarrow> LINCONS \<Rightarrow> LINCONS" where
  "linconsUpdateChgLb scip var oldlb newlb val lc =
     (if lc_validactivities lc then
        (let lc0 = (if SCIPvarGetBestBoundType var = SCIP_BOUNDTYPE_LOWER then
                      lc\<lparr>lc_pseudoactivity := lc_pseudoactivity lc + val * (newlb - oldlb)\<rparr>
                    else lc)
         in if val > 0 then
              (let lc1 = (if SCIPisInfinity scip (- oldlb) then
                            lc0\<lparr>lc_minactivityinf := lc_minactivityinf lc0 - 1\<rparr>
                          else lc0\<lparr>lc_minactivity := lc_minactivity lc0 - val * oldlb\<rparr>)
               in if SCIPisInfinity scip (- newlb) then
                    lc1\<lparr>lc_minactivityinf := lc_minactivityinf lc1 + 1\<rparr>
                  else lc1\<lparr>lc_minactivity := lc_minactivity lc1 + val * newlb\<rparr>)
            else
              (let lc1 = (if SCIPisInfinity scip (- oldlb) then
                            lc0\<lparr>lc_maxactivityinf := lc_maxactivityinf lc0 - 1\<rparr>
                          else lc0\<lparr>lc_maxactivity := lc_maxactivity lc0 - val * oldlb\<rparr>)
               in if SCIPisInfinity scip (- newlb) then
                    lc1\<lparr>lc_maxactivityinf := lc_maxactivityinf lc1 + 1\<rparr>
                  else lc1\<lparr>lc_maxactivity := lc_maxactivity lc1 + val * newlb\<rparr>))
      else lc)"

text \<open>\<open>linconsUpdateChgUb\<close>: updates the activities for a change in an upper bound.\<close>

definition linconsUpdateChgUb :: "SCIP \<Rightarrow> VAR \<Rightarrow> real \<Rightarrow> real \<Rightarrow> real \<Rightarrow> LINCONS \<Rightarrow> LINCONS" where
  "linconsUpdateChgUb scip var oldub newub val lc =
     (if lc_validactivities lc then
        (let lc0 = (if SCIPvarGetBestBoundType var = SCIP_BOUNDTYPE_UPPER then
                      lc\<lparr>lc_pseudoactivity := lc_pseudoactivity lc + val * (newub - oldub)\<rparr>
                    else lc)
         in if val > 0 then
              (let lc1 = (if SCIPisInfinity scip oldub then
                            lc0\<lparr>lc_maxactivityinf := lc_maxactivityinf lc0 - 1\<rparr>
                          else lc0\<lparr>lc_maxactivity := lc_maxactivity lc0 - val * oldub\<rparr>)
               in if SCIPisInfinity scip newub then
                    lc1\<lparr>lc_maxactivityinf := lc_maxactivityinf lc1 + 1\<rparr>
                  else lc1\<lparr>lc_maxactivity := lc_maxactivity lc1 + val * newub\<rparr>)
            else
              (let lc1 = (if SCIPisInfinity scip oldub then
                            lc0\<lparr>lc_minactivityinf := lc_minactivityinf lc0 - 1\<rparr>
                          else lc0\<lparr>lc_minactivity := lc_minactivity lc0 - val * oldub\<rparr>)
               in if SCIPisInfinity scip newub then
                    lc1\<lparr>lc_minactivityinf := lc_minactivityinf lc1 + 1\<rparr>
                  else lc1\<lparr>lc_minactivity := lc_minactivity lc1 + val * newub\<rparr>))
      else lc)"

text \<open>\<open>linconsUpdateAddCoef\<close>: updates the activities for a coefficient addition.\<close>

definition linconsUpdateAddCoef :: "SCIP \<Rightarrow> VAR \<Rightarrow> real \<Rightarrow> LINCONS \<Rightarrow> LINCONS" where
  "linconsUpdateAddCoef scip var val lc =
     (if lc_validactivities lc then
        linconsUpdateChgUb scip var 0 (SCIPvarGetUbLocal var) val
          (linconsUpdateChgLb scip var 0 (SCIPvarGetLbLocal var) val lc)
      else lc)"

lemma linconsUpdateAddCoef_nvars [simp]:
  "lc_nvars (linconsUpdateAddCoef scip var val lc) = lc_nvars lc"
  by (simp add: linconsUpdateAddCoef_def linconsUpdateChgLb_def linconsUpdateChgUb_def Let_def)

text \<open>\<open>linconsCalcActivities\<close>: calculates pseudo, minimum and maximum activity.\<close>

function linconsCalcActivities_loop :: "SCIP \<Rightarrow> (varptr \<Rightarrow> VAR) \<Rightarrow> int \<Rightarrow> LINCONS \<Rightarrow> LINCONS" where
  "linconsCalcActivities_loop scip vars i lc =
     (if i < lc_nvars lc then
        linconsCalcActivities_loop scip vars (i + 1)
          (linconsUpdateAddCoef scip (vars (lc_vars lc i)) (lc_vals lc i) lc)
      else lc)"
  by pat_completeness auto
termination
  by (relation "measure (\<lambda>(scip, vars, i, lc). nat (lc_nvars lc - i))") auto

declare linconsCalcActivities_loop.simps [simp del]

definition linconsCalcActivities :: "SCIP \<Rightarrow> CONSSTATE \<Rightarrow> CONSSTATE" where
  "linconsCalcActivities scip cs =
     cs\<lparr>cs_lincons := linconsCalcActivities_loop scip (cs_vars cs) 0
          ((cs_lincons cs)\<lparr>lc_validactivities := True, lc_pseudoactivity := 0,
             lc_minactivity := 0, lc_maxactivity := 0,
             lc_minactivityinf := 0, lc_maxactivityinf := 0\<rparr>)\<rparr>"

text \<open>
  \<open>linconsGetActivityResiduals\<close>: the activity bounds of the constraint after setting
  the variable \<open>v\<close> with coefficient \<open>val\<close> to zero.
\<close>

definition linconsGetActivityResiduals ::
  "SCIP \<Rightarrow> varptr \<Rightarrow> real \<Rightarrow> CONSSTATE \<Rightarrow> RETCODE \<times> CONSSTATE \<times> real \<times> real" where
  "linconsGetActivityResiduals scip v val cs =
     (let cs1 = (if \<not> lc_validactivities (cs_lincons cs) then linconsCalcActivities scip cs
                 else cs);
          lc = cs_lincons cs1;
          lb = SCIPvarGetLbLocal (cs_vars cs1 v);
          ub = SCIPvarGetUbLocal (cs_vars cs1 v)
      in if val > 0 then
           (let minresactivity =
                  (if SCIPisInfinity scip (- lb) then
                     (if lc_minactivityinf lc \<ge> 2 then - SCIPinfinity scip
                      else lc_minactivity lc)
                   else
                     (if lc_minactivityinf lc \<ge> 1 then - SCIPinfinity scip
                      else lc_minactivity lc - val * lb));
                maxresactivity =
                  (if SCIPisInfinity scip ub then
                     (if lc_maxactivityinf lc \<ge> 2 then SCIPinfinity scip
                      else lc_maxactivity lc)
                   else
                     (if lc_maxactivityinf lc \<ge> 1 then SCIPinfinity scip
                      else lc_maxactivity lc - val * ub))
            in (SCIP_OKAY, cs1, minresactivity, maxresactivity))
         else
           (let minresactivity =
                  (if SCIPisInfinity scip ub then
                     (if lc_minactivityinf lc \<ge> 2 then - SCIPinfinity scip
                      else lc_minactivity lc)
                   else
                     (if lc_minactivityinf lc \<ge> 1 then - SCIPinfinity scip
                      else lc_minactivity lc - val * ub));
                maxresactivity =
                  (if SCIPisInfinity scip (- lb) then
                     (if lc_maxactivityinf lc \<ge> 2 then SCIPinfinity scip
                      else lc_maxactivity lc)
                   else
                     (if lc_maxactivityinf lc \<ge> 1 then SCIPinfinity scip
                      else lc_maxactivity lc - val * lb))
            in (SCIP_OKAY, cs1, minresactivity, maxresactivity)))"

text \<open>
  The state of a call of \<open>linconsTightenVarBounds\<close>: the constraint and the variables,
  the locals \<open>lb\<close> and \<open>ub\<close>, the counter \<open>*nchgbds\<close>, the result \<open>*result\<close>, and the
  list of the bound changes requested so far with \<open>SCIPchgVarLb\<close> and \<open>SCIPchgVarUb\<close>
  (kind of bound, variable, new bound), which the model keeps to tell which changes a
  call applies.
\<close>

record TSTATE =
  ts_cs :: CONSSTATE
  ts_lb :: real
  ts_ub :: real
  ts_nchgbds :: int
  ts_result :: RESULT
  ts_applied :: "(BOUNDTYPE \<times> varptr \<times> real) list"

text \<open>
  The block "tighten upper bound" of \<open>linconsTightenVarBounds\<close> for the candidate
  \<open>newub\<close>, which the source has once for each sign of the coefficient. The first
  component is the code with which the function returns from inside the block, or
  \<open>None\<close> when the block is left at its end.
\<close>

definition tightenUb :: "SCIP \<Rightarrow> varptr \<Rightarrow> real \<Rightarrow> TSTATE \<Rightarrow> RETCODE option \<times> TSTATE" where
  "tightenUb scip v newub t =
     (if SCIPisSumLT scip newub (ts_ub t) then
        (if SCIPisSumLT scip newub (ts_lb t) then
           (Some SCIP_OKAY, t\<lparr>ts_result := SCIP_CUTOFF\<rparr>)
         else
           (let res = SCIPchgVarUb scip v newub (ts_cs t);
                t1 = t\<lparr>ts_cs := snd res,
                       ts_applied := ts_applied t @ [(SCIP_BOUNDTYPE_UPPER, v, newub)]\<rparr>
            in if fst res \<noteq> SCIP_OKAY then (Some (fst res), t1)
               else (None, t1\<lparr>ts_ub := SCIPvarGetUbLocal (cs_vars (ts_cs t1) v),
                              ts_nchgbds := ts_nchgbds t1 + 1,
                              ts_result := SCIP_REDUCEDDOM\<rparr>)))
      else (None, t))"

text \<open>The block "tighten lower bound" for the candidate \<open>newlb\<close>.\<close>

definition tightenLb :: "SCIP \<Rightarrow> varptr \<Rightarrow> real \<Rightarrow> TSTATE \<Rightarrow> RETCODE option \<times> TSTATE" where
  "tightenLb scip v newlb t =
     (if SCIPisSumGT scip newlb (ts_lb t) then
        (if SCIPisSumGT scip newlb (ts_ub t) then
           (Some SCIP_OKAY, t\<lparr>ts_result := SCIP_CUTOFF\<rparr>)
         else
           (let res = SCIPchgVarLb scip v newlb (ts_cs t);
                t1 = t\<lparr>ts_cs := snd res,
                       ts_applied := ts_applied t @ [(SCIP_BOUNDTYPE_LOWER, v, newlb)]\<rparr>
            in if fst res \<noteq> SCIP_OKAY then (Some (fst res), t1)
               else (None, t1\<lparr>ts_lb := SCIPvarGetLbLocal (cs_vars (ts_cs t1) v),
                              ts_nchgbds := ts_nchgbds t1 + 1,
                              ts_result := SCIP_REDUCEDDOM\<rparr>)))
      else (None, t))"

text \<open>
  \<open>linconsTightenVarBounds\<close>: tightens the bounds of a single variable due to the
  activity bounds. \<open>nchgbds\<close> and \<open>result\<close> are the values behind the two pointers at
  the call.
\<close>

definition linconsTightenVarBounds ::
  "SCIP \<Rightarrow> varptr \<Rightarrow> real \<Rightarrow> int \<Rightarrow> RESULT \<Rightarrow> CONSSTATE \<Rightarrow> RETCODE \<times> TSTATE" where
  "linconsTightenVarBounds scip v val nchgbds result cs =
     (let lhs = lc_lhs (cs_lincons cs);
          rhs = lc_rhs (cs_lincons cs);
          (rc, cs1, minresactivity, maxresactivity) = linconsGetActivityResiduals scip v val cs;
          t = \<lparr>ts_cs = cs1, ts_lb = SCIPvarGetLbLocal (cs_vars cs1 v),
               ts_ub = SCIPvarGetUbLocal (cs_vars cs1 v), ts_nchgbds = nchgbds,
               ts_result = result, ts_applied = []\<rparr>
      in if rc \<noteq> SCIP_OKAY then (rc, t)
         else if val > 0 then
           (case (if \<not> SCIPisInfinity scip (- minresactivity) \<and> \<not> SCIPisInfinity scip rhs
                  then tightenUb scip v ((rhs - minresactivity) / val) t else (None, t)) of
              (Some rc1, t1) \<Rightarrow> (rc1, t1)
            | (None, t1) \<Rightarrow>
                (case (if \<not> SCIPisInfinity scip maxresactivity \<and> \<not> SCIPisInfinity scip (- lhs)
                       then tightenLb scip v ((lhs - maxresactivity) / val) t1 else (None, t1)) of
                   (Some rc2, t2) \<Rightarrow> (rc2, t2)
                 | (None, t2) \<Rightarrow> (SCIP_OKAY, t2)))
         else
           (case (if \<not> SCIPisInfinity scip (- minresactivity) \<and> \<not> SCIPisInfinity scip rhs
                  then tightenLb scip v ((rhs - minresactivity) / val) t else (None, t)) of
              (Some rc1, t1) \<Rightarrow> (rc1, t1)
            | (None, t1) \<Rightarrow>
                (case (if \<not> SCIPisInfinity scip maxresactivity \<and> \<not> SCIPisInfinity scip (- lhs)
                       then tightenUb scip v ((lhs - maxresactivity) / val) t1 else (None, t1)) of
                   (Some rc2, t2) \<Rightarrow> (rc2, t2)
                 | (None, t2) \<Rightarrow> (SCIP_OKAY, t2))))"

section \<open>Example data\<close>

text \<open>
  Settings with the usual comparisons up to tolerance: infinity is \<open>10^20\<close>, epsilon
  \<open>10^-9\<close> and the tolerance for sums \<open>10^-6\<close>.
\<close>

definition std_set :: SET where
  "std_set = \<lparr>set_infinity = 10 ^ 20,
     SCIPsetIsInfinity = (\<lambda>x. x \<ge> 10 ^ 20),
     SCIPsetIsZero = (\<lambda>x. \<bar>x\<bar> \<le> 1 / 10 ^ 9),
     SCIPsetIsEQ = (\<lambda>x y. \<bar>x - y\<bar> \<le> 1 / 10 ^ 9),
     SCIPsetIsGT = (\<lambda>x y. x - y > 1 / 10 ^ 9),
     SCIPsetIsGE = (\<lambda>x y. x - y \<ge> - (1 / 10 ^ 9)),
     SCIPsetIsSumLT = (\<lambda>x y. x - y < - (1 / 10 ^ 6)),
     SCIPsetIsSumGT = (\<lambda>x y. x - y > 1 / 10 ^ 6)\<rparr>"

definition zero_var :: VAR where
  "zero_var = \<lparr>var_obj = 0, var_lb = 0, var_ub = 0\<rparr>"

definition empty_col :: COL where
  "empty_col = \<lparr>col_var = zero_var,
      col_rows = (\<lambda>_. 0), col_vals = (\<lambda>_. 0), col_linkpos = (\<lambda>_. - 1),
      col_index = 0, col_len = 0, col_nunlinked = 0, col_lppos = - 1, col_lpipos = - 1,
      col_primsol = 0, col_redcost = 0, col_farkas = 0, col_strongdown = 0,
      col_strongup = 0, col_validredcostlp = - 1, col_validfarkaslp = - 1,
      col_strongitlim = - 1, col_sorted = True, col_lbchanged = False,
      col_ubchanged = False, col_coefchanged = False\<rparr>"

definition empty_row :: ROW where
  "empty_row = \<lparr>row_cols = (\<lambda>_. 0), row_vals = (\<lambda>_. 0), row_linkpos = (\<lambda>_. - 1),
      row_constant = 0, row_lhs = 0, row_rhs = 0, row_sqrnorm = 0, row_maxval = 0,
      row_dualsol = 0, row_activity = 0, row_dualfarkas = 0, row_pseudoactivity = 0,
      row_minactivity = 0, row_maxactivity = 0, row_minactivityinf = - 1,
      row_maxactivityinf = - 1, row_index = 0, row_len = 0, row_nunlinked = 0,
      row_nuses = 1, row_lppos = - 1, row_lpipos = - 1, row_minidx = 0, row_maxidx = 0,
      row_nummaxval = 0, row_validactivitylp = - 1, row_sorted = True,
      row_validpsactivity = False, row_validactivitybds = False,
      row_validminmaxidx = False, row_lhschanged = False, row_rhschanged = False,
      row_coefchanged = False, row_local = False, row_modifiable = False, row_nlocks = 0\<rparr>"

definition empty_lp :: LP where
  "empty_lp = \<lparr>lp_cols = (\<lambda>_. 0), lp_rows = (\<lambda>_. 0), lp_lpicols = (\<lambda>_. 0),
      lp_lpirows = (\<lambda>_. 0), lp_chgcols = (\<lambda>_. 0), lp_chgrows = (\<lambda>_. 0),
      lp_ncols = 0, lp_nrows = 0, lp_nlpicols = 0, lp_nlpirows = 0, lp_nchgcols = 0,
      lp_nchgrows = 0, lp_lpifirstchgcol = 0, lp_lpifirstchgrow = 0, lp_firstnewcol = 0,
      lp_firstnewrow = 0, lp_objval = 0, lp_lpsolstat = SCIP_LPSOLSTAT_OPTIMAL,
      lp_flushed = True, lp_solved = True, lp_primalfeasible = True,
      lp_dualfeasible = True, lp_lpicalls = []\<rparr>"

definition empty_state :: STATE where
  "empty_state = \<lparr>h_rows = (\<lambda>_. empty_row), h_cols = (\<lambda>_. empty_col), h_lp = empty_lp,
      h_stat = \<lparr>stat_ncolidx = 0, stat_nrowidx = 0, stat_nlp = 0, stat_nprimallp = 0,
                 stat_nlpiterations = 0, stat_nprimallpiterations = 0\<rparr>\<rparr>"

text \<open>
  A row at address 1 and a column at address 5 that hold one common coefficient 2 and
  are linked with each other at position 0.
\<close>

definition linked_state :: STATE where
  "linked_state = empty_state\<lparr>
     h_rows := (\<lambda>_. empty_row)(1 := empty_row\<lparr>row_cols := (\<lambda>_. 5), row_vals := (\<lambda>_. 2),
                   row_linkpos := (\<lambda>_. 0), row_len := 1, row_nunlinked := 0\<rparr>),
     h_cols := (\<lambda>_. empty_col)(5 := empty_col\<lparr>col_rows := (\<lambda>_. 1), col_vals := (\<lambda>_. 2),
                   col_linkpos := (\<lambda>_. 0), col_len := 1, col_nunlinked := 0\<rparr>)\<rparr>"

text \<open>The same state with the row locked once.\<close>

definition locked_state :: STATE where
  "locked_state = upd_row 1 (\<lambda>row. row\<lparr>row_nlocks := 1\<rparr>) linked_state"

section \<open>Verified properties\<close>

text \<open>
  A row seen together with the bounds of its columns: \<open>rb_lb e i\<close> and \<open>rb_ub e i\<close> are
  the current lower and upper bound of the column at position \<open>i\<close> of the row (in the
  source \<open>row->cols[i]->var->dom.lb\<close> and \<open>dom.ub\<close>).
\<close>

record ROWBOUNDS =
  rb_row :: ROW
  rb_lb :: "int \<Rightarrow> real"
  rb_ub :: "int \<Rightarrow> real"

text \<open>
  The number of terms of the row whose bound contributes an infinite value to the
  minimum (maximum) activity, counted directly over the positions \<open>0 .. len - 1\<close>.
\<close>

definition min_infinite_term :: "SET \<Rightarrow> ROW \<Rightarrow> (int \<Rightarrow> real) \<Rightarrow> (int \<Rightarrow> real) \<Rightarrow> int \<Rightarrow> bool" where
  "min_infinite_term st row lb ub i =
     (if row_vals row i > 0 then SCIPsetIsInfinity st (- lb i) else SCIPsetIsInfinity st (ub i))"

definition max_infinite_term :: "SET \<Rightarrow> ROW \<Rightarrow> (int \<Rightarrow> real) \<Rightarrow> (int \<Rightarrow> real) \<Rightarrow> int \<Rightarrow> bool" where
  "max_infinite_term st row lb ub i =
     (if row_vals row i > 0 then SCIPsetIsInfinity st (ub i) else SCIPsetIsInfinity st (- lb i))"

definition min_infinite_terms :: "SET \<Rightarrow> ROW \<Rightarrow> (int \<Rightarrow> real) \<Rightarrow> (int \<Rightarrow> real) \<Rightarrow> int" where
  "min_infinite_terms st row lb ub =
     int (length (filter (min_infinite_term st row lb ub) [0..row_len row - 1]))"

definition max_infinite_terms :: "SET \<Rightarrow> ROW \<Rightarrow> (int \<Rightarrow> real) \<Rightarrow> (int \<Rightarrow> real) \<Rightarrow> int" where
  "max_infinite_terms st row lb ub =
     int (length (filter (max_infinite_term st row lb ub) [0..row_len row - 1]))"

definition counters_exact :: "SET \<Rightarrow> ROWBOUNDS \<Rightarrow> bool" where
  "counters_exact st e \<longleftrightarrow>
     row_minactivityinf (rb_row e) = min_infinite_terms st (rb_row e) (rb_lb e) (rb_ub e)
     \<and> row_maxactivityinf (rb_row e) = max_infinite_terms st (rb_row e) (rb_lb e) (rb_ub e)"

text \<open>
  Modelled from the spec: var.c, which changes the bound of a variable and starts the
  update, is not among the sources. A bound change of the column at position \<open>pos\<close> of
  the row stores the new bound and reaches the row through the incremental routine
  \<open>rowUpdateActivityBoundsLb\<close> or \<open>rowUpdateActivityBoundsUb\<close> (called by
  \<open>SCIPcolBoundChanged\<close> with the position of the column in the row), with the bound held
  before as old bound.
\<close>

datatype BOUNDCHG = BoundChg BOUNDTYPE int real

fun bound_update :: "SET \<Rightarrow> BOUNDCHG \<Rightarrow> ROWBOUNDS \<Rightarrow> ROWBOUNDS" where
  "bound_update st (BoundChg SCIP_BOUNDTYPE_LOWER pos newlb) e =
     e\<lparr>rb_row := rowUpdateActivityBoundsLb st pos (rb_lb e pos) newlb (rb_row e),
       rb_lb := (rb_lb e)(pos := newlb)\<rparr>"
| "bound_update st (BoundChg SCIP_BOUNDTYPE_UPPER pos newub) e =
     e\<lparr>rb_row := rowUpdateActivityBoundsUb st pos (rb_ub e pos) newub (rb_row e),
       rb_ub := (rb_ub e)(pos := newub)\<rparr>"

fun bound_updates :: "SET \<Rightarrow> BOUNDCHG list \<Rightarrow> ROWBOUNDS \<Rightarrow> ROWBOUNDS" where
  "bound_updates st [] e = e"
| "bound_updates st (x # xs) e = bound_updates st xs (bound_update st x e)"

text \<open>The position of a bound change lies in the row.\<close>

fun bound_chg_in_row :: "ROW \<Rightarrow> BOUNDCHG \<Rightarrow> bool" where
  "bound_chg_in_row row (BoundChg bt pos newbound) = (0 \<le> pos \<and> pos < row_len row)"

lemma filter_length_change:
  assumes "distinct xs" "p \<in> set xs" "\<forall>i. i \<noteq> p \<longrightarrow> Q i = P i"
  shows "int (length (filter Q xs))
    = int (length (filter P xs)) - (if P p then 1 else 0) + (if Q p then 1 else 0)"
  using assms
proof (induction xs)
  case Nil
  then show ?case by simp
next
  case (Cons x xs)
  show ?case
  proof (cases "x = p")
    case True
    then have "p \<notin> set xs" using Cons.prems(1) by simp
    then have "filter Q xs = filter P xs"
      using Cons.prems(3) by (intro filter_cong) auto
    then show ?thesis using True by simp
  next
    case False
    then have "p \<in> set xs" using Cons.prems(2) by simp
    then show ?thesis using Cons False by (auto split: if_splits)
  qed
qed

lemma rowUpdateActivityBoundsLb_frame [simp]:
  "row_vals (rowUpdateActivityBoundsLb st pos oldlb newlb row) = row_vals row"
  "row_validactivitybds (rowUpdateActivityBoundsLb st pos oldlb newlb row)
     = row_validactivitybds row"
  by (simp_all add: rowUpdateActivityBoundsLb_def Let_def)

lemma rowUpdateActivityBoundsUb_frame [simp]:
  "row_vals (rowUpdateActivityBoundsUb st pos oldub newub row) = row_vals row"
  "row_validactivitybds (rowUpdateActivityBoundsUb st pos oldub newub row)
     = row_validactivitybds row"
  by (simp_all add: rowUpdateActivityBoundsUb_def Let_def)

lemma infinite_term_cong:
  "row_vals row' = row_vals row \<Longrightarrow>
     min_infinite_term st row' lb ub = min_infinite_term st row lb ub
     \<and> max_infinite_term st row' lb ub = max_infinite_term st row lb ub"
  by (auto simp: min_infinite_term_def max_infinite_term_def fun_eq_iff)

lemma bound_update_counters:
  assumes v: "row_validactivitybds (rb_row e)" and c: "counters_exact st e"
    and p: "bound_chg_in_row (rb_row e) x"
  shows "counters_exact st (bound_update st x e)"
proof -
  obtain bt pos nb where x: "x = BoundChg bt pos nb" by (cases x)
  let ?row = "rb_row e"
  let ?xs = "[0..row_len ?row - 1]"
  have d: "distinct ?xs" by simp
  have m: "pos \<in> set ?xs" using p x by simp
  show ?thesis
  proof (cases bt)
    case SCIP_BOUNDTYPE_LOWER
    let ?lb' = "(rb_lb e)(pos := nb)"
    let ?row' = "rowUpdateActivityBoundsLb st pos (rb_lb e pos) nb ?row"
    have t: "min_infinite_term st ?row' = min_infinite_term st ?row"
      "max_infinite_term st ?row' = max_infinite_term st ?row"
      using infinite_term_cong [of ?row' ?row st] by (simp_all add: fun_eq_iff)
    have mn: "int (length (filter (min_infinite_term st ?row ?lb' (rb_ub e)) ?xs))
        = int (length (filter (min_infinite_term st ?row (rb_lb e) (rb_ub e)) ?xs))
          - (if min_infinite_term st ?row (rb_lb e) (rb_ub e) pos then 1 else 0)
          + (if min_infinite_term st ?row ?lb' (rb_ub e) pos then 1 else 0)"
      by (rule filter_length_change [OF d m]) (simp add: min_infinite_term_def)
    have mx: "int (length (filter (max_infinite_term st ?row ?lb' (rb_ub e)) ?xs))
        = int (length (filter (max_infinite_term st ?row (rb_lb e) (rb_ub e)) ?xs))
          - (if max_infinite_term st ?row (rb_lb e) (rb_ub e) pos then 1 else 0)
          + (if max_infinite_term st ?row ?lb' (rb_ub e) pos then 1 else 0)"
      by (rule filter_length_change [OF d m]) (simp add: max_infinite_term_def)
    show ?thesis
      using v c mn mx
      unfolding x SCIP_BOUNDTYPE_LOWER counters_exact_def min_infinite_terms_def
        max_infinite_terms_def
      by (simp add: t)
         (simp add: rowUpdateActivityBoundsLb_def Let_def min_infinite_term_def
            max_infinite_term_def)
  next
    case SCIP_BOUNDTYPE_UPPER
    let ?ub' = "(rb_ub e)(pos := nb)"
    let ?row' = "rowUpdateActivityBoundsUb st pos (rb_ub e pos) nb ?row"
    have t: "min_infinite_term st ?row' = min_infinite_term st ?row"
      "max_infinite_term st ?row' = max_infinite_term st ?row"
      using infinite_term_cong [of ?row' ?row st] by (simp_all add: fun_eq_iff)
    have mn: "int (length (filter (min_infinite_term st ?row (rb_lb e) ?ub') ?xs))
        = int (length (filter (min_infinite_term st ?row (rb_lb e) (rb_ub e)) ?xs))
          - (if min_infinite_term st ?row (rb_lb e) (rb_ub e) pos then 1 else 0)
          + (if min_infinite_term st ?row (rb_lb e) ?ub' pos then 1 else 0)"
      by (rule filter_length_change [OF d m]) (simp add: min_infinite_term_def)
    have mx: "int (length (filter (max_infinite_term st ?row (rb_lb e) ?ub') ?xs))
        = int (length (filter (max_infinite_term st ?row (rb_lb e) (rb_ub e)) ?xs))
          - (if max_infinite_term st ?row (rb_lb e) (rb_ub e) pos then 1 else 0)
          + (if max_infinite_term st ?row (rb_lb e) ?ub' pos then 1 else 0)"
      by (rule filter_length_change [OF d m]) (simp add: max_infinite_term_def)
    show ?thesis
      using v c mn mx
      unfolding x SCIP_BOUNDTYPE_UPPER counters_exact_def min_infinite_terms_def
        max_infinite_terms_def
      by (simp add: t)
         (simp add: rowUpdateActivityBoundsUb_def Let_def min_infinite_term_def
            max_infinite_term_def)
  qed
qed


lemma bound_update_frame:
  "row_len (rb_row (bound_update st x e)) = row_len (rb_row e)"
  "row_validactivitybds (rb_row (bound_update st x e)) = row_validactivitybds (rb_row e)"
proof -
  obtain bt pos nb where x: "x = BoundChg bt pos nb" by (cases x)
  show "row_len (rb_row (bound_update st x e)) = row_len (rb_row e)"
    "row_validactivitybds (rb_row (bound_update st x e)) = row_validactivitybds (rb_row e)"
    unfolding x by (cases bt; simp)+
qed

lemma bound_chg_in_row_len:
  "row_len row' = row_len row \<Longrightarrow> bound_chg_in_row row' x = bound_chg_in_row row x"
  by (cases x) simp

lemma bound_updates_counters:
  assumes "row_validactivitybds (rb_row e)" "counters_exact st e"
    "\<forall>x \<in> set xs. bound_chg_in_row (rb_row e) x"
  shows "counters_exact st (bound_updates st xs e)
    \<and> row_validactivitybds (rb_row (bound_updates st xs e))
    \<and> row_len (rb_row (bound_updates st xs e)) = row_len (rb_row e)"
  using assms
proof (induction xs arbitrary: e)
  case Nil
  then show ?case by simp
next
  case (Cons x xs)
  have 1: "row_validactivitybds (rb_row (bound_update st x e))"
    using Cons.prems(1) by (simp add: bound_update_frame)
  have 2: "counters_exact st (bound_update st x e)"
    using Cons.prems by (intro bound_update_counters) simp_all
  have 3: "\<forall>y \<in> set xs. bound_chg_in_row (rb_row (bound_update st x e)) y"
    using Cons.prems(3) bound_chg_in_row_len [OF bound_update_frame(1) [of st x e]] by simp
  show ?case
    using Cons.IH [OF 1 2 3] by (simp add: bound_update_frame)
qed

lemma infinite_terms_nonneg:
  "0 \<le> min_infinite_terms st row lb ub" "0 \<le> max_infinite_terms st row lb ub"
  by (simp_all add: min_infinite_terms_def max_infinite_terms_def)

text \<open>
  Claim C1. Take a row with a valid activity-bound cache whose two counters of infinite
  contributions are exact for the current bounds of its columns. After any sequence of
  lower and upper bound changes of columns of the row, each applied through the
  incremental routine \<open>rowUpdateActivityBoundsLb\<close> or \<open>rowUpdateActivityBoundsUb\<close>, the
  cache is still valid, \<open>minactivityinf\<close> (\<open>maxactivityinf\<close>) equals the number of terms
  whose current bound contributes an infinite value to the minimum (maximum) activity,
  both counters are nonnegative, and \<open>SCIProwGetActivityBounds\<close> succeeds without
  changing the state and reports minus (plus) infinity if the counter is greater than
  zero and the cached accumulator otherwise.
\<close>

theorem C1_infinite_counters:
  assumes "row_validactivitybds (rb_row e)" and "counters_exact st e"
    and "\<forall>x \<in> set xs. bound_chg_in_row (rb_row e) x"
    and "h_rows s r = rb_row (bound_updates st xs e)"
  shows "counters_exact st (bound_updates st xs e)
    \<and> row_validactivitybds (h_rows s r)
    \<and> 0 \<le> row_minactivityinf (h_rows s r) \<and> 0 \<le> row_maxactivityinf (h_rows s r)
    \<and> SCIProwGetActivityBounds st r s =
        (SCIP_OKAY, s,
         Some (if row_minactivityinf (h_rows s r) > 0 then - set_infinity st
               else row_minactivity (h_rows s r),
               if row_maxactivityinf (h_rows s r) > 0 then set_infinity st
               else row_maxactivity (h_rows s r)))"
proof -
  note u = bound_updates_counters [OF assms(1-3)]
  have v: "row_validactivitybds (h_rows s r)"
    using u assms(4) by simp
  have n: "0 \<le> row_minactivityinf (h_rows s r)" "0 \<le> row_maxactivityinf (h_rows s r)"
    using u assms(4) infinite_terms_nonneg by (simp_all add: counters_exact_def)
  show ?thesis
    using u v n by (simp add: SCIProwGetActivityBounds_def Let_def)
qed

text \<open>The row at address \<open>r\<close> with the bounds of its columns as the store holds them.\<close>

definition row_bounds :: "STATE \<Rightarrow> rowptr \<Rightarrow> ROWBOUNDS" where
  "row_bounds s r =
     \<lparr>rb_row = h_rows s r,
      rb_lb = (\<lambda>i. var_lb (col_var (h_cols s (row_cols (h_rows s r) i)))),
      rb_ub = (\<lambda>i. var_ub (col_var (h_cols s (row_cols (h_rows s r) i))))\<rparr>"

lemma rowUpdateActivityBounds_cols [simp]:
  "row_cols (rowUpdateActivityBoundsLb st pos oldlb newlb row) = row_cols row"
  "row_cols (rowUpdateActivityBoundsUb st pos oldub newub row) = row_cols row"
  by (simp_all add: rowUpdateActivityBoundsLb_def rowUpdateActivityBoundsUb_def Let_def)

lemma rowCalcActivityBounds_loop_counters:
  assumes "\<not> SCIPsetIsInfinity st 0" "row_validactivitybds (h_rows s r)"
    "0 \<le> i" "i \<le> row_len (h_rows s r)"
    "row_minactivityinf (h_rows s r)
       = int (length (filter (min_infinite_term st (h_rows s r) (rb_lb (row_bounds s r))
                               (rb_ub (row_bounds s r))) [0..i - 1]))"
    "row_maxactivityinf (h_rows s r)
       = int (length (filter (max_infinite_term st (h_rows s r) (rb_lb (row_bounds s r))
                               (rb_ub (row_bounds s r))) [0..i - 1]))"
  shows "counters_exact st (row_bounds (rowCalcActivityBounds_loop st r i s) r)
    \<and> row_validactivitybds (h_rows (rowCalcActivityBounds_loop st r i s) r)"
  using assms
proof (induction st r i s rule: rowCalcActivityBounds_loop.induct)
  case (1 st r i s)
  show ?case
  proof (cases "i < row_len (h_rows s r)")
    case False
    then have "i = row_len (h_rows s r)" using "1.prems"(4) by simp
    then show ?thesis
      using "1.prems" False
      by (subst (1 2) rowCalcActivityBounds_loop.simps)
         (simp add: counters_exact_def min_infinite_terms_def max_infinite_terms_def
            row_bounds_def)
  next
    case True
    define s1 where "s1 = upd_row r (rowUpdateActivityBoundsLb st i 0
        (var_lb (col_var (h_cols s (row_cols (h_rows s r) i))))) s"
    define s2 where "s2 = upd_row r (rowUpdateActivityBoundsUb st i 0
        (var_ub (col_var (h_cols s1 (row_cols (h_rows s1 r) i))))) s1"
    have u: "[0..i + 1 - 1] = [0..i - 1] @ [i]"
      using "1.prems"(3) upto_rec2 [of 0 i] by simp
    have b: "rb_lb (row_bounds s2 r) = rb_lb (row_bounds s r)"
      "rb_ub (row_bounds s2 r) = rb_ub (row_bounds s r)"
      by (simp_all add: row_bounds_def s2_def s1_def)
    have t: "min_infinite_term st (h_rows s2 r) = min_infinite_term st (h_rows s r)"
      "max_infinite_term st (h_rows s2 r) = max_infinite_term st (h_rows s r)"
      using infinite_term_cong [of "h_rows s2 r" "h_rows s r" st]
      by (simp_all add: fun_eq_iff s2_def s1_def)
    have v: "row_validactivitybds (h_rows s2 r)"
      using "1.prems"(2) by (simp add: s2_def s1_def)
    have l: "i + 1 \<le> row_len (h_rows s2 r)" "0 \<le> i + 1"
      using True "1.prems"(3) by (simp_all add: s2_def s1_def)
    have c: "row_minactivityinf (h_rows s2 r) = row_minactivityinf (h_rows s r)
        + (if min_infinite_term st (h_rows s r) (rb_lb (row_bounds s r)) (rb_ub (row_bounds s r)) i
           then 1 else 0)"
      "row_maxactivityinf (h_rows s2 r) = row_maxactivityinf (h_rows s r)
        + (if max_infinite_term st (h_rows s r) (rb_lb (row_bounds s r)) (rb_ub (row_bounds s r)) i
           then 1 else 0)"
      using "1.prems"(1,2)
      by (simp_all add: s2_def s1_def rowUpdateActivityBoundsLb_def
            rowUpdateActivityBoundsUb_def Let_def min_infinite_term_def
            max_infinite_term_def row_bounds_def)
    have mn: "row_minactivityinf (h_rows s2 r)
       = int (length (filter (min_infinite_term st (h_rows s2 r) (rb_lb (row_bounds s2 r))
                               (rb_ub (row_bounds s2 r))) [0..i + 1 - 1]))"
      unfolding t b u c using "1.prems"(5) by simp
    have mx: "row_maxactivityinf (h_rows s2 r)
       = int (length (filter (max_infinite_term st (h_rows s2 r) (rb_lb (row_bounds s2 r))
                               (rb_ub (row_bounds s2 r))) [0..i + 1 - 1]))"
      unfolding t b u c using "1.prems"(6) by simp
    have "counters_exact st (row_bounds (rowCalcActivityBounds_loop st r (i + 1) s2) r)
      \<and> row_validactivitybds (h_rows (rowCalcActivityBounds_loop st r (i + 1) s2) r)"
      using "1.IH" [OF True s1_def s2_def "1.prems"(1) v l(2) l(1) mn mx] .
    then show ?thesis
      using True
      by (subst (1 2) rowCalcActivityBounds_loop.simps) (simp add: Let_def s1_def s2_def)
  qed
qed

lemma rowLink_loop_row:
  "row_len (h_rows (snd (rowLink_loop r i s)) r') = row_len (h_rows s r')
   \<and> row_vals (h_rows (snd (rowLink_loop r i s)) r') = row_vals (h_rows s r')"
proof (induction r i s rule: rowLink_loop.induct)
  case (1 r i s)
  show ?case
    apply (subst (1 2) rowLink_loop.simps)
    using "1.IH"(1) [OF _ _ refl] "1.IH"(2)
    by (auto simp: Let_def colAddCoeff_def coefChanged_def)
qed

text \<open>
  \<open>rowCalcActivityBounds\<close> makes the cache valid with exact counters, provided zero is
  not infinite for the settings (the routine adds every term as a change from bound 0).
\<close>

lemma rowCalcActivityBounds_counters:
  assumes "\<not> SCIPsetIsInfinity st 0" "0 \<le> row_len (h_rows s r)"
    "fst (rowCalcActivityBounds st r s) = SCIP_OKAY"
  shows "counters_exact st (row_bounds (snd (rowCalcActivityBounds st r s)) r)
    \<and> row_validactivitybds (h_rows (snd (rowCalcActivityBounds st r s)) r)"
proof -
  define s1 where "s1 = upd_row r (\<lambda>row. row\<lparr>row_validactivitybds := True,
      row_minactivity := row_constant row, row_maxactivity := row_constant row,
      row_minactivityinf := 0, row_maxactivityinf := 0\<rparr>) (snd (rowLink r s))"
  have len: "row_len (h_rows (snd (rowLink r s)) r) = row_len (h_rows s r)"
    using rowLink_loop_row [of r 0 s r] by (simp add: rowLink_def)
  have "counters_exact st (row_bounds (rowCalcActivityBounds_loop st r 0 s1) r)
    \<and> row_validactivitybds (h_rows (rowCalcActivityBounds_loop st r 0 s1) r)"
    using assms(1,2) len
    by (intro rowCalcActivityBounds_loop_counters) (simp_all add: s1_def)
  then show ?thesis
    using assms(3) by (auto simp: rowCalcActivityBounds_def Let_def s1_def split: if_splits)
qed

text \<open>
  The row \<open>2 x - y\<close> with \<open>x\<close> in \<open>(-\<infinity>, 5]\<close> and \<open>y\<close> in \<open>[0, 10]\<close>: one infinite
  contribution to the minimum activity, none to the maximum activity; the finite parts
  are \<open>-10\<close> and \<open>10\<close>.
\<close>

definition two_term_bounds :: ROWBOUNDS where
  "two_term_bounds =
     \<lparr>rb_row = empty_row\<lparr>row_cols := (\<lambda>_. 5)(1 := 6), row_vals := (\<lambda>_. 2)(1 := - 1),
                 row_linkpos := (\<lambda>_. 0), row_len := 2, row_validactivitybds := True,
                 row_minactivity := - 10, row_maxactivity := 10,
                 row_minactivityinf := 1, row_maxactivityinf := 0\<rparr>,
      rb_lb = (\<lambda>_. - (10 ^ 20))(1 := 0),
      rb_ub = (\<lambda>_. 5)(1 := 10)\<rparr>"

text \<open>
  Three bound changes: the lower bound of \<open>x\<close> becomes 0, the upper bound of \<open>y\<close>
  becomes infinite, the lower bound of \<open>x\<close> becomes infinite again.
\<close>

definition three_changes :: "BOUNDCHG list" where
  "three_changes =
     [BoundChg SCIP_BOUNDTYPE_LOWER 0 0, BoundChg SCIP_BOUNDTYPE_UPPER 1 (10 ^ 20),
      BoundChg SCIP_BOUNDTYPE_LOWER 0 (- (10 ^ 20))]"

definition two_term_state :: STATE where
  "two_term_state =
     upd_row 1 (\<lambda>_. rb_row (bound_updates std_set three_changes two_term_bounds)) empty_state"

lemma upto_0_1: "[0..(1::int)] = [0, 1]"
  by (simp add: upto.simps)

theorem C1_infinite_counters_witness:
  "row_validactivitybds (rb_row two_term_bounds)
   \<and> counters_exact std_set two_term_bounds
   \<and> min_infinite_terms std_set (rb_row (bound_updates std_set three_changes two_term_bounds))
        (rb_lb (bound_updates std_set three_changes two_term_bounds))
        (rb_ub (bound_updates std_set three_changes two_term_bounds)) = 2
   \<and> row_minactivityinf (h_rows two_term_state 1) = 2
   \<and> row_maxactivityinf (h_rows two_term_state 1) = 0
   \<and> SCIProwGetActivityBounds std_set 1 two_term_state
       = (SCIP_OKAY, two_term_state, Some (- (10 ^ 20), 10))"
proof -
  have v: "row_validactivitybds (rb_row two_term_bounds)"
    by (simp add: two_term_bounds_def)
  have c: "counters_exact std_set two_term_bounds"
    by (simp add: counters_exact_def min_infinite_terms_def max_infinite_terms_def
          min_infinite_term_def max_infinite_term_def two_term_bounds_def std_set_def
          upto_0_1)
  have p: "\<forall>x \<in> set three_changes. bound_chg_in_row (rb_row two_term_bounds) x"
    by (simp add: three_changes_def two_term_bounds_def)
  have h: "h_rows two_term_state 1 = rb_row (bound_updates std_set three_changes two_term_bounds)"
    by (simp add: two_term_state_def)
  have m: "row_minactivityinf (rb_row (bound_updates std_set three_changes two_term_bounds)) = 2"
    "row_maxactivityinf (rb_row (bound_updates std_set three_changes two_term_bounds)) = 0"
    "row_minactivity (rb_row (bound_updates std_set three_changes two_term_bounds)) = 0"
    "row_maxactivity (rb_row (bound_updates std_set three_changes two_term_bounds)) = 10"
    by (simp_all add: three_changes_def two_term_bounds_def rowUpdateActivityBoundsLb_def
          rowUpdateActivityBoundsUb_def Let_def std_set_def)
  show ?thesis
    using v c m h C1_infinite_counters [OF v c p h]
    by (simp add: counters_exact_def std_set_def)
qed

text \<open>
  The bound of a variable that enters the minimum (maximum) activity of a row in which
  it has the coefficient \<open>val\<close>, and whether that bound is infinite.
\<close>

definition min_bound :: "VAR \<Rightarrow> real \<Rightarrow> real" where
  "min_bound var val = (if val > 0 then SCIPvarGetLb var else SCIPvarGetUb var)"

definition max_bound :: "VAR \<Rightarrow> real \<Rightarrow> real" where
  "max_bound var val = (if val > 0 then SCIPvarGetUb var else SCIPvarGetLb var)"

definition min_bound_infinite :: "SET \<Rightarrow> VAR \<Rightarrow> real \<Rightarrow> bool" where
  "min_bound_infinite st var val =
     (if val > 0 then SCIPsetIsInfinity st (- SCIPvarGetLb var)
      else SCIPsetIsInfinity st (SCIPvarGetUb var))"

definition max_bound_infinite :: "SET \<Rightarrow> VAR \<Rightarrow> real \<Rightarrow> bool" where
  "max_bound_infinite st var val =
     (if val > 0 then SCIPsetIsInfinity st (SCIPvarGetUb var)
      else SCIPsetIsInfinity st (- SCIPvarGetLb var))"

text \<open>
  Claim C4. For a row with a valid activity-bound cache, \<open>SCIProwGetActivityResiduals\<close>
  returns for a variable with coefficient \<open>val\<close>: when the bound of the variable that
  enters the minimum activity (the lower bound for a positive coefficient, the upper
  bound otherwise) is infinite, the cached accumulator if the counter of infinite
  contributions is 1 and minus infinity if it is at least 2; when that bound is finite,
  the accumulator minus coefficient times bound if the counter is 0 and minus infinity
  if it is at least 1. The same holds for the maximum activity with plus infinity.
  The call succeeds and leaves the state as it is.
\<close>

theorem C4_activity_residuals:
  assumes "row_validactivitybds (h_rows s r)"
  shows "\<exists>minres maxres.
    SCIProwGetActivityResiduals st r var val s = (SCIP_OKAY, s, minres, maxres) \<and>
    (min_bound_infinite st var val \<and> row_minactivityinf (h_rows s r) = 1
       \<longrightarrow> minres = row_minactivity (h_rows s r)) \<and>
    (min_bound_infinite st var val \<and> row_minactivityinf (h_rows s r) \<ge> 2
       \<longrightarrow> minres = - set_infinity st) \<and>
    (\<not> min_bound_infinite st var val \<and> row_minactivityinf (h_rows s r) = 0
       \<longrightarrow> minres = row_minactivity (h_rows s r) - val * min_bound var val) \<and>
    (\<not> min_bound_infinite st var val \<and> row_minactivityinf (h_rows s r) \<ge> 1
       \<longrightarrow> minres = - set_infinity st) \<and>
    (max_bound_infinite st var val \<and> row_maxactivityinf (h_rows s r) = 1
       \<longrightarrow> maxres = row_maxactivity (h_rows s r)) \<and>
    (max_bound_infinite st var val \<and> row_maxactivityinf (h_rows s r) \<ge> 2
       \<longrightarrow> maxres = set_infinity st) \<and>
    (\<not> max_bound_infinite st var val \<and> row_maxactivityinf (h_rows s r) = 0
       \<longrightarrow> maxres = row_maxactivity (h_rows s r) - val * max_bound var val) \<and>
    (\<not> max_bound_infinite st var val \<and> row_maxactivityinf (h_rows s r) \<ge> 1
       \<longrightarrow> maxres = set_infinity st)"
  using assms
  by (simp add: SCIProwGetActivityResiduals_def Let_def min_bound_def max_bound_def
        min_bound_infinite_def max_bound_infinite_def)

text \<open>
  A row with coefficient 2 for a variable with bounds \<open>(-\<infinity>, 8]\<close>, cached accumulators
  3 and 19, one infinite contribution to the minimum and none to the maximum.
\<close>

definition residual_state :: STATE where
  "residual_state = upd_row 1 (\<lambda>row. row\<lparr>row_validactivitybds := True,
      row_minactivity := 3, row_maxactivity := 19, row_minactivityinf := 1,
      row_maxactivityinf := 0\<rparr>) linked_state"

theorem C4_activity_residuals_witness:
  "row_validactivitybds (h_rows residual_state 1) \<and>
   SCIProwGetActivityResiduals std_set 1 \<lparr>var_obj = 0, var_lb = - (10 ^ 20), var_ub = 8\<rparr> 2
     residual_state = (SCIP_OKAY, residual_state, 3, 3)"
proof -
  have v: "row_validactivitybds (h_rows residual_state 1)"
    by (simp add: residual_state_def)
  have "min_bound_infinite std_set \<lparr>var_obj = 0, var_lb = - (10 ^ 20), var_ub = 8\<rparr> 2"
    by (simp add: min_bound_infinite_def std_set_def SCIPvarGetLb_def)
  moreover have "\<not> max_bound_infinite std_set \<lparr>var_obj = 0, var_lb = - (10 ^ 20), var_ub = 8\<rparr> 2"
    by (simp add: max_bound_infinite_def std_set_def SCIPvarGetUb_def)
  moreover have "row_minactivityinf (h_rows residual_state 1) = 1"
    "row_maxactivityinf (h_rows residual_state 1) = 0"
    "row_minactivity (h_rows residual_state 1) = 3"
    "row_maxactivity (h_rows residual_state 1) = 19"
    by (simp_all add: residual_state_def)
  moreover have "max_bound \<lparr>var_obj = 0, var_lb = - (10 ^ 20), var_ub = 8\<rparr> 2 = 8"
    by (simp add: max_bound_def SCIPvarGetUb_def)
  ultimately show ?thesis
    using v C4_activity_residuals [OF v, of std_set "\<lparr>var_obj = 0, var_lb = - (10 ^ 20), var_ub = 8\<rparr>" 2]
    by auto
qed

text \<open>
  Claim C6, as amended. For every row with \<open>nlocks > 0\<close>, adding a coefficient
  (\<open>rowAddCoeff\<close>, \<open>SCIProwAddCoeff\<close>), deleting the coefficient at a position
  (\<open>rowDelCoeffPos\<close>) and changing the coefficient at a position (\<open>rowChgCoeffPos\<close>)
  fail with \<open>SCIP_INVALIDDATA\<close> and leave the whole state, and so the coefficient
  vector and the sides of the row, unchanged. The lock is not consulted when a side is
  changed: \<open>SCIProwChgLhs\<close> and \<open>SCIProwChgRhs\<close> succeed on a locked row and store the
  new side whenever it differs from the old one by the comparison \<open>SCIPsetIsEQ\<close>.
\<close>

theorem C6_locked_row:
  assumes "row_nlocks (h_rows s r) > 0"
  shows "rowAddCoeff st r c val linkpos colpos s = (SCIP_INVALIDDATA, s)
    \<and> SCIProwAddCoeff st r c val s = (SCIP_INVALIDDATA, s)
    \<and> rowDelCoeffPos st r pos s = (SCIP_INVALIDDATA, s)
    \<and> rowChgCoeffPos st r pos val s = (SCIP_INVALIDDATA, s)
    \<and> fst (SCIProwChgLhs st r lhs s) = SCIP_OKAY
    \<and> row_lhs (h_rows (snd (SCIProwChgLhs st r lhs s)) r)
        = (if SCIPsetIsEQ st (row_lhs (h_rows s r)) lhs then row_lhs (h_rows s r) else lhs)
    \<and> fst (SCIProwChgRhs st r rhs s) = SCIP_OKAY
    \<and> row_rhs (h_rows (snd (SCIProwChgRhs st r rhs s)) r)
        = (if SCIPsetIsEQ st (row_rhs (h_rows s r)) rhs then row_rhs (h_rows s r) else rhs)"
  using assms
  by (simp add: rowAddCoeff_def SCIProwAddCoeff_def rowDelCoeffPos_def rowChgCoeffPos_def
        SCIProwChgLhs_def SCIProwChgRhs_def rowSideChanged_def Let_def
      split: SIDETYPE.splits)

theorem C6_locked_row_witness:
  "row_nlocks (h_rows locked_state 1) > 0
   \<and> rowAddCoeff std_set 1 7 3 (- 1) NULLREF locked_state = (SCIP_INVALIDDATA, locked_state)
   \<and> rowDelCoeffPos std_set 1 0 locked_state = (SCIP_INVALIDDATA, locked_state)
   \<and> rowChgCoeffPos std_set 1 0 3 locked_state = (SCIP_INVALIDDATA, locked_state)
   \<and> row_lhs (h_rows (snd (SCIProwChgLhs std_set 1 1 locked_state)) 1) = 1"
proof -
  have l: "row_nlocks (h_rows locked_state 1) > 0"
    by (simp add: locked_state_def)
  have e: "\<not> SCIPsetIsEQ std_set (row_lhs (h_rows locked_state 1)) 1"
    by (simp add: locked_state_def linked_state_def empty_row_def std_set_def)
  show ?thesis
    using l e C6_locked_row [OF l, of std_set 7 3 "- 1" NULLREF 0 1 0]
    by simp
qed

text \<open>
  The claim as stated fails for the sides: on the row of \<open>locked_state\<close>, locked once
  and with left-hand side 0, \<open>SCIProwChgLhs\<close> with the new side 1 does not fail and
  the left-hand side becomes 1.
\<close>

theorem C6_locked_side_counterexample:
  "row_nlocks (h_rows locked_state 1) = 1
   \<and> row_lhs (h_rows locked_state 1) = 0
   \<and> fst (SCIProwChgLhs std_set 1 1 locked_state) = SCIP_OKAY
   \<and> fst (SCIProwChgLhs std_set 1 1 locked_state) \<noteq> SCIP_INVALIDDATA
   \<and> row_lhs (h_rows (snd (SCIProwChgLhs std_set 1 1 locked_state)) 1) = 1
   \<and> row_lhs (h_rows (snd (SCIProwChgLhs std_set 1 1 locked_state)) 1)
       \<noteq> row_lhs (h_rows locked_state 1)"
  by (simp add: SCIProwChgLhs_def rowSideChanged_def Let_def locked_state_def
        linked_state_def empty_state_def empty_row_def std_set_def)

text \<open>
  Claim C8 (the code breaks it for rows): \<open>rowUnlink\<close> on the linked row of
  \<open>linked_state\<close> returns \<open>SCIP_OKAY\<close>, removes the entry from the column and counts
  the entry as unlinked, but the link position of the row keeps the old position 0
  instead of the sentinel -1. \<open>colUnlink\<close> on the column of the same state does set
  the link position to -1.
\<close>

theorem C8_rowUnlink_keeps_linkpos:
  "fst (rowUnlink 1 linked_state) = SCIP_OKAY
   \<and> col_len (h_cols (snd (rowUnlink 1 linked_state)) 5) = 0
   \<and> row_len (h_rows (snd (rowUnlink 1 linked_state)) 1) = 1
   \<and> row_nunlinked (h_rows (snd (rowUnlink 1 linked_state)) 1) = 1
   \<and> row_linkpos (h_rows (snd (rowUnlink 1 linked_state)) 1) 0 = 0
   \<and> fst (colUnlink std_set 5 linked_state) = SCIP_OKAY
   \<and> row_len (h_rows (snd (colUnlink std_set 5 linked_state)) 1) = 0
   \<and> col_len (h_cols (snd (colUnlink std_set 5 linked_state)) 5) = 1
   \<and> col_nunlinked (h_cols (snd (colUnlink std_set 5 linked_state)) 5) = 1
   \<and> col_linkpos (h_cols (snd (colUnlink std_set 5 linked_state)) 5) 0 = - 1"
  by (simp add: rowUnlink_def rowUnlink_loop.simps colDelCoeffPos_def
        colUnlink_def colUnlink_loop.simps rowDelCoeffPos_def rowDelNorms_def
        SCIProwInvalidActivityBounds_def coefChanged_def Let_def
        linked_state_def empty_state_def empty_row_def empty_col_def)

text \<open>
  Claim C9 (the code breaks it): \<open>SCIPcolCreate\<close> for a new column at address 2 with
  one entry for the row at address 1, in \<open>linked_state\<close>, with 7 as the content of the
  fresh link-position array. The loop that should set the link positions of the new
  column writes to the link-position array of the first row instead: the entry of the
  new column keeps the content 7 of the fresh memory, and the row loses its link to the
  column at address 5.
\<close>

theorem C9_SCIPcolCreate_writes_row:
  "fst (SCIPcolCreate 2 (\<lambda>_. 7) zero_var 1 (\<lambda>_. 1) (\<lambda>_. 3) linked_state) = SCIP_OKAY
   \<and> col_len (h_cols (snd (SCIPcolCreate 2 (\<lambda>_. 7) zero_var 1 (\<lambda>_. 1) (\<lambda>_. 3) linked_state)) 2) = 1
   \<and> col_nunlinked (h_cols (snd (SCIPcolCreate 2 (\<lambda>_. 7) zero_var 1 (\<lambda>_. 1) (\<lambda>_. 3) linked_state)) 2) = 1
   \<and> col_linkpos (h_cols (snd (SCIPcolCreate 2 (\<lambda>_. 7) zero_var 1 (\<lambda>_. 1) (\<lambda>_. 3) linked_state)) 2) 0 = 7
   \<and> row_linkpos (h_rows linked_state 1) 0 = 0
   \<and> row_linkpos (h_rows (snd (SCIPcolCreate 2 (\<lambda>_. 7) zero_var 1 (\<lambda>_. 1) (\<lambda>_. 3) linked_state)) 1) 0 = - 1"
  by (simp add: SCIPcolCreate_def Let_def SCIPcolCreate_linkpos_loop.simps
        SCIPcolCreate_sorted_loop.simps linked_state_def empty_state_def empty_row_def
        empty_col_def)

text \<open>The LP state (unflushed, unsolved) with solution status NOTSOLVED.\<close>

definition unflushed_unsolved :: "LP \<Rightarrow> bool" where
  "unflushed_unsolved lp \<longleftrightarrow>
     \<not> lp_flushed lp \<and> \<not> lp_solved lp \<and> lp_lpsolstat lp = SCIP_LPSOLSTAT_NOTSOLVED"

text \<open>
  The structural mutations of the LP: adding and removing columns and rows, announcing
  a bound or side change, changing a side, and adding, deleting or changing a
  coefficient from the row side or from the column side.
\<close>

datatype MUTATION =
    AddCol colptr
  | AddRow rowptr
  | ShrinkCols int
  | ShrinkRows int
  | ColBoundChanged colptr BOUNDTYPE real real
  | RowSideChanged rowptr SIDETYPE
  | RowChgLhs rowptr real
  | RowChgRhs rowptr real
  | RowAddCoeff rowptr colptr real
  | RowDelCoeffPos rowptr int
  | RowChgCoeffPos rowptr int real
  | ColAddCoeff colptr rowptr real
  | ColDelCoeffPos colptr int
  | ColChgCoeffPos colptr int real

fun mutate :: "SET \<Rightarrow> MUTATION \<Rightarrow> STATE \<Rightarrow> RETCODE \<times> STATE" where
  "mutate st (AddCol c) s = SCIPlpAddCol c s"
| "mutate st (AddRow r) s = SCIPlpAddRow r s"
| "mutate st (ShrinkCols n) s = SCIPlpShrinkCols n s"
| "mutate st (ShrinkRows n) s = SCIPlpShrinkRows n s"
| "mutate st (ColBoundChanged c bt oldb newb) s = SCIPcolBoundChanged st c bt oldb newb s"
| "mutate st (RowSideChanged r side) s = rowSideChanged r side s"
| "mutate st (RowChgLhs r lhs) s = SCIProwChgLhs st r lhs s"
| "mutate st (RowChgRhs r rhs) s = SCIProwChgRhs st r rhs s"
| "mutate st (RowAddCoeff r c val) s = rowAddCoeff st r c val (- 1) NULLREF s"
| "mutate st (RowDelCoeffPos r pos) s = rowDelCoeffPos st r pos s"
| "mutate st (RowChgCoeffPos r pos val) s = rowChgCoeffPos st r pos val s"
| "mutate st (ColAddCoeff c r val) s = colAddCoeff c r val (- 1) NULLREF s"
| "mutate st (ColDelCoeffPos c pos) s = colDelCoeffPos c pos s"
| "mutate st (ColChgCoeffPos c pos val) s = colChgCoeffPos st c pos val s"

text \<open>
  When a mutation changes the LP as the solver knows it: a column or row is added, at
  least one column or row is removed, the column whose bound changed is resident
  (\<open>lpipos \<ge> 0\<close>), the row whose side changed is resident (and the new side differs),
  or the coefficient belongs to a row and a column that are both resident (and the row
  is not locked, and for a change the new value differs).
\<close>

fun resident_mutation :: "SET \<Rightarrow> MUTATION \<Rightarrow> STATE \<Rightarrow> bool" where
  "resident_mutation st (AddCol c) s = True"
| "resident_mutation st (AddRow r) s = True"
| "resident_mutation st (ShrinkCols n) s = (n < lp_ncols (h_lp s))"
| "resident_mutation st (ShrinkRows n) s = (n < lp_nrows (h_lp s))"
| "resident_mutation st (ColBoundChanged c bt oldb newb) s = (col_lpipos (h_cols s c) \<ge> 0)"
| "resident_mutation st (RowSideChanged r side) s = (row_lpipos (h_rows s r) \<ge> 0)"
| "resident_mutation st (RowChgLhs r lhs) s =
     (row_lpipos (h_rows s r) \<ge> 0 \<and> \<not> SCIPsetIsEQ st (row_lhs (h_rows s r)) lhs)"
| "resident_mutation st (RowChgRhs r rhs) s =
     (row_lpipos (h_rows s r) \<ge> 0 \<and> \<not> SCIPsetIsEQ st (row_rhs (h_rows s r)) rhs)"
| "resident_mutation st (RowAddCoeff r c val) s =
     (row_lpipos (h_rows s r) \<ge> 0 \<and> col_lpipos (h_cols s c) \<ge> 0 \<and> row_nlocks (h_rows s r) \<le> 0)"
| "resident_mutation st (RowDelCoeffPos r pos) s =
     (row_lpipos (h_rows s r) \<ge> 0 \<and> col_lpipos (h_cols s (row_cols (h_rows s r) pos)) \<ge> 0
      \<and> row_nlocks (h_rows s r) \<le> 0)"
| "resident_mutation st (RowChgCoeffPos r pos val) s =
     (row_lpipos (h_rows s r) \<ge> 0 \<and> col_lpipos (h_cols s (row_cols (h_rows s r) pos)) \<ge> 0
      \<and> row_nlocks (h_rows s r) \<le> 0
      \<and> (SCIPsetIsZero st val \<or> \<not> SCIPsetIsEQ st (row_vals (h_rows s r) pos) val))"
| "resident_mutation st (ColAddCoeff c r val) s =
     (row_lpipos (h_rows s r) \<ge> 0 \<and> col_lpipos (h_cols s c) \<ge> 0)"
| "resident_mutation st (ColDelCoeffPos c pos) s =
     (row_lpipos (h_rows s (col_rows (h_cols s c) pos)) \<ge> 0 \<and> col_lpipos (h_cols s c) \<ge> 0)"
| "resident_mutation st (ColChgCoeffPos c pos val) s =
     (row_lpipos (h_rows s (col_rows (h_cols s c) pos)) \<ge> 0 \<and> col_lpipos (h_cols s c) \<ge> 0
      \<and> (SCIPsetIsZero st val \<or> \<not> SCIPsetIsEQ st (col_vals (h_cols s c) pos) val))"

lemma coefChanged_unflushed:
  "row_lpipos (h_rows s r) \<ge> 0 \<Longrightarrow> col_lpipos (h_cols s c) \<ge> 0
     \<Longrightarrow> unflushed_unsolved (h_lp (coefChanged r c s))"
  by (simp add: coefChanged_def Let_def unflushed_unsolved_def)

lemma rowUnlink_loop_okay: "fst (rowUnlink_loop r i s) = SCIP_OKAY"
proof (induction r i s rule: rowUnlink_loop.induct)
  case (1 r i s)
  show ?case
    apply (subst rowUnlink_loop.simps)
    using "1.IH"(1) [OF _ _ refl] "1.IH"(2)
    by (auto simp: Let_def colDelCoeffPos_def)
qed

lemma SCIProwRelease_okay: "fst (SCIProwRelease idx s) = SCIP_OKAY"
  by (simp add: SCIProwRelease_def SCIProwFree_def rowUnlink_def rowUnlink_loop_okay Let_def)

lemma SCIPlpShrinkRows_loop_okay: "fst (SCIPlpShrinkRows_loop r s) = SCIP_OKAY"
proof (induction r s rule: SCIPlpShrinkRows_loop.induct)
  case (1 r s)
  show ?case
    apply (subst SCIPlpShrinkRows_loop.simps)
    using "1.IH" [OF _ refl refl] SCIProwRelease_okay
    by (auto simp: Let_def)
qed

lemma SCIPcolBoundChanged_loop_lp [simp]:
  "h_lp (SCIPcolBoundChanged_loop f c i s) = h_lp s"
proof (induction f c i s rule: SCIPcolBoundChanged_loop.induct)
  case (1 f c r s)
  show ?case
    apply (subst SCIPcolBoundChanged_loop.simps)
    using "1.IH" by auto
qed

lemma rowDelNorms_lpipos [simp]: "row_lpipos (rowDelNorms st idx val row) = row_lpipos row"
  by (simp add: rowDelNorms_def Let_def)

lemma rowAddNorms_lpipos [simp]: "row_lpipos (rowAddNorms st idx val row) = row_lpipos row"
  by (simp add: rowAddNorms_def Let_def)

lemma rowDelNorms_cols [simp]: "row_cols (rowDelNorms st idx val row) = row_cols row"
  by (simp add: rowDelNorms_def Let_def)

lemma rowAddNorms_cols [simp]: "row_cols (rowAddNorms st idx val row) = row_cols row"
  by (simp add: rowAddNorms_def Let_def)

lemma SCIProwInvalidActivityBounds_lpipos [simp]:
  "row_lpipos (SCIProwInvalidActivityBounds row) = row_lpipos row"
  by (simp add: SCIProwInvalidActivityBounds_def)

lemma rowDelCoeffPos_unflushed:
  assumes "row_lpipos (h_rows s r) \<ge> 0" "col_lpipos (h_cols s (row_cols (h_rows s r) pos)) \<ge> 0"
    "row_nlocks (h_rows s r) \<le> 0"
  shows "fst (rowDelCoeffPos st r pos s) = SCIP_OKAY
    \<and> unflushed_unsolved (h_lp (snd (rowDelCoeffPos st r pos s)))"
  using assms
  by (auto simp: rowDelCoeffPos_def Let_def intro!: coefChanged_unflushed)

lemma colDelCoeffPos_unflushed:
  assumes "row_lpipos (h_rows s (col_rows (h_cols s c) pos)) \<ge> 0" "col_lpipos (h_cols s c) \<ge> 0"
  shows "fst (colDelCoeffPos c pos s) = SCIP_OKAY
    \<and> unflushed_unsolved (h_lp (snd (colDelCoeffPos c pos s)))"
  using assms
  by (auto simp: colDelCoeffPos_def Let_def intro!: coefChanged_unflushed)

text \<open>
  When a mutation changes a coefficient of a column that is not resident in the solver
  (\<open>lpipos < 0\<close>): the coefficient is added, deleted or changed from the row side or
  from the column side, and the column is the one given or the one at the given
  position of the row.
\<close>

fun nonresident_column_mutation :: "MUTATION \<Rightarrow> STATE \<Rightarrow> bool" where
  "nonresident_column_mutation (RowAddCoeff r c val) s = (col_lpipos (h_cols s c) < 0)"
| "nonresident_column_mutation (RowDelCoeffPos r pos) s =
     (col_lpipos (h_cols s (row_cols (h_rows s r) pos)) < 0)"
| "nonresident_column_mutation (RowChgCoeffPos r pos val) s =
     (col_lpipos (h_cols s (row_cols (h_rows s r) pos)) < 0)"
| "nonresident_column_mutation (ColAddCoeff c r val) s = (col_lpipos (h_cols s c) < 0)"
| "nonresident_column_mutation (ColDelCoeffPos c pos) s = (col_lpipos (h_cols s c) < 0)"
| "nonresident_column_mutation (ColChgCoeffPos c pos val) s = (col_lpipos (h_cols s c) < 0)"
| "nonresident_column_mutation m s = False"

lemma coefChanged_nonresident_column:
  "col_lpipos (h_cols s c) < 0 \<Longrightarrow> coefChanged r c s = s"
  by (simp add: coefChanged_def Let_def)

lemma store_ref_col_lpipos [simp]:
  "col_lpipos (h_cols (store_ref p v s) c) = col_lpipos (h_cols s c)"
  by (cases p) simp_all

lemma colDelCoeffPos_nonresident:
  "col_lpipos (h_cols s c) < 0 \<Longrightarrow> h_lp (snd (colDelCoeffPos c pos s)) = h_lp s"
  by (auto simp: colDelCoeffPos_def Let_def coefChanged_nonresident_column)

lemma colDelCoeffPos_col_lpipos:
  "col_lpipos (h_cols s c) < 0 \<Longrightarrow>
   col_lpipos (h_cols (snd (colDelCoeffPos c pos s)) c') = col_lpipos (h_cols s c')"
  by (auto simp: colDelCoeffPos_def Let_def coefChanged_nonresident_column)

lemma rowDelCoeffPos_nonresident:
  assumes "col_lpipos (h_cols s (row_cols (h_rows s r) pos)) < 0"
  shows "h_lp (snd (rowDelCoeffPos st r pos s)) = h_lp s"
proof -
  define c where "c = row_cols (h_rows s r) pos"
  have c: "col_lpipos (h_cols s c) < 0"
    using assms by (simp add: c_def)
  have x: "h_lp (coefChanged r c x) = h_lp x" if "col_lpipos (h_cols x c) = col_lpipos (h_cols s c)" for x
    using that c by (simp add: coefChanged_nonresident_column)
  show ?thesis
    unfolding rowDelCoeffPos_def Let_def c_def [symmetric]
    using c by (auto simp: x colDelCoeffPos_nonresident colDelCoeffPos_col_lpipos)
qed

lemma mutate_nonresident_column:
  assumes "nonresident_column_mutation m s"
  shows "h_lp (snd (mutate st m s)) = h_lp s"
proof (cases m)
  case (RowAddCoeff r c val)
  then show ?thesis using assms
    by (auto simp: rowAddCoeff_def Let_def coefChanged_nonresident_column)
next
  case (RowDelCoeffPos r pos)
  then show ?thesis using assms by (simp add: rowDelCoeffPos_nonresident)
next
  case (RowChgCoeffPos r pos val)
  then show ?thesis using assms
    by (auto simp: rowChgCoeffPos_def Let_def rowDelCoeffPos_nonresident
          coefChanged_nonresident_column)
next
  case (ColAddCoeff c r val)
  then show ?thesis using assms
    by (auto simp: colAddCoeff_def Let_def coefChanged_nonresident_column)
next
  case (ColDelCoeffPos c pos)
  then show ?thesis using assms by (simp add: colDelCoeffPos_nonresident)
next
  case (ColChgCoeffPos c pos val)
  then show ?thesis using assms
    by (auto simp: colChgCoeffPos_def Let_def colDelCoeffPos_nonresident
          coefChanged_nonresident_column)
qed (insert assms, simp_all)

lemma mutate_resident:
  assumes "resident_mutation st m s"
  shows "fst (mutate st m s) = SCIP_OKAY \<and> unflushed_unsolved (h_lp (snd (mutate st m s)))"
proof (cases m)
  case (AddCol c)
  then show ?thesis by (simp add: SCIPlpAddCol_def Let_def unflushed_unsolved_def)
next
  case (AddRow r)
  then show ?thesis by (simp add: SCIPlpAddRow_def Let_def unflushed_unsolved_def)
next
  case (ShrinkCols n)
  then show ?thesis using assms
    by (simp add: SCIPlpShrinkCols_def Let_def unflushed_unsolved_def)
next
  case (ShrinkRows n)
  then show ?thesis using assms SCIPlpShrinkRows_loop_okay [of n s]
    by (simp add: SCIPlpShrinkRows_def Let_def unflushed_unsolved_def)
next
  case (ColBoundChanged c bt oldb newb)
  then show ?thesis using assms
    by (simp add: SCIPcolBoundChanged_def Let_def unflushed_unsolved_def
          split: BOUNDTYPE.splits)
next
  case (RowSideChanged r side)
  then show ?thesis using assms
    by (simp add: rowSideChanged_def Let_def unflushed_unsolved_def split: SIDETYPE.splits)
next
  case (RowChgLhs r lhs)
  then show ?thesis using assms
    by (simp add: SCIProwChgLhs_def rowSideChanged_def Let_def unflushed_unsolved_def)
next
  case (RowChgRhs r rhs)
  then show ?thesis using assms
    by (simp add: SCIProwChgRhs_def rowSideChanged_def Let_def unflushed_unsolved_def)
next
  case (RowAddCoeff r c val)
  then show ?thesis using assms
    by (auto simp: rowAddCoeff_def Let_def intro!: coefChanged_unflushed)
next
  case (RowDelCoeffPos r pos)
  then show ?thesis using assms rowDelCoeffPos_unflushed [of s r pos st] by simp
next
  case (RowChgCoeffPos r pos val)
  then show ?thesis using assms rowDelCoeffPos_unflushed [of s r pos st]
    by (auto simp: rowChgCoeffPos_def Let_def unflushed_unsolved_def coefChanged_def)
next
  case (ColAddCoeff c r val)
  then show ?thesis using assms
    by (auto simp: colAddCoeff_def Let_def intro!: coefChanged_unflushed)
next
  case (ColDelCoeffPos c pos)
  then show ?thesis using assms colDelCoeffPos_unflushed [of s c pos] by simp
next
  case (ColChgCoeffPos c pos val)
  then show ?thesis using assms colDelCoeffPos_unflushed [of s c pos]
    by (auto simp: colChgCoeffPos_def Let_def intro!: coefChanged_unflushed)
qed

text \<open>
  Claim C3, as amended. Every structural mutation that reaches the solver's LP (adding a
  column or row, removing at least one column or row, a bound change of a resident
  column, a side change of a resident row, a change of a coefficient whose row and
  column are both resident) succeeds and leaves the LP unflushed and unsolved with
  solution status NOTSOLVED. Every change of a coefficient whose column is not resident
  in the solver, also on a resident row, leaves the whole LP data as it is, and so the
  two flags and the solution status.
\<close>

theorem C3_mutation_unflushes:
  "(resident_mutation st m s \<longrightarrow>
      fst (mutate st m s) = SCIP_OKAY \<and> unflushed_unsolved (h_lp (snd (mutate st m s))))
   \<and> (nonresident_column_mutation m s \<longrightarrow> h_lp (snd (mutate st m s)) = h_lp s)"
  using mutate_resident [of st m s] mutate_nonresident_column [of m s st] by blast

text \<open>
  A flushed and solved LP with the resident row at address 1 and the resident column at
  address 5 of \<open>linked_state\<close>; the column at address 7, with the index 1, is not in
  the LP.
\<close>

definition resident_state :: STATE where
  "resident_state = upd_lp (\<lambda>l. l\<lparr>lp_cols := (\<lambda>_. 5), lp_rows := (\<lambda>_. 1),
        lp_lpicols := (\<lambda>_. 5), lp_lpirows := (\<lambda>_. 1), lp_ncols := 1, lp_nrows := 1,
        lp_nlpicols := 1, lp_nlpirows := 1, lp_lpifirstchgcol := 1, lp_lpifirstchgrow := 1\<rparr>)
     (upd_row 1 (\<lambda>row. row\<lparr>row_lppos := 0, row_lpipos := 0\<rparr>)
       (upd_col 5 (\<lambda>col. col\<lparr>col_lppos := 0, col_lpipos := 0\<rparr>)
         (upd_col 7 (\<lambda>col. col\<lparr>col_index := 1\<rparr>) linked_state)))"

theorem C3_mutation_unflushes_witness:
  "resident_mutation std_set (RowChgCoeffPos 1 0 3) resident_state
   \<and> lp_flushed (h_lp resident_state) \<and> lp_solved (h_lp resident_state)
   \<and> fst (rowChgCoeffPos std_set 1 0 3 resident_state) = SCIP_OKAY
   \<and> \<not> lp_flushed (h_lp (snd (rowChgCoeffPos std_set 1 0 3 resident_state)))
   \<and> \<not> lp_solved (h_lp (snd (rowChgCoeffPos std_set 1 0 3 resident_state)))
   \<and> lp_lpsolstat (h_lp (snd (rowChgCoeffPos std_set 1 0 3 resident_state)))
       = SCIP_LPSOLSTAT_NOTSOLVED
   \<and> nonresident_column_mutation (RowAddCoeff 1 7 3) resident_state
   \<and> h_lp (snd (rowAddCoeff std_set 1 7 3 (- 1) NULLREF resident_state)) = h_lp resident_state"
proof -
  have m: "resident_mutation std_set (RowChgCoeffPos 1 0 3) resident_state"
    by (simp add: resident_state_def linked_state_def empty_state_def empty_row_def
          empty_col_def std_set_def)
  have n: "nonresident_column_mutation (RowAddCoeff 1 7 3) resident_state"
    by (simp add: resident_state_def linked_state_def empty_state_def empty_col_def)
  have f: "lp_flushed (h_lp resident_state) \<and> lp_solved (h_lp resident_state)"
    by (simp add: resident_state_def linked_state_def empty_state_def empty_lp_def)
  show ?thesis
    using m n f
      C3_mutation_unflushes [of std_set "RowChgCoeffPos 1 0 3" resident_state]
      C3_mutation_unflushes [of std_set "RowAddCoeff 1 7 3" resident_state]
    by (simp add: unflushed_unsolved_def)
qed

text \<open>
  The claim as stated fails for a coefficient change on a resident row whose column is
  not resident: adding the coefficient 3 of the column at address 7 (index 1, after the
  index 0 of the column at address 5) to the resident row succeeds, the row has one
  entry more, and the LP is still flushed and solved.
\<close>

theorem C3_nonresident_column_counterexample:
  "row_lpipos (h_rows resident_state 1) = 0
   \<and> col_lpipos (h_cols resident_state 7) = - 1
   \<and> col_index (h_cols resident_state 5) = 0 \<and> col_index (h_cols resident_state 7) = 1
   \<and> lp_flushed (h_lp resident_state) \<and> lp_solved (h_lp resident_state)
   \<and> fst (rowAddCoeff std_set 1 7 3 (- 1) NULLREF resident_state) = SCIP_OKAY
   \<and> row_len (h_rows (snd (rowAddCoeff std_set 1 7 3 (- 1) NULLREF resident_state)) 1) = 2
   \<and> row_vals (h_rows (snd (rowAddCoeff std_set 1 7 3 (- 1) NULLREF resident_state)) 1) 1 = 3
   \<and> lp_flushed (h_lp (snd (rowAddCoeff std_set 1 7 3 (- 1) NULLREF resident_state)))
   \<and> lp_solved (h_lp (snd (rowAddCoeff std_set 1 7 3 (- 1) NULLREF resident_state)))
   \<and> lp_lpsolstat (h_lp (snd (rowAddCoeff std_set 1 7 3 (- 1) NULLREF resident_state)))
       = SCIP_LPSOLSTAT_OPTIMAL"
  by (simp add: rowAddCoeff_def rowAddNorms_def SCIProwInvalidActivityBounds_def
        coefChanged_def Let_def resident_state_def linked_state_def empty_state_def
        empty_row_def empty_col_def empty_lp_def)

text \<open>
  The place of a solver call in the order of \<open>lpFlush\<close>: column deletions, row
  deletions, bound changes, side changes, column additions, row additions.
\<close>

fun lpi_phase :: "LPICALL \<Rightarrow> nat" where
  "lpi_phase (LpiDelCols a b) = 1"
| "lpi_phase (LpiDelRows a b) = 2"
| "lpi_phase (LpiChgBounds n ind lb ub) = 3"
| "lpi_phase (LpiChgSides n ind lhs rhs) = 4"
| "lpi_phase (LpiAddCols n obj lb ub nnonz beg ind val) = 5"
| "lpi_phase (LpiAddRows n lhs rhs nnonz beg ind val) = 6"
| "lpi_phase LpiSolvePrimal = 7"
| "lpi_phase LpiGetBasisFeasibility = 7"
| "lpi_phase LpiGetObjval = 7"
| "lpi_phase LpiGetIntpar = 7"

text \<open>The solver positions of the coefficients sent with new columns or rows.\<close>

fun lpi_sent_ind :: "LPICALL \<Rightarrow> int list" where
  "lpi_sent_ind (LpiAddCols n obj lb ub nnonz beg ind val) = ind"
| "lpi_sent_ind (LpiAddRows n lhs rhs nnonz beg ind val) = ind"
| "lpi_sent_ind call = []"

text \<open>
  \<open>flush_step k s s'\<close>: from \<open>s\<close> to \<open>s'\<close> at most one solver call was made, it belongs
  to place \<open>k\<close> and sends nonnegative positions only, and the solved flag was not
  switched on.
\<close>

definition flush_step :: "nat \<Rightarrow> STATE \<Rightarrow> STATE \<Rightarrow> bool" where
  "flush_step k s s' \<longleftrightarrow>
     (\<exists>cs. lp_lpicalls (h_lp s') = lp_lpicalls (h_lp s) @ cs \<and> length cs \<le> 1
        \<and> (\<forall>x \<in> set cs. lpi_phase x = k \<and> (\<forall>i \<in> set (lpi_sent_ind x). 0 \<le> i)))
     \<and> (lp_solved (h_lp s') \<longrightarrow> lp_solved (h_lp s))"

lemma flush_step_same:
  "lp_lpicalls (h_lp s') = lp_lpicalls (h_lp s) \<Longrightarrow> (lp_solved (h_lp s') \<longrightarrow> lp_solved (h_lp s))
     \<Longrightarrow> flush_step k s s'"
  by (simp add: flush_step_def)

lemma flush_step_call:
  assumes "lp_lpicalls (h_lp s1) = lp_lpicalls (h_lp s)" "lp_solved (h_lp s1) \<longrightarrow> lp_solved (h_lp s)"
    "lpi_phase call = k" "\<forall>i \<in> set (lpi_sent_ind call). 0 \<le> i"
    "lp_lpicalls (h_lp s') = lp_lpicalls (h_lp (snd (lpi_call lpi call s1)))"
    "lp_solved (h_lp s') \<longrightarrow> lp_solved (h_lp (snd (lpi_call lpi call s1)))"
  shows "flush_step k s s'"
  using assms by (auto simp: flush_step_def lpi_call_def)

lemma lpFlushDelCols_find_lp:
  "lp_lpicalls (h_lp (lpFlushDelCols_find s)) = lp_lpicalls (h_lp s)
   \<and> lp_solved (h_lp (lpFlushDelCols_find s)) = lp_solved (h_lp s)"
proof (induction s rule: lpFlushDelCols_find.induct)
  case (1 s)
  show ?case
    apply (subst (1 2) lpFlushDelCols_find.simps)
    using "1.IH" [OF refl] by (auto simp: Let_def)
qed

lemma lpFlushDelRows_find_lp:
  "lp_lpicalls (h_lp (lpFlushDelRows_find s)) = lp_lpicalls (h_lp s)
   \<and> lp_solved (h_lp (lpFlushDelRows_find s)) = lp_solved (h_lp s)"
proof (induction s rule: lpFlushDelRows_find.induct)
  case (1 s)
  show ?case
    apply (subst (1 2) lpFlushDelRows_find.simps)
    using "1.IH" [OF refl] by (auto simp: Let_def)
qed

lemma lpFlushDelCols_loop_lp [simp]: "h_lp (lpFlushDelCols_loop i s) = h_lp s"
proof (induction i s rule: lpFlushDelCols_loop.induct)
  case (1 i s)
  show ?case
    apply (subst lpFlushDelCols_loop.simps)
    using "1.IH" by auto
qed

lemma lpFlushDelRows_loop_lp [simp]: "h_lp (lpFlushDelRows_loop i s) = h_lp s"
proof (induction i s rule: lpFlushDelRows_loop.induct)
  case (1 i s)
  show ?case
    apply (subst lpFlushDelRows_loop.simps)
    using "1.IH" by auto
qed

lemma lpFlushDelCols_step: "flush_step 1 s (snd (lpFlushDelCols lpi s))"
  using lpFlushDelCols_find_lp [of s]
  by (auto simp: lpFlushDelCols_def Let_def flush_step_def lpi_call_def)

lemma lpFlushDelRows_step: "flush_step 2 s (snd (lpFlushDelRows lpi s))"
  using lpFlushDelRows_find_lp [of s]
  by (auto simp: lpFlushDelRows_def Let_def flush_step_def lpi_call_def)

lemma lpFlushChgCols_loop_lp [simp]:
  "h_lp (fst (lpFlushChgCols_loop lpi st i b s)) = h_lp s"
proof (induction lpi st i b s rule: lpFlushChgCols_loop.induct)
  case (1 lpi st i b s)
  show ?case
    apply (subst lpFlushChgCols_loop.simps)
    using "1.IH" by (auto simp: Let_def)
qed

lemma lpFlushChgRows_loop_lp [simp]:
  "h_lp (fst (lpFlushChgRows_loop lpi st i b s)) = h_lp s"
proof (induction lpi st i b s rule: lpFlushChgRows_loop.induct)
  case (1 lpi st i b s)
  show ?case
    apply (subst lpFlushChgRows_loop.simps)
    using "1.IH" by (auto simp: Let_def)
qed

lemma lpFlushChgCols_step: "flush_step 3 s (snd (lpFlushChgCols lpi st s))"
proof -
  obtain s1 b where l: "lpFlushChgCols_loop lpi st 0 empty_chgbuf s = (s1, b)"
    by (cases "lpFlushChgCols_loop lpi st 0 empty_chgbuf s")
  have "h_lp s1 = h_lp s"
    using lpFlushChgCols_loop_lp [of lpi st 0 empty_chgbuf s] l by simp
  then show ?thesis
    using l by (auto simp: lpFlushChgCols_def Let_def flush_step_def lpi_call_def)
qed

lemma lpFlushChgRows_step: "flush_step 4 s (snd (lpFlushChgRows lpi st s))"
proof -
  obtain s1 b where l: "lpFlushChgRows_loop lpi st 0 empty_chgbuf s = (s1, b)"
    by (cases "lpFlushChgRows_loop lpi st 0 empty_chgbuf s")
  have "h_lp s1 = h_lp s"
    using lpFlushChgRows_loop_lp [of lpi st 0 empty_chgbuf s] l by simp
  then show ?thesis
    using l by (auto simp: lpFlushChgRows_def Let_def flush_step_def lpi_call_def)
qed

text \<open>
  The entries of a column (of a row) whose row (column) is resident in the solver:
  the positions \<open>j\<close> from \<open>i\<close> on with \<open>lpipos \<ge> 0\<close> of the opposite entity.
\<close>

definition col_resident_entries :: "STATE \<Rightarrow> colptr \<Rightarrow> int \<Rightarrow> int list" where
  "col_resident_entries s c i =
     filter (\<lambda>j. row_lpipos (h_rows s (col_rows (h_cols s c) j)) \<ge> 0)
       [i..col_len (h_cols s c) - 1]"

definition row_resident_entries :: "STATE \<Rightarrow> rowptr \<Rightarrow> int \<Rightarrow> int list" where
  "row_resident_entries s r i =
     filter (\<lambda>j. col_lpipos (h_cols s (row_cols (h_rows s r) j)) \<ge> 0)
       [i..row_len (h_rows s r) - 1]"

lemma lpFlushAddCols_coefs_eq:
  "lpFlushAddCols_coefs s c i b =
     b\<lparr>buf_ind := buf_ind b @ map (\<lambda>j. row_lpipos (h_rows s (col_rows (h_cols s c) j)))
                                 (col_resident_entries s c i),
       buf_val := buf_val b @ map (col_vals (h_cols s c)) (col_resident_entries s c i),
       buf_nnonz := buf_nnonz b + int (length (col_resident_entries s c i))\<rparr>"
proof (induction s c i b rule: lpFlushAddCols_coefs.induct)
  case (1 s c i b)
  show ?case
  proof (cases "i < col_len (h_cols s c)")
    case True
    then have u: "[i..col_len (h_cols s c) - 1] = i # [i + 1..col_len (h_cols s c) - 1]"
      by (simp add: upto_rec1)
    show ?thesis
      apply (subst lpFlushAddCols_coefs.simps)
      using True "1.IH"(1) [OF True refl] "1.IH"(2) [OF True refl]
      by (simp add: Let_def col_resident_entries_def u)
  next
    case False
    then show ?thesis
      by (subst lpFlushAddCols_coefs.simps) (simp add: col_resident_entries_def)
  qed
qed

lemma lpFlushAddRows_coefs_eq:
  "lpFlushAddRows_coefs s r i b =
     b\<lparr>buf_ind := buf_ind b @ map (\<lambda>j. col_lpipos (h_cols s (row_cols (h_rows s r) j)))
                                 (row_resident_entries s r i),
       buf_val := buf_val b @ map (row_vals (h_rows s r)) (row_resident_entries s r i),
       buf_nnonz := buf_nnonz b + int (length (row_resident_entries s r i))\<rparr>"
proof (induction s r i b rule: lpFlushAddRows_coefs.induct)
  case (1 s r i b)
  show ?case
  proof (cases "i < row_len (h_rows s r)")
    case True
    then have u: "[i..row_len (h_rows s r) - 1] = i # [i + 1..row_len (h_rows s r) - 1]"
      by (simp add: upto_rec1)
    show ?thesis
      apply (subst lpFlushAddRows_coefs.simps)
      using True "1.IH"(1) [OF True refl] "1.IH"(2) [OF True refl]
      by (simp add: Let_def row_resident_entries_def u)
  next
    case False
    then show ?thesis
      by (subst lpFlushAddRows_coefs.simps) (simp add: row_resident_entries_def)
  qed
qed

lemma lpFlushAddCols_coefs_nonneg:
  "\<forall>x \<in> set (buf_ind b). 0 \<le> x \<Longrightarrow> \<forall>x \<in> set (buf_ind (lpFlushAddCols_coefs s c i b)). 0 \<le> x"
  by (auto simp: lpFlushAddCols_coefs_eq col_resident_entries_def)

lemma lpFlushAddRows_coefs_nonneg:
  "\<forall>x \<in> set (buf_ind b). 0 \<le> x \<Longrightarrow> \<forall>x \<in> set (buf_ind (lpFlushAddRows_coefs s r i b)). 0 \<le> x"
  by (auto simp: lpFlushAddRows_coefs_eq row_resident_entries_def)

lemma lp_frame_calls: "lp_frame l l' \<Longrightarrow> lp_lpicalls l' = lp_lpicalls l"
  by (simp add: lp_frame_def)

lemma lp_frame_solved: "lp_frame l l' \<Longrightarrow> lp_solved l' \<Longrightarrow> lp_solved l"
  by (simp add: lp_frame_def)

lemma lpFlushAddCols_loop_lp:
  assumes "\<forall>x \<in> set (buf_ind b). 0 \<le> x"
  shows "lp_lpicalls (h_lp (fst (snd (lpFlushAddCols_loop lpi st c b s)))) = lp_lpicalls (h_lp s)
    \<and> (lp_solved (h_lp (fst (snd (lpFlushAddCols_loop lpi st c b s)))) \<longrightarrow> lp_solved (h_lp s))
    \<and> (\<forall>x \<in> set (buf_ind (snd (snd (lpFlushAddCols_loop lpi st c b s)))). 0 \<le> x)"
  using assms
proof (induction lpi st c b s rule: lpFlushAddCols_loop.induct)
  case (1 lpi st c b s)
  note fr = colLink_lp_frame [of s st "lp_cols (h_lp s) c"]
  show ?case
  proof (cases "c < lp_ncols (h_lp s)")
    case False
    then show ?thesis using "1.prems"
      by (subst (1 2 3) lpFlushAddCols_loop.simps) simp
  next
    case True
    show ?thesis
    proof (cases "fst (colLink st (lp_cols (h_lp s) c) s) = SCIP_OKAY")
      case False
      then show ?thesis using True "1.prems" lp_frame_calls [OF fr] lp_frame_solved [OF fr]
        by (subst (1 2 3) lpFlushAddCols_loop.simps) (simp add: Let_def)
    next
      case ok: True
      have nn: "\<forall>x\<in>set (buf_ind (lpFlushAddCols_coefs s2 col 0 (b\<lparr>buf_obj := o1, buf_lb := l1, buf_ub := u1, buf_beg := g1\<rparr>))). 0 \<le> x"
        for s2 col o1 l1 u1 g1
        using "1.prems" by (intro lpFlushAddCols_coefs_nonneg) simp
      show ?thesis
        apply (subst (1 2 3) lpFlushAddCols_loop.simps)
        using True ok "1.IH" [OF True refl refl _ refl refl refl refl refl, OF _ nn]
          lp_frame_calls [OF fr] lp_frame_solved [OF fr]
        by (simp add: Let_def)
    qed
  qed
qed

lemma lpFlushAddRows_loop_lp:
  assumes "\<forall>x \<in> set (buf_ind b). 0 \<le> x"
  shows "lp_lpicalls (h_lp (fst (snd (lpFlushAddRows_loop lpi st r b s)))) = lp_lpicalls (h_lp s)
    \<and> (lp_solved (h_lp (fst (snd (lpFlushAddRows_loop lpi st r b s)))) \<longrightarrow> lp_solved (h_lp s))
    \<and> (\<forall>x \<in> set (buf_ind (snd (snd (lpFlushAddRows_loop lpi st r b s)))). 0 \<le> x)"
  using assms
proof (induction lpi st r b s rule: lpFlushAddRows_loop.induct)
  case (1 lpi st r b s)
  note fr = rowLink_lp_frame [of s "lp_rows (h_lp s) r"]
  show ?case
  proof (cases "r < lp_nrows (h_lp s)")
    case False
    then show ?thesis using "1.prems"
      by (subst (1 2 3) lpFlushAddRows_loop.simps) simp
  next
    case True
    show ?thesis
    proof (cases "fst (rowLink (lp_rows (h_lp s) r) s) = SCIP_OKAY")
      case False
      then show ?thesis using True "1.prems" lp_frame_calls [OF fr] lp_frame_solved [OF fr]
        by (subst (1 2 3) lpFlushAddRows_loop.simps) (simp add: Let_def)
    next
      case ok: True
      have nn: "\<forall>x\<in>set (buf_ind (lpFlushAddRows_coefs s2 row 0 (b\<lparr>buf_lb := l1, buf_ub := u1, buf_beg := g1\<rparr>))). 0 \<le> x"
        for s2 row l1 u1 g1
        using "1.prems" by (intro lpFlushAddRows_coefs_nonneg) simp
      show ?thesis
        apply (subst (1 2 3) lpFlushAddRows_loop.simps)
        using True ok "1.IH" [OF True refl refl _ refl refl refl refl refl, OF _ nn]
          lp_frame_calls [OF fr] lp_frame_solved [OF fr]
        by (simp add: Let_def)
    qed
  qed
qed

lemma lpFlushAddCols_step: "flush_step 5 s (snd (lpFlushAddCols lpi st s))"
proof -
  obtain rc s1 b where l:
    "lpFlushAddCols_loop lpi st (lp_nlpicols (h_lp s)) empty_buf s = (rc, s1, b)"
    by (cases "lpFlushAddCols_loop lpi st (lp_nlpicols (h_lp s)) empty_buf s")
  have "\<forall>x \<in> set (buf_ind empty_buf). 0 \<le> x"
    by (simp add: empty_buf_def)
  from lpFlushAddCols_loop_lp [OF this, of lpi st "lp_nlpicols (h_lp s)" s] l
  have f: "lp_lpicalls (h_lp s1) = lp_lpicalls (h_lp s)"
    "lp_solved (h_lp s1) \<longrightarrow> lp_solved (h_lp s)" "\<forall>x \<in> set (buf_ind b). 0 \<le> x"
    by simp_all
  show ?thesis
    using l f by (auto simp: lpFlushAddCols_def Let_def flush_step_def lpi_call_def)
qed

lemma lpFlushAddRows_step: "flush_step 6 s (snd (lpFlushAddRows lpi st s))"
proof -
  obtain rc s1 b where l:
    "lpFlushAddRows_loop lpi st (lp_nlpirows (h_lp s)) empty_buf s = (rc, s1, b)"
    by (cases "lpFlushAddRows_loop lpi st (lp_nlpirows (h_lp s)) empty_buf s")
  have "\<forall>x \<in> set (buf_ind empty_buf). 0 \<le> x"
    by (simp add: empty_buf_def)
  from lpFlushAddRows_loop_lp [OF this, of lpi st "lp_nlpirows (h_lp s)" s] l
  have f: "lp_lpicalls (h_lp s1) = lp_lpicalls (h_lp s)"
    "lp_solved (h_lp s1) \<longrightarrow> lp_solved (h_lp s)" "\<forall>x \<in> set (buf_ind b). 0 \<le> x"
    by simp_all
  show ?thesis
    using l f by (auto simp: lpFlushAddRows_def Let_def flush_step_def lpi_call_def)
qed

text \<open>
  \<open>flush_upto k s s'\<close>: the solver calls made from \<open>s\<close> to \<open>s'\<close> come in strictly
  increasing places between 1 and \<open>k\<close>, send nonnegative positions only, and the solved
  flag was not switched on.
\<close>

definition flush_upto :: "nat \<Rightarrow> STATE \<Rightarrow> STATE \<Rightarrow> bool" where
  "flush_upto k s s' \<longleftrightarrow>
     (\<exists>cs. lp_lpicalls (h_lp s') = lp_lpicalls (h_lp s) @ cs
        \<and> sorted_wrt (<) (map lpi_phase cs)
        \<and> (\<forall>x \<in> set cs. 1 \<le> lpi_phase x \<and> lpi_phase x \<le> k
              \<and> (\<forall>i \<in> set (lpi_sent_ind x). 0 \<le> i)))
     \<and> (lp_solved (h_lp s') \<longrightarrow> lp_solved (h_lp s))"

lemma flush_upto_refl: "flush_upto k s s"
  by (simp add: flush_upto_def)

lemma flush_upto_step:
  assumes "flush_upto k s s1" "flush_step k' s1 s2" "k < k'"
  shows "flush_upto k' s s2"
proof -
  from assms(1) obtain cs where cs: "lp_lpicalls (h_lp s1) = lp_lpicalls (h_lp s) @ cs"
    "sorted_wrt (<) (map lpi_phase cs)"
    "\<forall>x \<in> set cs. 1 \<le> lpi_phase x \<and> lpi_phase x \<le> k \<and> (\<forall>i \<in> set (lpi_sent_ind x). 0 \<le> i)"
    and m1: "lp_solved (h_lp s1) \<longrightarrow> lp_solved (h_lp s)"
    by (auto simp: flush_upto_def)
  from assms(2) obtain ds where ds: "lp_lpicalls (h_lp s2) = lp_lpicalls (h_lp s1) @ ds"
    "length ds \<le> 1"
    "\<forall>x \<in> set ds. lpi_phase x = k' \<and> (\<forall>i \<in> set (lpi_sent_ind x). 0 \<le> i)"
    and m2: "lp_solved (h_lp s2) \<longrightarrow> lp_solved (h_lp s1)"
    by (auto simp: flush_step_def)
  have s: "sorted_wrt (<) (map lpi_phase ds)"
    using ds(2) by (cases ds) (auto simp: le_Suc_eq)
  have "sorted_wrt (<) (map lpi_phase (cs @ ds))"
    using cs(2,3) ds(3) s assms(3) by (fastforce simp: sorted_wrt_append)
  moreover have "\<forall>x \<in> set (cs @ ds). 1 \<le> lpi_phase x \<and> lpi_phase x \<le> k'
      \<and> (\<forall>i \<in> set (lpi_sent_ind x). 0 \<le> i)"
    using cs(3) ds(3) assms(3) by fastforce
  moreover have "lp_lpicalls (h_lp s2) = lp_lpicalls (h_lp s) @ (cs @ ds)"
    using cs(1) ds(1) by simp
  ultimately show ?thesis
    using m1 m2 unfolding flush_upto_def by blast
qed

lemma flush_upto_mono: "flush_upto k s s' \<Longrightarrow> k \<le> k' \<Longrightarrow> flush_upto k' s s'"
  by (fastforce simp: flush_upto_def)

lemma flush_upto_lp: "flush_upto k s s1 \<Longrightarrow> lp_lpicalls (h_lp s') = lp_lpicalls (h_lp s1)
    \<Longrightarrow> (lp_solved (h_lp s') \<longrightarrow> lp_solved (h_lp s1)) \<Longrightarrow> flush_upto k s s'"
  by (auto simp: flush_upto_def)

lemma lpFlush_upto: "flush_upto 6 s (snd (lpFlush lpi st s))"
proof (cases "lp_flushed (h_lp s)")
  case True
  then show ?thesis by (simp add: lpFlush_def flush_upto_refl)
next
  case False
  define s1 where "s1 = snd (lpFlushDelCols lpi s)"
  define s2 where "s2 = snd (lpFlushDelRows lpi s1)"
  define s3 where "s3 = snd (lpFlushChgCols lpi st s2)"
  define s4 where "s4 = snd (lpFlushChgRows lpi st s3)"
  define s5 where "s5 = snd (lpFlushAddCols lpi st s4)"
  define s6 where "s6 = snd (lpFlushAddRows lpi st s5)"
  have u1: "flush_upto 1 s s1"
    unfolding s1_def using flush_upto_step [OF flush_upto_refl lpFlushDelCols_step, of 0] by simp
  have u2: "flush_upto 2 s s2"
    unfolding s2_def using flush_upto_step [OF u1 lpFlushDelRows_step] by simp
  have u3: "flush_upto 3 s s3"
    unfolding s3_def using flush_upto_step [OF u2 lpFlushChgCols_step] by simp
  have u4: "flush_upto 4 s s4"
    unfolding s4_def using flush_upto_step [OF u3 lpFlushChgRows_step] by simp
  have u5: "flush_upto 5 s s5"
    unfolding s5_def using flush_upto_step [OF u4 lpFlushAddCols_step] by simp
  have u6: "flush_upto 6 s s6"
    unfolding s6_def using flush_upto_step [OF u5 lpFlushAddRows_step] by simp
  have u7: "flush_upto 6 s (upd_lp (\<lambda>l. l\<lparr>lp_flushed := True\<rparr>) s6)"
    using flush_upto_lp [OF u6] by simp
  show ?thesis
    using False u1 [THEN flush_upto_mono, of 6] u2 [THEN flush_upto_mono, of 6]
      u3 [THEN flush_upto_mono, of 6] u4 [THEN flush_upto_mono, of 6]
      u5 [THEN flush_upto_mono, of 6] u6 u7
    by (simp add: lpFlush_def check_okay_def s1_def s2_def s3_def s4_def s5_def s6_def)
qed

text \<open>A solver that answers every call with \<open>SCIP_OKAY\<close> and ends at the objective limit.\<close>

definition objlim_lpi :: LPI where
  "objlim_lpi = \<lparr>lpi_infinity = 10 ^ 30, lpi_retcode = (\<lambda>_ _. SCIP_OKAY),
     lpi_termination = LPI_OBJLIMEXC, lpi_primalfeasible = False, lpi_dualfeasible = False,
     lpi_objval = 0, lpi_iter1 = 0, lpi_iter2 = 0\<rparr>"

text \<open>
  Step 1 in the words of the spec. A column position is unchanged if the column of the
  LP at this position is the resident column of this position and none of its
  coefficients changed; the unchanged prefix ends at the first position from
  \<open>lpifirstchgcol\<close> on, below \<open>nlpicols\<close>, that is not unchanged; the resident columns
  from there on are deleted with one call.
\<close>

definition col_unchanged :: "STATE \<Rightarrow> int \<Rightarrow> bool" where
  "col_unchanged s i \<longleftrightarrow>
     i < lp_ncols (h_lp s) \<and> col_lpipos (h_cols s (lp_cols (h_lp s) i)) = i
     \<and> \<not> col_coefchanged (h_cols s (lp_cols (h_lp s) i))"

definition unchanged_cols_end :: "STATE \<Rightarrow> int" where
  "unchanged_cols_end s =
     lp_lpifirstchgcol (h_lp s)
     + int (length (takeWhile (col_unchanged s)
                      [lp_lpifirstchgcol (h_lp s)..lp_nlpicols (h_lp s) - 1]))"

definition del_cols_calls :: "STATE \<Rightarrow> LPICALL list" where
  "del_cols_calls s =
     (if unchanged_cols_end s < lp_nlpicols (h_lp s)
      then [LpiDelCols (unchanged_cols_end s) (lp_nlpicols (h_lp s) - 1)] else [])"

definition row_unchanged :: "STATE \<Rightarrow> int \<Rightarrow> bool" where
  "row_unchanged s i \<longleftrightarrow>
     i < lp_nrows (h_lp s) \<and> row_lpipos (h_rows s (lp_rows (h_lp s) i)) = i
     \<and> \<not> row_coefchanged (h_rows s (lp_rows (h_lp s) i))"

definition unchanged_rows_end :: "STATE \<Rightarrow> int" where
  "unchanged_rows_end s =
     lp_lpifirstchgrow (h_lp s)
     + int (length (takeWhile (row_unchanged s)
                      [lp_lpifirstchgrow (h_lp s)..lp_nlpirows (h_lp s) - 1]))"

definition del_rows_calls :: "STATE \<Rightarrow> LPICALL list" where
  "del_rows_calls s =
     (if unchanged_rows_end s < lp_nlpirows (h_lp s)
      then [LpiDelRows (unchanged_rows_end s) (lp_nlpirows (h_lp s) - 1)] else [])"

lemma col_unchanged_cong:
  "lp_ncols (h_lp s') = lp_ncols (h_lp s) \<Longrightarrow> lp_cols (h_lp s') = lp_cols (h_lp s)
     \<Longrightarrow> h_cols s' = h_cols s \<Longrightarrow> col_unchanged s' = col_unchanged s"
  by (simp add: col_unchanged_def fun_eq_iff)

lemma row_unchanged_cong:
  "lp_nrows (h_lp s') = lp_nrows (h_lp s) \<Longrightarrow> lp_rows (h_lp s') = lp_rows (h_lp s)
     \<Longrightarrow> h_rows s' = h_rows s \<Longrightarrow> row_unchanged s' = row_unchanged s"
  by (simp add: row_unchanged_def fun_eq_iff)

lemma upd_lp_upd_lp [simp]: "upd_lp f (upd_lp g s) = upd_lp (\<lambda>l. f (g l)) s"
  by (simp add: upd_lp_def)

lemma upd_lp_same: "f (h_lp s) = h_lp s \<Longrightarrow> upd_lp f s = s"
  by (simp add: upd_lp_def)

lemma lpFlushDelCols_find_eq:
  "lpFlushDelCols_find s = upd_lp (\<lambda>l. l\<lparr>lp_lpifirstchgcol := unchanged_cols_end s\<rparr>) s"
proof (induction s rule: lpFlushDelCols_find.induct)
  case (1 s)
  let ?f = "lp_lpifirstchgcol (h_lp s)"
  let ?n = "lp_nlpicols (h_lp s)"
  show ?case
  proof (cases "?f < ?n \<and> col_unchanged s ?f")
    case True
    then have u: "[?f..?n - 1] = ?f # [?f + 1..?n - 1]"
      by (simp add: upto_rec1)
    have e: "unchanged_cols_end (upd_lp (\<lambda>l. l\<lparr>lp_lpifirstchgcol := lp_lpifirstchgcol l + 1\<rparr>) s)
               = unchanged_cols_end s"
      using True
      by (simp add: unchanged_cols_end_def u
            col_unchanged_cong [of "upd_lp (\<lambda>l. l\<lparr>lp_lpifirstchgcol := lp_lpifirstchgcol l + 1\<rparr>) s" s])
    have "lpFlushDelCols_find s
            = lpFlushDelCols_find (upd_lp (\<lambda>l. l\<lparr>lp_lpifirstchgcol := lp_lpifirstchgcol l + 1\<rparr>) s)"
      using True by (subst lpFlushDelCols_find.simps) (simp add: Let_def col_unchanged_def)
    also have "\<dots> = upd_lp (\<lambda>l. l\<lparr>lp_lpifirstchgcol := unchanged_cols_end s\<rparr>) s"
      using True "1.IH" [OF refl] e by (simp add: col_unchanged_def)
    finally show ?thesis .
  next
    case False
    then have "takeWhile (col_unchanged s) [?f..?n - 1] = []"
      by (cases "?f < ?n") (simp_all add: upto_rec1)
    then have e: "unchanged_cols_end s = ?f"
      by (simp add: unchanged_cols_end_def)
    have "lpFlushDelCols_find s = s"
      using False by (subst lpFlushDelCols_find.simps) (auto simp: Let_def col_unchanged_def)
    then show ?thesis
      by (simp add: e upd_lp_same)
  qed
qed

lemma lpFlushDelRows_find_eq:
  "lpFlushDelRows_find s = upd_lp (\<lambda>l. l\<lparr>lp_lpifirstchgrow := unchanged_rows_end s\<rparr>) s"
proof (induction s rule: lpFlushDelRows_find.induct)
  case (1 s)
  let ?f = "lp_lpifirstchgrow (h_lp s)"
  let ?n = "lp_nlpirows (h_lp s)"
  show ?case
  proof (cases "?f < ?n \<and> row_unchanged s ?f")
    case True
    then have u: "[?f..?n - 1] = ?f # [?f + 1..?n - 1]"
      by (simp add: upto_rec1)
    have e: "unchanged_rows_end (upd_lp (\<lambda>l. l\<lparr>lp_lpifirstchgrow := lp_lpifirstchgrow l + 1\<rparr>) s)
               = unchanged_rows_end s"
      using True
      by (simp add: unchanged_rows_end_def u
            row_unchanged_cong [of "upd_lp (\<lambda>l. l\<lparr>lp_lpifirstchgrow := lp_lpifirstchgrow l + 1\<rparr>) s" s])
    have "lpFlushDelRows_find s
            = lpFlushDelRows_find (upd_lp (\<lambda>l. l\<lparr>lp_lpifirstchgrow := lp_lpifirstchgrow l + 1\<rparr>) s)"
      using True by (subst lpFlushDelRows_find.simps) (simp add: Let_def row_unchanged_def)
    also have "\<dots> = upd_lp (\<lambda>l. l\<lparr>lp_lpifirstchgrow := unchanged_rows_end s\<rparr>) s"
      using True "1.IH" [OF refl] e by (simp add: row_unchanged_def)
    finally show ?thesis .
  next
    case False
    then have "takeWhile (row_unchanged s) [?f..?n - 1] = []"
      by (cases "?f < ?n") (simp_all add: upto_rec1)
    then have e: "unchanged_rows_end s = ?f"
      by (simp add: unchanged_rows_end_def)
    have "lpFlushDelRows_find s = s"
      using False by (subst lpFlushDelRows_find.simps) (auto simp: Let_def row_unchanged_def)
    then show ?thesis
      by (simp add: e upd_lp_same)
  qed
qed

lemma lpFlushDelCols_calls:
  "lp_lpicalls (h_lp (snd (lpFlushDelCols lpi s))) = lp_lpicalls (h_lp s) @ del_cols_calls s"
  by (simp add: lpFlushDelCols_def lpFlushDelCols_find_eq Let_def del_cols_calls_def
        lpi_call_def)

lemma lpFlushDelRows_calls:
  "lp_lpicalls (h_lp (snd (lpFlushDelRows lpi s))) = lp_lpicalls (h_lp s) @ del_rows_calls s"
  by (simp add: lpFlushDelRows_def lpFlushDelRows_find_eq Let_def del_rows_calls_def
        lpi_call_def)

text \<open>
  Steps 3 and 4 in the words of the spec. The bounds of a column are pending if the
  column is resident and one of its bounds is marked as changed. The positions of the
  array of changed columns that are sent are those of a column with pending bounds,
  each column at its first position only. The values sent are the bounds of the
  variable, an infinite bound as the infinity of the solver.
\<close>

definition lpi_lower :: "LPI \<Rightarrow> SET \<Rightarrow> real \<Rightarrow> real" where
  "lpi_lower lpi st x = (if SCIPsetIsInfinity st (- x) then - SCIPlpiInfinity lpi else x)"

definition lpi_upper :: "LPI \<Rightarrow> SET \<Rightarrow> real \<Rightarrow> real" where
  "lpi_upper lpi st x = (if SCIPsetIsInfinity st x then SCIPlpiInfinity lpi else x)"

definition col_bounds_pending :: "STATE \<Rightarrow> colptr \<Rightarrow> bool" where
  "col_bounds_pending s c \<longleftrightarrow>
     col_lpipos (h_cols s c) \<ge> 0 \<and> (col_lbchanged (h_cols s c) \<or> col_ubchanged (h_cols s c))"

definition chg_col_positions :: "STATE \<Rightarrow> int \<Rightarrow> int list" where
  "chg_col_positions s i =
     filter (\<lambda>p. col_bounds_pending s (lp_chgcols (h_lp s) p)
                \<and> lp_chgcols (h_lp s) p \<notin> set (map (lp_chgcols (h_lp s)) [i..p - 1]))
       [i..lp_nchgcols (h_lp s) - 1]"

definition chg_cols_calls :: "LPI \<Rightarrow> SET \<Rightarrow> STATE \<Rightarrow> LPICALL list" where
  "chg_cols_calls lpi st s =
     (let cs = map (lp_chgcols (h_lp s)) (chg_col_positions s 0) in
      if cs = [] then []
      else [LpiChgBounds (int (length cs))
              (map (\<lambda>c. col_lpipos (h_cols s c)) cs)
              (map (\<lambda>c. lpi_lower lpi st (var_lb (col_var (h_cols s c)))) cs)
              (map (\<lambda>c. lpi_upper lpi st (var_ub (col_var (h_cols s c)))) cs)])"

definition row_sides_pending :: "STATE \<Rightarrow> rowptr \<Rightarrow> bool" where
  "row_sides_pending s r \<longleftrightarrow>
     row_lpipos (h_rows s r) \<ge> 0 \<and> (row_lhschanged (h_rows s r) \<or> row_rhschanged (h_rows s r))"

definition chg_row_positions :: "STATE \<Rightarrow> int \<Rightarrow> int list" where
  "chg_row_positions s i =
     filter (\<lambda>p. row_sides_pending s (lp_chgrows (h_lp s) p)
                \<and> lp_chgrows (h_lp s) p \<notin> set (map (lp_chgrows (h_lp s)) [i..p - 1]))
       [i..lp_nchgrows (h_lp s) - 1]"

definition lpi_lhs :: "LPI \<Rightarrow> SET \<Rightarrow> ROW \<Rightarrow> real" where
  "lpi_lhs lpi st row =
     (if SCIPsetIsInfinity st (- row_lhs row) then - SCIPlpiInfinity lpi
      else row_lhs row + row_constant row)"

definition lpi_rhs :: "LPI \<Rightarrow> SET \<Rightarrow> ROW \<Rightarrow> real" where
  "lpi_rhs lpi st row =
     (if SCIPsetIsInfinity st (row_rhs row) then SCIPlpiInfinity lpi
      else row_rhs row + row_constant row)"

definition chg_rows_calls :: "LPI \<Rightarrow> SET \<Rightarrow> STATE \<Rightarrow> LPICALL list" where
  "chg_rows_calls lpi st s =
     (let rs = map (lp_chgrows (h_lp s)) (chg_row_positions s 0) in
      if rs = [] then []
      else [LpiChgSides (int (length rs))
              (map (\<lambda>r. row_lpipos (h_rows s r)) rs)
              (map (\<lambda>r. lpi_lhs lpi st (h_rows s r)) rs)
              (map (\<lambda>r. lpi_rhs lpi st (h_rows s r)) rs)])"

lemma chg_col_positions_skip:
  assumes "i < lp_nchgcols (h_lp s)" "\<not> col_bounds_pending s (lp_chgcols (h_lp s) i)"
  shows "chg_col_positions s i = chg_col_positions s (i + 1)"
proof -
  have u: "[i..lp_nchgcols (h_lp s) - 1] = i # [i + 1..lp_nchgcols (h_lp s) - 1]"
    using assms(1) by (simp add: upto_rec1)
  have "filter (\<lambda>p. col_bounds_pending s (lp_chgcols (h_lp s) p)
                \<and> lp_chgcols (h_lp s) p \<notin> set (map (lp_chgcols (h_lp s)) [i..p - 1]))
          [i + 1..lp_nchgcols (h_lp s) - 1]
      = filter (\<lambda>p. col_bounds_pending s (lp_chgcols (h_lp s) p)
                \<and> lp_chgcols (h_lp s) p \<notin> set (map (lp_chgcols (h_lp s)) [i + 1..p - 1]))
          [i + 1..lp_nchgcols (h_lp s) - 1]"
  proof (rule filter_cong [OF refl])
    fix p assume "p \<in> set [i + 1..lp_nchgcols (h_lp s) - 1]"
    then have "[i..p - 1] = i # [i + 1..p - 1]"
      by (simp add: upto_rec1)
    then show "(col_bounds_pending s (lp_chgcols (h_lp s) p)
                \<and> lp_chgcols (h_lp s) p \<notin> set (map (lp_chgcols (h_lp s)) [i..p - 1]))
             = (col_bounds_pending s (lp_chgcols (h_lp s) p)
                \<and> lp_chgcols (h_lp s) p \<notin> set (map (lp_chgcols (h_lp s)) [i + 1..p - 1]))"
      using assms(2) by auto
  qed
  then show ?thesis
    using assms(2) by (simp add: chg_col_positions_def u)
qed

lemma chg_col_positions_send:
  assumes "i < lp_nchgcols (h_lp s)" "col_bounds_pending s (lp_chgcols (h_lp s) i)"
    and l: "h_lp s' = h_lp s"
    and c: "\<And>c. col_bounds_pending s' c \<longleftrightarrow> c \<noteq> lp_chgcols (h_lp s) i \<and> col_bounds_pending s c"
  shows "chg_col_positions s i = i # chg_col_positions s' (i + 1)"
proof -
  have u: "[i..lp_nchgcols (h_lp s) - 1] = i # [i + 1..lp_nchgcols (h_lp s) - 1]"
    using assms(1) by (simp add: upto_rec1)
  have "filter (\<lambda>p. col_bounds_pending s (lp_chgcols (h_lp s) p)
                \<and> lp_chgcols (h_lp s) p \<notin> set (map (lp_chgcols (h_lp s)) [i..p - 1]))
          [i + 1..lp_nchgcols (h_lp s) - 1]
      = filter (\<lambda>p. col_bounds_pending s' (lp_chgcols (h_lp s) p)
                \<and> lp_chgcols (h_lp s) p \<notin> set (map (lp_chgcols (h_lp s)) [i + 1..p - 1]))
          [i + 1..lp_nchgcols (h_lp s) - 1]"
  proof (rule filter_cong [OF refl])
    fix p assume "p \<in> set [i + 1..lp_nchgcols (h_lp s) - 1]"
    then have "[i..p - 1] = i # [i + 1..p - 1]"
      by (simp add: upto_rec1)
    then show "(col_bounds_pending s (lp_chgcols (h_lp s) p)
                \<and> lp_chgcols (h_lp s) p \<notin> set (map (lp_chgcols (h_lp s)) [i..p - 1]))
             = (col_bounds_pending s' (lp_chgcols (h_lp s) p)
                \<and> lp_chgcols (h_lp s) p \<notin> set (map (lp_chgcols (h_lp s)) [i + 1..p - 1]))"
      using c by auto
  qed
  then show ?thesis
    using assms(2) by (simp add: chg_col_positions_def u l)
qed

lemma lpFlushChgCols_loop_buf:
  "snd (lpFlushChgCols_loop lpi st i b s) =
     b\<lparr>chg_ind := chg_ind b @ map (\<lambda>c. col_lpipos (h_cols s c))
                                 (map (lp_chgcols (h_lp s)) (chg_col_positions s i)),
       chg_lb := chg_lb b @ map (\<lambda>c. lpi_lower lpi st (var_lb (col_var (h_cols s c))))
                                 (map (lp_chgcols (h_lp s)) (chg_col_positions s i)),
       chg_ub := chg_ub b @ map (\<lambda>c. lpi_upper lpi st (var_ub (col_var (h_cols s c))))
                                 (map (lp_chgcols (h_lp s)) (chg_col_positions s i)),
       chg_nchg := chg_nchg b + int (length (chg_col_positions s i))\<rparr>"
proof (induction lpi st i b s rule: lpFlushChgCols_loop.induct)
  case (1 lpi st i b s)
  show ?case
  proof (cases "i < lp_nchgcols (h_lp s)")
    case False
    then show ?thesis
      by (subst lpFlushChgCols_loop.simps) (simp add: chg_col_positions_def)
  next
    case True
    define c where "c = lp_chgcols (h_lp s) i"
    show ?thesis
    proof (cases "col_bounds_pending s c")
      case False
      then have "snd (lpFlushChgCols_loop lpi st i b s) = snd (lpFlushChgCols_loop lpi st (i + 1) b s)"
        using True
        by (subst lpFlushChgCols_loop.simps) (auto simp: Let_def c_def col_bounds_pending_def)
      then show ?thesis
        using "1.IH"(2) [OF True refl refl refl] False True
          chg_col_positions_skip [of i s]
        by (simp add: c_def col_bounds_pending_def)
    next
      case p: True
      define s' where "s' = upd_col c (\<lambda>x. x\<lparr>col_lbchanged := False, col_ubchanged := False\<rparr>) s"
      define b' where "b' = b\<lparr>chg_ind := chg_ind b @ [col_lpipos (h_cols s c)],
                   chg_lb := chg_lb b @ [if SCIPsetIsInfinity st (- var_lb (col_var (h_cols s c)))
                                         then - SCIPlpiInfinity lpi else var_lb (col_var (h_cols s c))],
                   chg_ub := chg_ub b @ [if SCIPsetIsInfinity st (var_ub (col_var (h_cols s c)))
                                         then SCIPlpiInfinity lpi else var_ub (col_var (h_cols s c))],
                   chg_nchg := chg_nchg b + 1\<rparr>"
      have e: "snd (lpFlushChgCols_loop lpi st i b s) = snd (lpFlushChgCols_loop lpi st (i + 1) b' s')"
        using True p
        by (subst lpFlushChgCols_loop.simps)
           (simp add: Let_def c_def col_bounds_pending_def s'_def b'_def)
      have ih: "snd (lpFlushChgCols_loop lpi st (i + 1) b' s') =
         b'\<lparr>chg_ind := chg_ind b' @ map (\<lambda>c. col_lpipos (h_cols s' c))
                                 (map (lp_chgcols (h_lp s')) (chg_col_positions s' (i + 1))),
           chg_lb := chg_lb b' @ map (\<lambda>c. lpi_lower lpi st (var_lb (col_var (h_cols s' c))))
                                 (map (lp_chgcols (h_lp s')) (chg_col_positions s' (i + 1))),
           chg_ub := chg_ub b' @ map (\<lambda>c. lpi_upper lpi st (var_ub (col_var (h_cols s' c))))
                                 (map (lp_chgcols (h_lp s')) (chg_col_positions s' (i + 1))),
           chg_nchg := chg_nchg b' + int (length (chg_col_positions s' (i + 1)))\<rparr>"
        unfolding s'_def b'_def c_def
        by (rule "1.IH"(1) [OF True refl refl refl])
           (insert p, simp add: c_def col_bounds_pending_def)
      have l: "h_lp s' = h_lp s"
        by (simp add: s'_def)
      have v: "col_lpipos (h_cols s' x) = col_lpipos (h_cols s x)"
        "col_var (h_cols s' x) = col_var (h_cols s x)" for x
        by (simp_all add: s'_def)
      have pc: "col_bounds_pending s' x \<longleftrightarrow> x \<noteq> lp_chgcols (h_lp s) i \<and> col_bounds_pending s x" for x
        by (simp add: s'_def c_def col_bounds_pending_def)
      have ps: "chg_col_positions s i = i # chg_col_positions s' (i + 1)"
        using True p l pc by (intro chg_col_positions_send) (simp_all add: c_def)
      show ?thesis
        unfolding e ih ps
        by (simp add: l v b'_def c_def lpi_lower_def lpi_upper_def)
    qed
  qed
qed

lemma lpFlushChgCols_calls:
  "lp_lpicalls (h_lp (snd (lpFlushChgCols lpi st s))) = lp_lpicalls (h_lp s) @ chg_cols_calls lpi st s"
proof (cases "lp_nchgcols (h_lp s) = 0")
  case True
  then show ?thesis
    by (simp add: lpFlushChgCols_def chg_cols_calls_def chg_col_positions_def)
next
  case False
  obtain s1 b where l: "lpFlushChgCols_loop lpi st 0 empty_chgbuf s = (s1, b)"
    by (cases "lpFlushChgCols_loop lpi st 0 empty_chgbuf s")
  have h: "h_lp s1 = h_lp s"
    using lpFlushChgCols_loop_lp [of lpi st 0 empty_chgbuf s] l by simp
  have b: "chg_ind b = map (\<lambda>c. col_lpipos (h_cols s c))
                                 (map (lp_chgcols (h_lp s)) (chg_col_positions s 0))"
    "chg_lb b = map (\<lambda>c. lpi_lower lpi st (var_lb (col_var (h_cols s c))))
                                 (map (lp_chgcols (h_lp s)) (chg_col_positions s 0))"
    "chg_ub b = map (\<lambda>c. lpi_upper lpi st (var_ub (col_var (h_cols s c))))
                                 (map (lp_chgcols (h_lp s)) (chg_col_positions s 0))"
    "chg_nchg b = int (length (chg_col_positions s 0))"
    using lpFlushChgCols_loop_buf [of lpi st 0 empty_chgbuf s] l
    by (simp_all add: empty_chgbuf_def)
  show ?thesis
    using False l h b
    by (simp add: lpFlushChgCols_def chg_cols_calls_def Let_def lpi_call_def)
qed

lemma chg_row_positions_skip:
  assumes "i < lp_nchgrows (h_lp s)" "\<not> row_sides_pending s (lp_chgrows (h_lp s) i)"
  shows "chg_row_positions s i = chg_row_positions s (i + 1)"
proof -
  have u: "[i..lp_nchgrows (h_lp s) - 1] = i # [i + 1..lp_nchgrows (h_lp s) - 1]"
    using assms(1) by (simp add: upto_rec1)
  have "filter (\<lambda>p. row_sides_pending s (lp_chgrows (h_lp s) p)
                \<and> lp_chgrows (h_lp s) p \<notin> set (map (lp_chgrows (h_lp s)) [i..p - 1]))
          [i + 1..lp_nchgrows (h_lp s) - 1]
      = filter (\<lambda>p. row_sides_pending s (lp_chgrows (h_lp s) p)
                \<and> lp_chgrows (h_lp s) p \<notin> set (map (lp_chgrows (h_lp s)) [i + 1..p - 1]))
          [i + 1..lp_nchgrows (h_lp s) - 1]"
  proof (rule filter_cong [OF refl])
    fix p assume "p \<in> set [i + 1..lp_nchgrows (h_lp s) - 1]"
    then have "[i..p - 1] = i # [i + 1..p - 1]"
      by (simp add: upto_rec1)
    then show "(row_sides_pending s (lp_chgrows (h_lp s) p)
                \<and> lp_chgrows (h_lp s) p \<notin> set (map (lp_chgrows (h_lp s)) [i..p - 1]))
             = (row_sides_pending s (lp_chgrows (h_lp s) p)
                \<and> lp_chgrows (h_lp s) p \<notin> set (map (lp_chgrows (h_lp s)) [i + 1..p - 1]))"
      using assms(2) by auto
  qed
  then show ?thesis
    using assms(2) by (simp add: chg_row_positions_def u)
qed

lemma chg_row_positions_send:
  assumes "i < lp_nchgrows (h_lp s)" "row_sides_pending s (lp_chgrows (h_lp s) i)"
    and l: "h_lp s' = h_lp s"
    and c: "\<And>c. row_sides_pending s' c \<longleftrightarrow> c \<noteq> lp_chgrows (h_lp s) i \<and> row_sides_pending s c"
  shows "chg_row_positions s i = i # chg_row_positions s' (i + 1)"
proof -
  have u: "[i..lp_nchgrows (h_lp s) - 1] = i # [i + 1..lp_nchgrows (h_lp s) - 1]"
    using assms(1) by (simp add: upto_rec1)
  have "filter (\<lambda>p. row_sides_pending s (lp_chgrows (h_lp s) p)
                \<and> lp_chgrows (h_lp s) p \<notin> set (map (lp_chgrows (h_lp s)) [i..p - 1]))
          [i + 1..lp_nchgrows (h_lp s) - 1]
      = filter (\<lambda>p. row_sides_pending s' (lp_chgrows (h_lp s) p)
                \<and> lp_chgrows (h_lp s) p \<notin> set (map (lp_chgrows (h_lp s)) [i + 1..p - 1]))
          [i + 1..lp_nchgrows (h_lp s) - 1]"
  proof (rule filter_cong [OF refl])
    fix p assume "p \<in> set [i + 1..lp_nchgrows (h_lp s) - 1]"
    then have "[i..p - 1] = i # [i + 1..p - 1]"
      by (simp add: upto_rec1)
    then show "(row_sides_pending s (lp_chgrows (h_lp s) p)
                \<and> lp_chgrows (h_lp s) p \<notin> set (map (lp_chgrows (h_lp s)) [i..p - 1]))
             = (row_sides_pending s' (lp_chgrows (h_lp s) p)
                \<and> lp_chgrows (h_lp s) p \<notin> set (map (lp_chgrows (h_lp s)) [i + 1..p - 1]))"
      using c by auto
  qed
  then show ?thesis
    using assms(2) by (simp add: chg_row_positions_def u l)
qed

lemma lpFlushChgRows_loop_buf:
  "snd (lpFlushChgRows_loop lpi st i b s) =
     b\<lparr>chg_ind := chg_ind b @ map (\<lambda>c. row_lpipos (h_rows s c))
                                 (map (lp_chgrows (h_lp s)) (chg_row_positions s i)),
       chg_lb := chg_lb b @ map (\<lambda>c. lpi_lhs lpi st (h_rows s c))
                                 (map (lp_chgrows (h_lp s)) (chg_row_positions s i)),
       chg_ub := chg_ub b @ map (\<lambda>c. lpi_rhs lpi st (h_rows s c))
                                 (map (lp_chgrows (h_lp s)) (chg_row_positions s i)),
       chg_nchg := chg_nchg b + int (length (chg_row_positions s i))\<rparr>"
proof (induction lpi st i b s rule: lpFlushChgRows_loop.induct)
  case (1 lpi st i b s)
  show ?case
  proof (cases "i < lp_nchgrows (h_lp s)")
    case False
    then show ?thesis
      by (subst lpFlushChgRows_loop.simps) (simp add: chg_row_positions_def)
  next
    case True
    define c where "c = lp_chgrows (h_lp s) i"
    show ?thesis
    proof (cases "row_sides_pending s c")
      case False
      then have "snd (lpFlushChgRows_loop lpi st i b s) = snd (lpFlushChgRows_loop lpi st (i + 1) b s)"
        using True
        by (subst lpFlushChgRows_loop.simps) (auto simp: Let_def c_def row_sides_pending_def)
      then show ?thesis
        using "1.IH"(2) [OF True refl refl] False True
          chg_row_positions_skip [of i s]
        by (simp add: c_def row_sides_pending_def)
    next
      case p: True
      define s' where "s' = upd_row c (\<lambda>x. x\<lparr>row_lhschanged := False, row_rhschanged := False\<rparr>) s"
      define b' where "b' = b\<lparr>chg_ind := chg_ind b @ [row_lpipos (h_rows s c)],
                   chg_lb := chg_lb b @ [if SCIPsetIsInfinity st (- row_lhs (h_rows s c))
                                         then - SCIPlpiInfinity lpi
                                         else row_lhs (h_rows s c) + row_constant (h_rows s c)],
                   chg_ub := chg_ub b @ [if SCIPsetIsInfinity st (row_rhs (h_rows s c))
                                         then SCIPlpiInfinity lpi
                                         else row_rhs (h_rows s c) + row_constant (h_rows s c)],
                   chg_nchg := chg_nchg b + 1\<rparr>"
      have e: "snd (lpFlushChgRows_loop lpi st i b s) = snd (lpFlushChgRows_loop lpi st (i + 1) b' s')"
        using True p
        by (subst lpFlushChgRows_loop.simps)
           (simp add: Let_def c_def row_sides_pending_def s'_def b'_def)
      have ih: "snd (lpFlushChgRows_loop lpi st (i + 1) b' s') =
         b'\<lparr>chg_ind := chg_ind b' @ map (\<lambda>c. row_lpipos (h_rows s' c))
                                 (map (lp_chgrows (h_lp s')) (chg_row_positions s' (i + 1))),
           chg_lb := chg_lb b' @ map (\<lambda>c. lpi_lhs lpi st (h_rows s' c))
                                 (map (lp_chgrows (h_lp s')) (chg_row_positions s' (i + 1))),
           chg_ub := chg_ub b' @ map (\<lambda>c. lpi_rhs lpi st (h_rows s' c))
                                 (map (lp_chgrows (h_lp s')) (chg_row_positions s' (i + 1))),
           chg_nchg := chg_nchg b' + int (length (chg_row_positions s' (i + 1)))\<rparr>"
        unfolding s'_def b'_def c_def
        by (rule "1.IH"(1) [OF True refl refl])
           (insert p, simp add: c_def row_sides_pending_def)
      have l: "h_lp s' = h_lp s"
        by (simp add: s'_def)
      have v: "row_lpipos (h_rows s' x) = row_lpipos (h_rows s x)"
        "row_lhs (h_rows s' x) = row_lhs (h_rows s x)"
        "row_rhs (h_rows s' x) = row_rhs (h_rows s x)"
        "row_constant (h_rows s' x) = row_constant (h_rows s x)" for x
        by (simp_all add: s'_def)
      have pc: "row_sides_pending s' x \<longleftrightarrow> x \<noteq> lp_chgrows (h_lp s) i \<and> row_sides_pending s x" for x
        by (simp add: s'_def c_def row_sides_pending_def)
      have ps: "chg_row_positions s i = i # chg_row_positions s' (i + 1)"
        using True p l pc by (intro chg_row_positions_send) (simp_all add: c_def)
      show ?thesis
        unfolding e ih ps
        by (simp add: l v b'_def c_def lpi_lhs_def lpi_rhs_def)
    qed
  qed
qed

lemma lpFlushChgRows_calls:
  "lp_lpicalls (h_lp (snd (lpFlushChgRows lpi st s))) = lp_lpicalls (h_lp s) @ chg_rows_calls lpi st s"
proof (cases "lp_nchgrows (h_lp s) = 0")
  case True
  then show ?thesis
    by (simp add: lpFlushChgRows_def chg_rows_calls_def chg_row_positions_def)
next
  case False
  obtain s1 b where l: "lpFlushChgRows_loop lpi st 0 empty_chgbuf s = (s1, b)"
    by (cases "lpFlushChgRows_loop lpi st 0 empty_chgbuf s")
  have h: "h_lp s1 = h_lp s"
    using lpFlushChgRows_loop_lp [of lpi st 0 empty_chgbuf s] l by simp
  have b: "chg_ind b = map (\<lambda>c. row_lpipos (h_rows s c))
                                 (map (lp_chgrows (h_lp s)) (chg_row_positions s 0))"
    "chg_lb b = map (\<lambda>c. lpi_lhs lpi st (h_rows s c))
                                 (map (lp_chgrows (h_lp s)) (chg_row_positions s 0))"
    "chg_ub b = map (\<lambda>c. lpi_rhs lpi st (h_rows s c))
                                 (map (lp_chgrows (h_lp s)) (chg_row_positions s 0))"
    "chg_nchg b = int (length (chg_row_positions s 0))"
    using lpFlushChgRows_loop_buf [of lpi st 0 empty_chgbuf s] l
    by (simp_all add: empty_chgbuf_def)
  show ?thesis
    using False l h b
    by (simp add: lpFlushChgRows_def chg_rows_calls_def Let_def lpi_call_def)
qed

text \<open>
  What the addition of columns reads: the columns of the LP, of every column its
  variable and its entries, and of every row the position in the solver. \<open>cols_view s s'\<close>
  says that \<open>s'\<close> agrees with \<open>s\<close> on these; \<open>rows_view\<close> is the same for the addition
  of rows.
\<close>

definition cols_view :: "STATE \<Rightarrow> STATE \<Rightarrow> bool" where
  "cols_view s s' \<longleftrightarrow>
     lp_cols (h_lp s') = lp_cols (h_lp s) \<and> lp_ncols (h_lp s') = lp_ncols (h_lp s)
     \<and> (\<forall>c. col_var (h_cols s' c) = col_var (h_cols s c)
            \<and> col_rows (h_cols s' c) = col_rows (h_cols s c)
            \<and> col_vals (h_cols s' c) = col_vals (h_cols s c)
            \<and> col_len (h_cols s' c) = col_len (h_cols s c))
     \<and> (\<forall>r. row_lpipos (h_rows s' r) = row_lpipos (h_rows s r))"

definition rows_view :: "STATE \<Rightarrow> STATE \<Rightarrow> bool" where
  "rows_view s s' \<longleftrightarrow>
     lp_rows (h_lp s') = lp_rows (h_lp s) \<and> lp_nrows (h_lp s') = lp_nrows (h_lp s)
     \<and> (\<forall>r. row_lhs (h_rows s' r) = row_lhs (h_rows s r)
            \<and> row_rhs (h_rows s' r) = row_rhs (h_rows s r)
            \<and> row_constant (h_rows s' r) = row_constant (h_rows s r)
            \<and> row_cols (h_rows s' r) = row_cols (h_rows s r)
            \<and> row_vals (h_rows s' r) = row_vals (h_rows s r)
            \<and> row_len (h_rows s' r) = row_len (h_rows s r))
     \<and> (\<forall>c. col_lpipos (h_cols s' c) = col_lpipos (h_cols s c))"

lemma cols_view_refl [simp]: "cols_view s s"
  by (simp add: cols_view_def)

lemma rows_view_refl [simp]: "rows_view s s"
  by (simp add: rows_view_def)

lemma cols_view_trans: "cols_view s s1 \<Longrightarrow> cols_view s1 s2 \<Longrightarrow> cols_view s s2"
  by (simp add: cols_view_def)

lemma rows_view_trans: "rows_view s s1 \<Longrightarrow> rows_view s1 s2 \<Longrightarrow> rows_view s s2"
  by (simp add: rows_view_def)

lemma coefChanged_cols_view: "cols_view s (coefChanged r c s)"
  by (simp add: cols_view_def coefChanged_def Let_def)

lemma coefChanged_rows_view: "rows_view s (coefChanged r c s)"
  by (simp add: rows_view_def coefChanged_def Let_def)

lemma coefChanged_cols_view': "cols_view s s' \<Longrightarrow> cols_view s (coefChanged r c s')"
  using coefChanged_cols_view cols_view_trans by blast

lemma coefChanged_rows_view': "rows_view s s' \<Longrightarrow> rows_view s (coefChanged r c s')"
  using coefChanged_rows_view rows_view_trans by blast

lemma store_ref_cols_view: "cols_view s (store_ref p v s)"
  by (cases p) (simp_all add: cols_view_def)

lemma store_ref_rows_view: "rows_view s (store_ref p v s)"
  by (cases p) (simp_all add: rows_view_def)

lemma store_ref_row_lpipos [simp]:
  "row_lpipos (h_rows (store_ref p v s) r) = row_lpipos (h_rows s r)"
  by (cases p) simp_all

lemma store_ref_h_cols_view [simp]:
  "col_var (h_cols (store_ref p v s) c) = col_var (h_cols s c)"
  "col_rows (h_cols (store_ref p v s) c) = col_rows (h_cols s c)"
  "col_vals (h_cols (store_ref p v s) c) = col_vals (h_cols s c)"
  "col_lpipos (h_cols (store_ref p v s) c) = col_lpipos (h_cols s c)"
  by (cases p; simp)+

lemma store_ref_h_rows_view [simp]:
  "row_lhs (h_rows (store_ref p v s) r) = row_lhs (h_rows s r)"
  "row_rhs (h_rows (store_ref p v s) r) = row_rhs (h_rows s r)"
  "row_constant (h_rows (store_ref p v s) r) = row_constant (h_rows s r)"
  "row_cols (h_rows (store_ref p v s) r) = row_cols (h_rows s r)"
  "row_vals (h_rows (store_ref p v s) r) = row_vals (h_rows s r)"
  by (cases p; simp)+

lemma rowAddCoeff_cols_view: "cols_view s (snd (rowAddCoeff st r c val lpos cpos s))"
  apply (simp add: rowAddCoeff_def Let_def)
  apply (intro conjI impI coefChanged_cols_view')
  apply (simp_all add: cols_view_def)
  done

lemma colAddCoeff_rows_view: "rows_view s (snd (colAddCoeff c r val lpos rpos s))"
  apply (simp add: colAddCoeff_def Let_def)
  apply (intro conjI impI coefChanged_rows_view')
  apply (simp_all add: rows_view_def)
  done

lemma colLink_loop_cols_view: "cols_view s (snd (colLink_loop st c i s))"
proof (induction st c i s rule: colLink_loop.induct)
  case (1 st c i s)
  have u: "cols_view x (upd_col c (\<lambda>col. col\<lparr>col_nunlinked := col_nunlinked col - 1\<rparr>) x)" for x
    by (simp add: cols_view_def)
  show ?case
    apply (subst colLink_loop.simps)
    using "1.IH"(1) [OF _ _ refl] "1.IH"(2)
      rowAddCoeff_cols_view [of s st "col_rows (h_cols s c) i" c "col_vals (h_cols s c) i" i "ColLinkposRef c i"]
      u
    by (auto simp: Let_def intro: cols_view_trans)
qed

lemma rowLink_loop_rows_view: "rows_view s (snd (rowLink_loop r i s))"
proof (induction r i s rule: rowLink_loop.induct)
  case (1 r i s)
  have u: "rows_view x (upd_row r (\<lambda>row. row\<lparr>row_nunlinked := row_nunlinked row - 1\<rparr>) x)" for x
    by (simp add: rows_view_def)
  show ?case
    apply (subst rowLink_loop.simps)
    using "1.IH"(1) [OF _ _ refl] "1.IH"(2)
      colAddCoeff_rows_view [of s "row_cols (h_rows s r) i" r "row_vals (h_rows s r) i" i "RowLinkposRef r i"]
      u
    by (auto simp: Let_def intro: rows_view_trans)
qed

lemma colLink_cols_view: "cols_view s (snd (colLink st c s))"
  by (simp add: colLink_def colLink_loop_cols_view)

lemma rowLink_rows_view: "rows_view s (snd (rowLink r s))"
  by (simp add: rowLink_def rowLink_loop_rows_view)

text \<open>
  Steps 5 and 6 in the words of the spec. Of a new column the solver gets the positions
  and the values of the entries whose row is resident (\<open>col_resident_entries\<close>), and
  nothing of the other entries. The new columns are those of the LP from position
  \<open>nlpicols\<close> on. Their entries are sent in one array each for positions and values,
  column after column; \<open>sent_beg\<close> gives where the entries of each column start.
\<close>

definition col_sent_ind :: "STATE \<Rightarrow> colptr \<Rightarrow> int list" where
  "col_sent_ind s c =
     map (\<lambda>j. row_lpipos (h_rows s (col_rows (h_cols s c) j))) (col_resident_entries s c 0)"

definition col_sent_val :: "STATE \<Rightarrow> colptr \<Rightarrow> real list" where
  "col_sent_val s c = map (col_vals (h_cols s c)) (col_resident_entries s c 0)"

definition row_sent_ind :: "STATE \<Rightarrow> rowptr \<Rightarrow> int list" where
  "row_sent_ind s r =
     map (\<lambda>j. col_lpipos (h_cols s (row_cols (h_rows s r) j))) (row_resident_entries s r 0)"

definition row_sent_val :: "STATE \<Rightarrow> rowptr \<Rightarrow> real list" where
  "row_sent_val s r = map (row_vals (h_rows s r)) (row_resident_entries s r 0)"

fun sent_beg :: "int \<Rightarrow> 'a list list \<Rightarrow> int list" where
  "sent_beg n [] = []"
| "sent_beg n (xs # xss) = n # sent_beg (n + int (length xs)) xss"

definition new_cols :: "STATE \<Rightarrow> colptr list" where
  "new_cols s = map (lp_cols (h_lp s)) [lp_nlpicols (h_lp s)..lp_ncols (h_lp s) - 1]"

definition new_rows :: "STATE \<Rightarrow> rowptr list" where
  "new_rows s = map (lp_rows (h_lp s)) [lp_nlpirows (h_lp s)..lp_nrows (h_lp s) - 1]"

definition add_cols_calls :: "LPI \<Rightarrow> SET \<Rightarrow> STATE \<Rightarrow> LPICALL list" where
  "add_cols_calls lpi st s =
     (if lp_ncols (h_lp s) = lp_nlpicols (h_lp s) then []
      else [LpiAddCols (lp_ncols (h_lp s) - lp_nlpicols (h_lp s))
              (map (\<lambda>c. var_obj (col_var (h_cols s c))) (new_cols s))
              (map (\<lambda>c. lpi_lower lpi st (var_lb (col_var (h_cols s c)))) (new_cols s))
              (map (\<lambda>c. lpi_upper lpi st (var_ub (col_var (h_cols s c)))) (new_cols s))
              (int (length (concat (map (col_sent_ind s) (new_cols s)))))
              (sent_beg 0 (map (col_sent_ind s) (new_cols s)))
              (concat (map (col_sent_ind s) (new_cols s)))
              (concat (map (col_sent_val s) (new_cols s)))])"

definition add_rows_calls :: "LPI \<Rightarrow> SET \<Rightarrow> STATE \<Rightarrow> LPICALL list" where
  "add_rows_calls lpi st s =
     (if lp_nrows (h_lp s) = lp_nlpirows (h_lp s) then []
      else [LpiAddRows (lp_nrows (h_lp s) - lp_nlpirows (h_lp s))
              (map (\<lambda>r. lpi_lhs lpi st (h_rows s r)) (new_rows s))
              (map (\<lambda>r. lpi_rhs lpi st (h_rows s r)) (new_rows s))
              (int (length (concat (map (row_sent_ind s) (new_rows s)))))
              (sent_beg 0 (map (row_sent_ind s) (new_rows s)))
              (concat (map (row_sent_ind s) (new_rows s)))
              (concat (map (row_sent_val s) (new_rows s)))])"

lemma cols_view_sent:
  assumes "cols_view s s'"
  shows "col_sent_ind s' c = col_sent_ind s c" "col_sent_val s' c = col_sent_val s c"
    "col_resident_entries s' c i = col_resident_entries s c i"
  using assms
  by (simp_all add: cols_view_def col_sent_ind_def col_sent_val_def col_resident_entries_def)

lemma rows_view_sent:
  assumes "rows_view s s'"
  shows "row_sent_ind s' r = row_sent_ind s r" "row_sent_val s' r = row_sent_val s r"
    "row_resident_entries s' r i = row_resident_entries s r i"
  using assms
  by (simp_all add: rows_view_def row_sent_ind_def row_sent_val_def row_resident_entries_def)

lemma lpFlushAddCols_loop_buf:
  assumes "cols_view s0 s" "fst (lpFlushAddCols_loop lpi st c b s) = SCIP_OKAY"
  shows "snd (snd (lpFlushAddCols_loop lpi st c b s)) =
     b\<lparr>buf_obj := buf_obj b @ map (\<lambda>x. var_obj (col_var (h_cols s0 x)))
                                 (map (lp_cols (h_lp s0)) [c..lp_ncols (h_lp s0) - 1]),
       buf_lb := buf_lb b @ map (\<lambda>x. lpi_lower lpi st (var_lb (col_var (h_cols s0 x))))
                                 (map (lp_cols (h_lp s0)) [c..lp_ncols (h_lp s0) - 1]),
       buf_ub := buf_ub b @ map (\<lambda>x. lpi_upper lpi st (var_ub (col_var (h_cols s0 x))))
                                 (map (lp_cols (h_lp s0)) [c..lp_ncols (h_lp s0) - 1]),
       buf_beg := buf_beg b @ sent_beg (buf_nnonz b)
                    (map (col_sent_ind s0) (map (lp_cols (h_lp s0)) [c..lp_ncols (h_lp s0) - 1])),
       buf_ind := buf_ind b @ concat
                    (map (col_sent_ind s0) (map (lp_cols (h_lp s0)) [c..lp_ncols (h_lp s0) - 1])),
       buf_val := buf_val b @ concat
                    (map (col_sent_val s0) (map (lp_cols (h_lp s0)) [c..lp_ncols (h_lp s0) - 1])),
       buf_nnonz := buf_nnonz b + int (length (concat
                    (map (col_sent_ind s0) (map (lp_cols (h_lp s0)) [c..lp_ncols (h_lp s0) - 1]))))\<rparr>"
  using assms
proof (induction lpi st c b s rule: lpFlushAddCols_loop.induct)
  case (1 lpi st c b s)
  note V = "1.prems"(1)
  have n: "lp_ncols (h_lp s) = lp_ncols (h_lp s0)" and lc: "lp_cols (h_lp s) = lp_cols (h_lp s0)"
    using V by (simp_all add: cols_view_def)
  show ?case
  proof (cases "c < lp_ncols (h_lp s)")
    case False
    then show ?thesis
      using n by (subst lpFlushAddCols_loop.simps) simp
  next
    case True
    define col where "col = lp_cols (h_lp s) c"
    define res where "res = colLink st col s"
    have ok: "\<not> fst res \<noteq> SCIP_OKAY"
    proof
      assume "fst res \<noteq> SCIP_OKAY"
      then have "fst (lpFlushAddCols_loop lpi st c b s) \<noteq> SCIP_OKAY"
        using True
        by (subst lpFlushAddCols_loop.simps) (simp add: Let_def res_def col_def)
      then show False
        using "1.prems"(2) by simp
    qed
    define s1 where "s1 = upd_lp (\<lambda>l. l\<lparr>lp_lpicols := (lp_lpicols l)(c := col)\<rparr>) (snd res)"
    define s2 where "s2 = upd_col col (\<lambda>x. x\<lparr>col_lpipos := c, col_primsol := SCIP_INVALID,
                           col_redcost := SCIP_INVALID, col_farkas := SCIP_INVALID,
                           col_strongdown := SCIP_INVALID, col_strongup := SCIP_INVALID,
                           col_validredcostlp := - 1, col_validfarkaslp := - 1,
                           col_strongitlim := - 1, col_lbchanged := False,
                           col_ubchanged := False, col_coefchanged := False\<rparr>) s1"
    define var where "var = col_var (h_cols s2 col)"
    define b1 where "b1 = b\<lparr>buf_obj := buf_obj b @ [var_obj var],
                          buf_lb := buf_lb b @ [if SCIPsetIsInfinity st (- var_lb var)
                                                then - SCIPlpiInfinity lpi else var_lb var],
                          buf_ub := buf_ub b @ [if SCIPsetIsInfinity st (var_ub var)
                                                then SCIPlpiInfinity lpi else var_ub var],
                          buf_beg := buf_beg b @ [buf_nnonz b]\<rparr>"
    define b2 where "b2 = lpFlushAddCols_coefs s2 col 0 b1"
    have step: "lpFlushAddCols_loop lpi st c b s = lpFlushAddCols_loop lpi st (c + 1) b2 s2"
      unfolding b2_def b1_def var_def s2_def s1_def
      by (subst lpFlushAddCols_loop.simps)
         (simp only: Let_def True ok [unfolded res_def col_def] if_True if_False
            res_def col_def)
    have V1: "cols_view s (snd res)"
      unfolding res_def by (rule colLink_cols_view)
    have V2: "cols_view (snd res) s2"
      by (simp add: cols_view_def s2_def s1_def)
    have V': "cols_view s0 s2"
      using V V1 V2 cols_view_trans by blast
    have ok': "fst (lpFlushAddCols_loop lpi st (c + 1) b2 s2) = SCIP_OKAY"
      using "1.prems"(2) step by simp
    have ih: "snd (snd (lpFlushAddCols_loop lpi st (c + 1) b2 s2)) =
     b2\<lparr>buf_obj := buf_obj b2 @ map (\<lambda>x. var_obj (col_var (h_cols s0 x)))
                                 (map (lp_cols (h_lp s0)) [c + 1..lp_ncols (h_lp s0) - 1]),
       buf_lb := buf_lb b2 @ map (\<lambda>x. lpi_lower lpi st (var_lb (col_var (h_cols s0 x))))
                                 (map (lp_cols (h_lp s0)) [c + 1..lp_ncols (h_lp s0) - 1]),
       buf_ub := buf_ub b2 @ map (\<lambda>x. lpi_upper lpi st (var_ub (col_var (h_cols s0 x))))
                                 (map (lp_cols (h_lp s0)) [c + 1..lp_ncols (h_lp s0) - 1]),
       buf_beg := buf_beg b2 @ sent_beg (buf_nnonz b2)
                    (map (col_sent_ind s0) (map (lp_cols (h_lp s0)) [c + 1..lp_ncols (h_lp s0) - 1])),
       buf_ind := buf_ind b2 @ concat
                    (map (col_sent_ind s0) (map (lp_cols (h_lp s0)) [c + 1..lp_ncols (h_lp s0) - 1])),
       buf_val := buf_val b2 @ concat
                    (map (col_sent_val s0) (map (lp_cols (h_lp s0)) [c + 1..lp_ncols (h_lp s0) - 1])),
       buf_nnonz := buf_nnonz b2 + int (length (concat
                    (map (col_sent_ind s0) (map (lp_cols (h_lp s0)) [c + 1..lp_ncols (h_lp s0) - 1]))))\<rparr>"
      using V' ok'
      unfolding b2_def b1_def var_def s2_def s1_def res_def col_def
      by (rule "1.IH" [OF True refl refl ok [unfolded res_def col_def] refl refl refl refl refl])
    have u: "[c..lp_ncols (h_lp s0) - 1] = c # [c + 1..lp_ncols (h_lp s0) - 1]"
      using True n by (simp add: upto_rec1)
    have cv: "col_var (h_cols s2 col) = col_var (h_cols s0 col)"
      using V' by (simp add: cols_view_def)
    have b2: "b2 = b1\<lparr>buf_ind := buf_ind b1 @ col_sent_ind s0 col,
                     buf_val := buf_val b1 @ col_sent_val s0 col,
                     buf_nnonz := buf_nnonz b1 + int (length (col_sent_ind s0 col))\<rparr>"
      unfolding b2_def lpFlushAddCols_coefs_eq
      using cols_view_sent(1,2) [OF V', of col] cols_view_sent(3) [OF V', of col 0]
      by (simp add: col_sent_ind_def col_sent_val_def)
    show ?thesis
      unfolding step ih u
      by (simp add: b2 b1_def var_def cv lc [symmetric] col_def [symmetric]
            lpi_lower_def lpi_upper_def)
  qed
qed

lemma lpFlushAddRows_loop_buf:
  assumes "rows_view s0 s" "fst (lpFlushAddRows_loop lpi st r b s) = SCIP_OKAY"
  shows "snd (snd (lpFlushAddRows_loop lpi st r b s)) =
     b\<lparr>buf_lb := buf_lb b @ map (\<lambda>x. lpi_lhs lpi st (h_rows s0 x))
                                 (map (lp_rows (h_lp s0)) [r..lp_nrows (h_lp s0) - 1]),
       buf_ub := buf_ub b @ map (\<lambda>x. lpi_rhs lpi st (h_rows s0 x))
                                 (map (lp_rows (h_lp s0)) [r..lp_nrows (h_lp s0) - 1]),
       buf_beg := buf_beg b @ sent_beg (buf_nnonz b)
                    (map (row_sent_ind s0) (map (lp_rows (h_lp s0)) [r..lp_nrows (h_lp s0) - 1])),
       buf_ind := buf_ind b @ concat
                    (map (row_sent_ind s0) (map (lp_rows (h_lp s0)) [r..lp_nrows (h_lp s0) - 1])),
       buf_val := buf_val b @ concat
                    (map (row_sent_val s0) (map (lp_rows (h_lp s0)) [r..lp_nrows (h_lp s0) - 1])),
       buf_nnonz := buf_nnonz b + int (length (concat
                    (map (row_sent_ind s0) (map (lp_rows (h_lp s0)) [r..lp_nrows (h_lp s0) - 1]))))\<rparr>"
  using assms
proof (induction lpi st r b s rule: lpFlushAddRows_loop.induct)
  case (1 lpi st r b s)
  note V = "1.prems"(1)
  have n: "lp_nrows (h_lp s) = lp_nrows (h_lp s0)" and lc: "lp_rows (h_lp s) = lp_rows (h_lp s0)"
    using V by (simp_all add: rows_view_def)
  show ?case
  proof (cases "r < lp_nrows (h_lp s)")
    case False
    then show ?thesis
      using n by (subst lpFlushAddRows_loop.simps) simp
  next
    case True
    define row where "row = lp_rows (h_lp s) r"
    define res where "res = rowLink row s"
    have ok: "\<not> fst res \<noteq> SCIP_OKAY"
    proof
      assume "fst res \<noteq> SCIP_OKAY"
      then have "fst (lpFlushAddRows_loop lpi st r b s) \<noteq> SCIP_OKAY"
        using True
        by (subst lpFlushAddRows_loop.simps) (simp add: Let_def res_def row_def)
      then show False
        using "1.prems"(2) by simp
    qed
    define s1 where "s1 = upd_lp (\<lambda>l. l\<lparr>lp_lpirows := (lp_lpirows l)(r := row)\<rparr>) (snd res)"
    define s2 where "s2 = upd_row row (\<lambda>x. x\<lparr>row_lpipos := r, row_dualsol := SCIP_INVALID,
                           row_activity := SCIP_INVALID, row_dualfarkas := SCIP_INVALID,
                           row_validactivitylp := - 1, row_lhschanged := False,
                           row_rhschanged := False, row_coefchanged := False\<rparr>) s1"
    define x where "x = h_rows s2 row"
    define b1 where "b1 = b\<lparr>buf_lb := buf_lb b @ [if SCIPsetIsInfinity st (- row_lhs x)
                                                then - SCIPlpiInfinity lpi
                                                else row_lhs x + row_constant x],
                          buf_ub := buf_ub b @ [if SCIPsetIsInfinity st (row_rhs x)
                                                then SCIPlpiInfinity lpi
                                                else row_rhs x + row_constant x],
                          buf_beg := buf_beg b @ [buf_nnonz b]\<rparr>"
    define b2 where "b2 = lpFlushAddRows_coefs s2 row 0 b1"
    have step: "lpFlushAddRows_loop lpi st r b s = lpFlushAddRows_loop lpi st (r + 1) b2 s2"
      unfolding b2_def b1_def x_def s2_def s1_def
      by (subst lpFlushAddRows_loop.simps)
         (simp only: Let_def True ok [unfolded res_def row_def] if_True if_False
            res_def row_def)
    have V1: "rows_view s (snd res)"
      unfolding res_def by (rule rowLink_rows_view)
    have V2: "rows_view (snd res) s2"
      by (simp add: rows_view_def s2_def s1_def)
    have V': "rows_view s0 s2"
      using V V1 V2 rows_view_trans by blast
    have ok': "fst (lpFlushAddRows_loop lpi st (r + 1) b2 s2) = SCIP_OKAY"
      using "1.prems"(2) step by simp
    have ih: "snd (snd (lpFlushAddRows_loop lpi st (r + 1) b2 s2)) =
     b2\<lparr>buf_lb := buf_lb b2 @ map (\<lambda>x. lpi_lhs lpi st (h_rows s0 x))
                                 (map (lp_rows (h_lp s0)) [r + 1..lp_nrows (h_lp s0) - 1]),
       buf_ub := buf_ub b2 @ map (\<lambda>x. lpi_rhs lpi st (h_rows s0 x))
                                 (map (lp_rows (h_lp s0)) [r + 1..lp_nrows (h_lp s0) - 1]),
       buf_beg := buf_beg b2 @ sent_beg (buf_nnonz b2)
                    (map (row_sent_ind s0) (map (lp_rows (h_lp s0)) [r + 1..lp_nrows (h_lp s0) - 1])),
       buf_ind := buf_ind b2 @ concat
                    (map (row_sent_ind s0) (map (lp_rows (h_lp s0)) [r + 1..lp_nrows (h_lp s0) - 1])),
       buf_val := buf_val b2 @ concat
                    (map (row_sent_val s0) (map (lp_rows (h_lp s0)) [r + 1..lp_nrows (h_lp s0) - 1])),
       buf_nnonz := buf_nnonz b2 + int (length (concat
                    (map (row_sent_ind s0) (map (lp_rows (h_lp s0)) [r + 1..lp_nrows (h_lp s0) - 1]))))\<rparr>"
      using V' ok'
      unfolding b2_def b1_def x_def s2_def s1_def res_def row_def
      by (rule "1.IH" [OF True refl refl ok [unfolded res_def row_def] refl refl refl refl refl])
    have u: "[r..lp_nrows (h_lp s0) - 1] = r # [r + 1..lp_nrows (h_lp s0) - 1]"
      using True n by (simp add: upto_rec1)
    have cv: "row_lhs x = row_lhs (h_rows s0 row)" "row_rhs x = row_rhs (h_rows s0 row)"
      "row_constant x = row_constant (h_rows s0 row)"
      using V' by (simp_all add: rows_view_def x_def)
    have b2: "b2 = b1\<lparr>buf_ind := buf_ind b1 @ row_sent_ind s0 row,
                     buf_val := buf_val b1 @ row_sent_val s0 row,
                     buf_nnonz := buf_nnonz b1 + int (length (row_sent_ind s0 row))\<rparr>"
      unfolding b2_def lpFlushAddRows_coefs_eq
      using rows_view_sent(1,2) [OF V', of row] rows_view_sent(3) [OF V', of row 0]
      by (simp add: row_sent_ind_def row_sent_val_def)
    show ?thesis
      unfolding step ih u
      by (simp add: b2 b1_def cv lc [symmetric] row_def [symmetric] lpi_lhs_def lpi_rhs_def)
  qed
qed

lemma lpFlushAddCols_calls:
  assumes "fst (lpFlushAddCols lpi st s) = SCIP_OKAY"
  shows "lp_lpicalls (h_lp (snd (lpFlushAddCols lpi st s)))
           = lp_lpicalls (h_lp s) @ add_cols_calls lpi st s"
proof (cases "lp_ncols (h_lp s) = lp_nlpicols (h_lp s)")
  case True
  then show ?thesis
    by (simp add: lpFlushAddCols_def add_cols_calls_def)
next
  case False
  obtain rc s1 b where l:
    "lpFlushAddCols_loop lpi st (lp_nlpicols (h_lp s)) empty_buf s = (rc, s1, b)"
    by (cases "lpFlushAddCols_loop lpi st (lp_nlpicols (h_lp s)) empty_buf s")
  have rc: "rc = SCIP_OKAY"
    using assms False l by (auto simp: lpFlushAddCols_def Let_def split: if_splits)
  have "\<forall>x \<in> set (buf_ind empty_buf). 0 \<le> x"
    by (simp add: empty_buf_def)
  from lpFlushAddCols_loop_lp [OF this, of lpi st "lp_nlpicols (h_lp s)" s] l
  have f: "lp_lpicalls (h_lp s1) = lp_lpicalls (h_lp s)"
    by simp
  have "fst (lpFlushAddCols_loop lpi st (lp_nlpicols (h_lp s)) empty_buf s) = SCIP_OKAY"
    using l rc by simp
  from lpFlushAddCols_loop_buf [OF cols_view_refl this] l
  have b: "buf_obj b = map (\<lambda>c. var_obj (col_var (h_cols s c))) (new_cols s)"
    "buf_lb b = map (\<lambda>c. lpi_lower lpi st (var_lb (col_var (h_cols s c)))) (new_cols s)"
    "buf_ub b = map (\<lambda>c. lpi_upper lpi st (var_ub (col_var (h_cols s c)))) (new_cols s)"
    "buf_nnonz b = int (length (concat (map (col_sent_ind s) (new_cols s))))"
    "buf_beg b = sent_beg 0 (map (col_sent_ind s) (new_cols s))"
    "buf_ind b = concat (map (col_sent_ind s) (new_cols s))"
    "buf_val b = concat (map (col_sent_val s) (new_cols s))"
    by (simp_all add: empty_buf_def new_cols_def)
  show ?thesis
    using False rc f
    by (simp add: lpFlushAddCols_def l Let_def lpi_call_def add_cols_calls_def b)
qed

lemma lpFlushAddRows_calls:
  assumes "fst (lpFlushAddRows lpi st s) = SCIP_OKAY"
  shows "lp_lpicalls (h_lp (snd (lpFlushAddRows lpi st s)))
           = lp_lpicalls (h_lp s) @ add_rows_calls lpi st s"
proof (cases "lp_nrows (h_lp s) = lp_nlpirows (h_lp s)")
  case True
  then show ?thesis
    by (simp add: lpFlushAddRows_def add_rows_calls_def)
next
  case False
  obtain rc s1 b where l:
    "lpFlushAddRows_loop lpi st (lp_nlpirows (h_lp s)) empty_buf s = (rc, s1, b)"
    by (cases "lpFlushAddRows_loop lpi st (lp_nlpirows (h_lp s)) empty_buf s")
  have rc: "rc = SCIP_OKAY"
    using assms False l by (auto simp: lpFlushAddRows_def Let_def split: if_splits)
  have "\<forall>x \<in> set (buf_ind empty_buf). 0 \<le> x"
    by (simp add: empty_buf_def)
  from lpFlushAddRows_loop_lp [OF this, of lpi st "lp_nlpirows (h_lp s)" s] l
  have f: "lp_lpicalls (h_lp s1) = lp_lpicalls (h_lp s)"
    by simp
  have "fst (lpFlushAddRows_loop lpi st (lp_nlpirows (h_lp s)) empty_buf s) = SCIP_OKAY"
    using l rc by simp
  from lpFlushAddRows_loop_buf [OF rows_view_refl this] l
  have b: "buf_lb b = map (\<lambda>r. lpi_lhs lpi st (h_rows s r)) (new_rows s)"
    "buf_ub b = map (\<lambda>r. lpi_rhs lpi st (h_rows s r)) (new_rows s)"
    "buf_nnonz b = int (length (concat (map (row_sent_ind s) (new_rows s))))"
    "buf_beg b = sent_beg 0 (map (row_sent_ind s) (new_rows s))"
    "buf_ind b = concat (map (row_sent_ind s) (new_rows s))"
    "buf_val b = concat (map (row_sent_val s) (new_rows s))"
    by (simp_all add: empty_buf_def new_rows_def)
  show ?thesis
    using False rc f
    by (simp add: lpFlushAddRows_def l Let_def lpi_call_def add_rows_calls_def b)
qed

text \<open>What the two deleting steps do to the LP data, the columns and the rows.\<close>

lemma lpFlushDelCols_loop_rows [simp]: "h_rows (lpFlushDelCols_loop i s) = h_rows s"
proof (induction i s rule: lpFlushDelCols_loop.induct)
  case (1 i s)
  show ?case
    apply (subst lpFlushDelCols_loop.simps)
    using "1.IH" by auto
qed

lemma lpFlushDelRows_loop_cols [simp]: "h_cols (lpFlushDelRows_loop i s) = h_cols s"
proof (induction i s rule: lpFlushDelRows_loop.induct)
  case (1 i s)
  show ?case
    apply (subst lpFlushDelRows_loop.simps)
    using "1.IH" by auto
qed

lemma lpFlushDelCols_loop_lpipos:
  "col_lpipos (h_cols (lpFlushDelCols_loop i s) c) =
     (if c \<in> lp_lpicols (h_lp s) ` {i..<lp_nlpicols (h_lp s)} then - 1
      else col_lpipos (h_cols s c))"
proof (induction i s rule: lpFlushDelCols_loop.induct)
  case (1 i s)
  show ?case
  proof (cases "i < lp_nlpicols (h_lp s)")
    case False
    then show ?thesis
      by (subst lpFlushDelCols_loop.simps) simp
  next
    case True
    then have e: "{i..<lp_nlpicols (h_lp s)} = insert i {i + 1..<lp_nlpicols (h_lp s)}"
      by auto
    show ?thesis
      apply (subst lpFlushDelCols_loop.simps)
      using True "1.IH" [OF True] by (auto simp: e)
  qed
qed

lemma lpFlushDelRows_loop_lpipos:
  "row_lpipos (h_rows (lpFlushDelRows_loop i s) r) =
     (if r \<in> lp_lpirows (h_lp s) ` {i..<lp_nlpirows (h_lp s)} then - 1
      else row_lpipos (h_rows s r))"
proof (induction i s rule: lpFlushDelRows_loop.induct)
  case (1 i s)
  show ?case
  proof (cases "i < lp_nlpirows (h_lp s)")
    case False
    then show ?thesis
      by (subst lpFlushDelRows_loop.simps) simp
  next
    case True
    then have e: "{i..<lp_nlpirows (h_lp s)} = insert i {i + 1..<lp_nlpirows (h_lp s)}"
      by auto
    show ?thesis
      apply (subst lpFlushDelRows_loop.simps)
      using True "1.IH" [OF True] by (auto simp: e)
  qed
qed

lemma lpFlushDelCols_lp:
  assumes "fst (lpFlushDelCols lpi s) = SCIP_OKAY"
  shows "h_lp (snd (lpFlushDelCols lpi s)) =
           (h_lp s)\<lparr>lp_lpifirstchgcol := unchanged_cols_end s,
                     lp_nlpicols := min (unchanged_cols_end s) (lp_nlpicols (h_lp s)),
                     lp_lpicalls := lp_lpicalls (h_lp s) @ del_cols_calls s\<rparr>"
    and "h_rows (snd (lpFlushDelCols lpi s)) = h_rows s"
    and "col_lpipos (h_cols (snd (lpFlushDelCols lpi s)) c) =
           (if c \<in> lp_lpicols (h_lp s) ` {unchanged_cols_end s..<lp_nlpicols (h_lp s)} then - 1
            else col_lpipos (h_cols s c))"
proof -
  define k where "k = unchanged_cols_end s"
  define s1 where "s1 = upd_lp (\<lambda>l. l\<lparr>lp_lpifirstchgcol := k\<rparr>) s"
  have f: "lpFlushDelCols_find s = s1"
    by (simp add: lpFlushDelCols_find_eq s1_def k_def)
  have rc: "lpi_retcode lpi (lp_lpicalls (h_lp s)) (LpiDelCols k (lp_nlpicols (h_lp s) - 1))
              = SCIP_OKAY" if "k < lp_nlpicols (h_lp s)"
  proof (rule ccontr)
    assume "lpi_retcode lpi (lp_lpicalls (h_lp s)) (LpiDelCols k (lp_nlpicols (h_lp s) - 1))
              \<noteq> SCIP_OKAY"
    then have "fst (lpFlushDelCols lpi s) \<noteq> SCIP_OKAY"
      using that by (simp add: lpFlushDelCols_def f Let_def s1_def lpi_call_def)
    then show False
      using assms by simp
  qed
  show "h_lp (snd (lpFlushDelCols lpi s)) =
           (h_lp s)\<lparr>lp_lpifirstchgcol := unchanged_cols_end s,
                     lp_nlpicols := min (unchanged_cols_end s) (lp_nlpicols (h_lp s)),
                     lp_lpicalls := lp_lpicalls (h_lp s) @ del_cols_calls s\<rparr>"
  proof (cases "k < lp_nlpicols (h_lp s)")
    case True
    then show ?thesis
      using rc
      by (simp add: lpFlushDelCols_def f Let_def s1_def lpi_call_def del_cols_calls_def
            k_def [symmetric] min_def)
  next
    case False
    then show ?thesis
      by (simp add: lpFlushDelCols_def f Let_def s1_def del_cols_calls_def
            k_def [symmetric] min_def)
  qed
  show "h_rows (snd (lpFlushDelCols lpi s)) = h_rows s"
    by (simp add: lpFlushDelCols_def f Let_def s1_def lpi_call_def)
  show "col_lpipos (h_cols (snd (lpFlushDelCols lpi s)) c) =
           (if c \<in> lp_lpicols (h_lp s) ` {unchanged_cols_end s..<lp_nlpicols (h_lp s)} then - 1
            else col_lpipos (h_cols s c))"
  proof (cases "k < lp_nlpicols (h_lp s)")
    case True
    then show ?thesis
      using rc
      by (simp add: lpFlushDelCols_def f Let_def s1_def lpi_call_def
            lpFlushDelCols_loop_lpipos k_def [symmetric])
  next
    case False
    then show ?thesis
      by (simp add: lpFlushDelCols_def f Let_def s1_def k_def [symmetric])
  qed
qed

lemma lpFlushDelRows_lp:
  assumes "fst (lpFlushDelRows lpi s) = SCIP_OKAY"
  shows "h_lp (snd (lpFlushDelRows lpi s)) =
           (h_lp s)\<lparr>lp_lpifirstchgrow := unchanged_rows_end s,
                     lp_nlpirows := min (unchanged_rows_end s) (lp_nlpirows (h_lp s)),
                     lp_lpicalls := lp_lpicalls (h_lp s) @ del_rows_calls s\<rparr>"
    and "h_cols (snd (lpFlushDelRows lpi s)) = h_cols s"
    and "row_lpipos (h_rows (snd (lpFlushDelRows lpi s)) r) =
           (if r \<in> lp_lpirows (h_lp s) ` {unchanged_rows_end s..<lp_nlpirows (h_lp s)} then - 1
            else row_lpipos (h_rows s r))"
proof -
  define k where "k = unchanged_rows_end s"
  define s1 where "s1 = upd_lp (\<lambda>l. l\<lparr>lp_lpifirstchgrow := k\<rparr>) s"
  have f: "lpFlushDelRows_find s = s1"
    by (simp add: lpFlushDelRows_find_eq s1_def k_def)
  have rc: "lpi_retcode lpi (lp_lpicalls (h_lp s)) (LpiDelRows k (lp_nlpirows (h_lp s) - 1))
              = SCIP_OKAY" if "k < lp_nlpirows (h_lp s)"
  proof (rule ccontr)
    assume "lpi_retcode lpi (lp_lpicalls (h_lp s)) (LpiDelRows k (lp_nlpirows (h_lp s) - 1))
              \<noteq> SCIP_OKAY"
    then have "fst (lpFlushDelRows lpi s) \<noteq> SCIP_OKAY"
      using that by (simp add: lpFlushDelRows_def f Let_def s1_def lpi_call_def)
    then show False
      using assms by simp
  qed
  show "h_lp (snd (lpFlushDelRows lpi s)) =
           (h_lp s)\<lparr>lp_lpifirstchgrow := unchanged_rows_end s,
                     lp_nlpirows := min (unchanged_rows_end s) (lp_nlpirows (h_lp s)),
                     lp_lpicalls := lp_lpicalls (h_lp s) @ del_rows_calls s\<rparr>"
  proof (cases "k < lp_nlpirows (h_lp s)")
    case True
    then show ?thesis
      using rc
      by (simp add: lpFlushDelRows_def f Let_def s1_def lpi_call_def del_rows_calls_def
            k_def [symmetric] min_def)
  next
    case False
    then show ?thesis
      by (simp add: lpFlushDelRows_def f Let_def s1_def del_rows_calls_def
            k_def [symmetric] min_def)
  qed
  show "h_cols (snd (lpFlushDelRows lpi s)) = h_cols s"
    by (simp add: lpFlushDelRows_def f Let_def s1_def lpi_call_def)
  show "row_lpipos (h_rows (snd (lpFlushDelRows lpi s)) r) =
           (if r \<in> lp_lpirows (h_lp s) ` {unchanged_rows_end s..<lp_nlpirows (h_lp s)} then - 1
            else row_lpipos (h_rows s r))"
  proof (cases "k < lp_nlpirows (h_lp s)")
    case True
    then show ?thesis
      using rc
      by (simp add: lpFlushDelRows_def f Let_def s1_def lpi_call_def
            lpFlushDelRows_loop_lpipos k_def [symmetric])
  next
    case False
    then show ?thesis
      by (simp add: lpFlushDelRows_def f Let_def s1_def k_def [symmetric])
  qed
qed


text \<open>The row deletion does not depend on the column deletion before it.\<close>

lemma del_rows_calls_cong:
  assumes "h_rows s' = h_rows s" "lp_rows (h_lp s') = lp_rows (h_lp s)"
    "lp_nrows (h_lp s') = lp_nrows (h_lp s)" "lp_nlpirows (h_lp s') = lp_nlpirows (h_lp s)"
    "lp_lpifirstchgrow (h_lp s') = lp_lpifirstchgrow (h_lp s)"
  shows "unchanged_rows_end s' = unchanged_rows_end s" "del_rows_calls s' = del_rows_calls s"
proof -
  have "row_unchanged s' = row_unchanged s"
    using assms by (intro row_unchanged_cong) simp_all
  then show "unchanged_rows_end s' = unchanged_rows_end s"
    using assms by (simp add: unchanged_rows_end_def)
  then show "del_rows_calls s' = del_rows_calls s"
    using assms by (simp add: del_rows_calls_def)
qed

lemma del_rows_calls_after_cols:
  assumes "fst (lpFlushDelCols lpi s) = SCIP_OKAY"
  shows "unchanged_rows_end (snd (lpFlushDelCols lpi s)) = unchanged_rows_end s"
    "del_rows_calls (snd (lpFlushDelCols lpi s)) = del_rows_calls s"
proof -
  note l = lpFlushDelCols_lp(1,2) [OF assms]
  show "unchanged_rows_end (snd (lpFlushDelCols lpi s)) = unchanged_rows_end s"
    by (rule del_rows_calls_cong(1)) (simp_all add: l)
  show "del_rows_calls (snd (lpFlushDelCols lpi s)) = del_rows_calls s"
    by (rule del_rows_calls_cong(2)) (simp_all add: l)
qed

text \<open>The two changing steps touch the change marks and the solver calls only.\<close>

lemma lpFlushChgCols_lp:
  assumes "fst (lpFlushChgCols lpi st s) = SCIP_OKAY"
  shows "h_lp (snd (lpFlushChgCols lpi st s)) =
           (h_lp s)\<lparr>lp_nchgcols := 0,
                     lp_lpicalls := lp_lpicalls (h_lp s) @ chg_cols_calls lpi st s\<rparr>"
proof (cases "lp_nchgcols (h_lp s) = 0")
  case True
  then have "chg_cols_calls lpi st s = []"
    by (simp add: chg_cols_calls_def chg_col_positions_def)
  then show ?thesis
    using True by (simp add: lpFlushChgCols_def)
next
  case False
  obtain s1 b where l: "lpFlushChgCols_loop lpi st 0 empty_chgbuf s = (s1, b)"
    by (cases "lpFlushChgCols_loop lpi st 0 empty_chgbuf s")
  have h: "h_lp s1 = h_lp s"
    using lpFlushChgCols_loop_lp [of lpi st 0 empty_chgbuf s] l by simp
  have c: "lp_lpicalls (h_lp (snd (lpFlushChgCols lpi st s)))
             = lp_lpicalls (h_lp s) @ chg_cols_calls lpi st s"
    by (rule lpFlushChgCols_calls)
  have "h_lp (snd (lpFlushChgCols lpi st s)) =
          (h_lp s)\<lparr>lp_nchgcols := 0,
                    lp_lpicalls := lp_lpicalls (h_lp (snd (lpFlushChgCols lpi st s)))\<rparr>"
    using assms False l h
    by (auto simp: lpFlushChgCols_def Let_def lpi_call_def split: if_splits)
  then show ?thesis
    using c by simp
qed

lemma lpFlushChgRows_lp:
  assumes "fst (lpFlushChgRows lpi st s) = SCIP_OKAY"
  shows "h_lp (snd (lpFlushChgRows lpi st s)) =
           (h_lp s)\<lparr>lp_nchgrows := 0,
                     lp_lpicalls := lp_lpicalls (h_lp s) @ chg_rows_calls lpi st s\<rparr>"
proof (cases "lp_nchgrows (h_lp s) = 0")
  case True
  then have "chg_rows_calls lpi st s = []"
    by (simp add: chg_rows_calls_def chg_row_positions_def)
  then show ?thesis
    using True by (simp add: lpFlushChgRows_def)
next
  case False
  obtain s1 b where l: "lpFlushChgRows_loop lpi st 0 empty_chgbuf s = (s1, b)"
    by (cases "lpFlushChgRows_loop lpi st 0 empty_chgbuf s")
  have h: "h_lp s1 = h_lp s"
    using lpFlushChgRows_loop_lp [of lpi st 0 empty_chgbuf s] l by simp
  have c: "lp_lpicalls (h_lp (snd (lpFlushChgRows lpi st s)))
             = lp_lpicalls (h_lp s) @ chg_rows_calls lpi st s"
    by (rule lpFlushChgRows_calls)
  have "h_lp (snd (lpFlushChgRows lpi st s)) =
          (h_lp s)\<lparr>lp_nchgrows := 0,
                    lp_lpicalls := lp_lpicalls (h_lp (snd (lpFlushChgRows lpi st s)))\<rparr>"
    using assms False l h
    by (auto simp: lpFlushChgRows_def Let_def lpi_call_def split: if_splits)
  then show ?thesis
    using c by simp
qed

text \<open>
  The two adding steps leave the arrays of the columns and rows of the LP and the
  numbers of columns and rows, in the LP and in the solver, as they are while they
  collect the data; the number of resident columns (rows) is set after the call.
\<close>

definition lp_sizes_eq :: "LP \<Rightarrow> LP \<Rightarrow> bool" where
  "lp_sizes_eq l l' \<longleftrightarrow>
     lp_cols l' = lp_cols l \<and> lp_rows l' = lp_rows l \<and>
     lp_ncols l' = lp_ncols l \<and> lp_nrows l' = lp_nrows l \<and>
     lp_nlpicols l' = lp_nlpicols l \<and> lp_nlpirows l' = lp_nlpirows l"

lemma lp_sizes_eq_refl [simp]: "lp_sizes_eq l l"
  by (simp add: lp_sizes_eq_def)

lemma lp_sizes_eq_trans: "lp_sizes_eq l l1 \<Longrightarrow> lp_sizes_eq l1 l2 \<Longrightarrow> lp_sizes_eq l l2"
  by (simp add: lp_sizes_eq_def)

lemma lp_frame_sizes: "lp_frame l l' \<Longrightarrow> lp_sizes_eq l l'"
  by (simp add: lp_frame_def lp_sizes_eq_def)

lemma lpFlushAddCols_loop_sizes:
  "lp_sizes_eq (h_lp s) (h_lp (fst (snd (lpFlushAddCols_loop lpi st c b s))))"
proof (induction lpi st c b s rule: lpFlushAddCols_loop.induct)
  case (1 lpi st c b s)
  show ?case
  proof (cases "c < lp_ncols (h_lp s)")
    case False
    then show ?thesis
      by (subst lpFlushAddCols_loop.simps) simp
  next
    case True
    define col where "col = lp_cols (h_lp s) c"
    define res where "res = colLink st col s"
    have fr: "lp_sizes_eq (h_lp s) (h_lp (snd res))"
      unfolding res_def by (rule lp_frame_sizes [OF colLink_lp_frame])
    show ?thesis
    proof (cases "fst res = SCIP_OKAY")
      case False
      then show ?thesis using True fr
        by (subst lpFlushAddCols_loop.simps) (simp add: Let_def res_def col_def)
    next
      case okay: True
      then have ok: "\<not> fst res \<noteq> SCIP_OKAY"
        by simp
      define s1 where "s1 = upd_lp (\<lambda>l. l\<lparr>lp_lpicols := (lp_lpicols l)(c := col)\<rparr>) (snd res)"
      define s2 where "s2 = upd_col col (\<lambda>x. x\<lparr>col_lpipos := c, col_primsol := SCIP_INVALID,
                           col_redcost := SCIP_INVALID, col_farkas := SCIP_INVALID,
                           col_strongdown := SCIP_INVALID, col_strongup := SCIP_INVALID,
                           col_validredcostlp := - 1, col_validfarkaslp := - 1,
                           col_strongitlim := - 1, col_lbchanged := False,
                           col_ubchanged := False, col_coefchanged := False\<rparr>) s1"
      define var where "var = col_var (h_cols s2 col)"
      define b1 where "b1 = b\<lparr>buf_obj := buf_obj b @ [var_obj var],
                          buf_lb := buf_lb b @ [if SCIPsetIsInfinity st (- var_lb var)
                                                then - SCIPlpiInfinity lpi else var_lb var],
                          buf_ub := buf_ub b @ [if SCIPsetIsInfinity st (var_ub var)
                                                then SCIPlpiInfinity lpi else var_ub var],
                          buf_beg := buf_beg b @ [buf_nnonz b]\<rparr>"
      define b2 where "b2 = lpFlushAddCols_coefs s2 col 0 b1"
      have step: "lpFlushAddCols_loop lpi st c b s = lpFlushAddCols_loop lpi st (c + 1) b2 s2"
        unfolding b2_def b1_def var_def s2_def s1_def
        by (subst lpFlushAddCols_loop.simps)
           (simp only: Let_def True ok [unfolded res_def col_def] if_True if_False
              res_def col_def)
      have ih: "lp_sizes_eq (h_lp s2) (h_lp (fst (snd (lpFlushAddCols_loop lpi st (c + 1) b2 s2))))"
        unfolding b2_def b1_def var_def s2_def s1_def res_def col_def
        by (rule "1.IH" [OF True refl refl ok [unfolded res_def col_def] refl refl refl refl refl])
      have "lp_sizes_eq (h_lp s) (h_lp s2)"
        using fr by (simp add: s2_def s1_def lp_sizes_eq_def)
      then show ?thesis
        unfolding step using ih lp_sizes_eq_trans by blast
    qed
  qed
qed

lemma lpFlushAddRows_loop_sizes:
  "lp_sizes_eq (h_lp s) (h_lp (fst (snd (lpFlushAddRows_loop lpi st r b s))))"
proof (induction lpi st r b s rule: lpFlushAddRows_loop.induct)
  case (1 lpi st r b s)
  show ?case
  proof (cases "r < lp_nrows (h_lp s)")
    case False
    then show ?thesis
      by (subst lpFlushAddRows_loop.simps) simp
  next
    case True
    define row where "row = lp_rows (h_lp s) r"
    define res where "res = rowLink row s"
    have fr: "lp_sizes_eq (h_lp s) (h_lp (snd res))"
      unfolding res_def by (rule lp_frame_sizes [OF rowLink_lp_frame])
    show ?thesis
    proof (cases "fst res = SCIP_OKAY")
      case False
      then show ?thesis using True fr
        by (subst lpFlushAddRows_loop.simps) (simp add: Let_def res_def row_def)
    next
      case okay: True
      then have ok: "\<not> fst res \<noteq> SCIP_OKAY"
        by simp
      define s1 where "s1 = upd_lp (\<lambda>l. l\<lparr>lp_lpirows := (lp_lpirows l)(r := row)\<rparr>) (snd res)"
      define s2 where "s2 = upd_row row (\<lambda>x. x\<lparr>row_lpipos := r, row_dualsol := SCIP_INVALID,
                           row_activity := SCIP_INVALID, row_dualfarkas := SCIP_INVALID,
                           row_validactivitylp := - 1, row_lhschanged := False,
                           row_rhschanged := False, row_coefchanged := False\<rparr>) s1"
      define x where "x = h_rows s2 row"
      define b1 where "b1 = b\<lparr>buf_lb := buf_lb b @ [if SCIPsetIsInfinity st (- row_lhs x)
                                                then - SCIPlpiInfinity lpi
                                                else row_lhs x + row_constant x],
                          buf_ub := buf_ub b @ [if SCIPsetIsInfinity st (row_rhs x)
                                                then SCIPlpiInfinity lpi
                                                else row_rhs x + row_constant x],
                          buf_beg := buf_beg b @ [buf_nnonz b]\<rparr>"
      define b2 where "b2 = lpFlushAddRows_coefs s2 row 0 b1"
      have step: "lpFlushAddRows_loop lpi st r b s = lpFlushAddRows_loop lpi st (r + 1) b2 s2"
        unfolding b2_def b1_def x_def s2_def s1_def
        by (subst lpFlushAddRows_loop.simps)
           (simp only: Let_def True ok [unfolded res_def row_def] if_True if_False
              res_def row_def)
      have ih: "lp_sizes_eq (h_lp s2) (h_lp (fst (snd (lpFlushAddRows_loop lpi st (r + 1) b2 s2))))"
        unfolding b2_def b1_def x_def s2_def s1_def res_def row_def
        by (rule "1.IH" [OF True refl refl ok [unfolded res_def row_def] refl refl refl refl refl])
      have "lp_sizes_eq (h_lp s) (h_lp s2)"
        using fr by (simp add: s2_def s1_def lp_sizes_eq_def)
      then show ?thesis
        unfolding step using ih lp_sizes_eq_trans by blast
    qed
  qed
qed

lemma lpFlushAddCols_sizes:
  assumes "fst (lpFlushAddCols lpi st s) = SCIP_OKAY"
  shows "lp_cols (h_lp (snd (lpFlushAddCols lpi st s))) = lp_cols (h_lp s)"
    "lp_rows (h_lp (snd (lpFlushAddCols lpi st s))) = lp_rows (h_lp s)"
    "lp_ncols (h_lp (snd (lpFlushAddCols lpi st s))) = lp_ncols (h_lp s)"
    "lp_nrows (h_lp (snd (lpFlushAddCols lpi st s))) = lp_nrows (h_lp s)"
    "lp_nlpirows (h_lp (snd (lpFlushAddCols lpi st s))) = lp_nlpirows (h_lp s)"
    "lp_nlpicols (h_lp (snd (lpFlushAddCols lpi st s))) = lp_ncols (h_lp s)"
proof -
  obtain rc s1 b where l:
    "lpFlushAddCols_loop lpi st (lp_nlpicols (h_lp s)) empty_buf s = (rc, s1, b)"
    by (cases "lpFlushAddCols_loop lpi st (lp_nlpicols (h_lp s)) empty_buf s")
  have z: "lp_sizes_eq (h_lp s) (h_lp s1)"
    using lpFlushAddCols_loop_sizes [of s lpi st "lp_nlpicols (h_lp s)" empty_buf] l by simp
  have a: "lp_cols (h_lp (snd (lpFlushAddCols lpi st s))) = lp_cols (h_lp s)
    \<and> lp_rows (h_lp (snd (lpFlushAddCols lpi st s))) = lp_rows (h_lp s)
    \<and> lp_ncols (h_lp (snd (lpFlushAddCols lpi st s))) = lp_ncols (h_lp s)
    \<and> lp_nrows (h_lp (snd (lpFlushAddCols lpi st s))) = lp_nrows (h_lp s)
    \<and> lp_nlpirows (h_lp (snd (lpFlushAddCols lpi st s))) = lp_nlpirows (h_lp s)
    \<and> lp_nlpicols (h_lp (snd (lpFlushAddCols lpi st s))) = lp_ncols (h_lp s)"
  proof (cases "lp_ncols (h_lp s) = lp_nlpicols (h_lp s)")
    case True
    then show ?thesis
      by (simp add: lpFlushAddCols_def)
  next
    case False
    have rc: "rc = SCIP_OKAY"
      using assms False l by (auto simp: lpFlushAddCols_def Let_def split: if_splits)
    have c: "lpi_retcode lpi (lp_lpicalls (h_lp s1))
               (LpiAddCols (lp_ncols (h_lp s) - lp_nlpicols (h_lp s)) (buf_obj b) (buf_lb b)
                  (buf_ub b) (buf_nnonz b) (buf_beg b) (buf_ind b) (buf_val b)) = SCIP_OKAY"
    proof (rule ccontr)
      assume "lpi_retcode lpi (lp_lpicalls (h_lp s1))
               (LpiAddCols (lp_ncols (h_lp s) - lp_nlpicols (h_lp s)) (buf_obj b) (buf_lb b)
                  (buf_ub b) (buf_nnonz b) (buf_beg b) (buf_ind b) (buf_val b)) \<noteq> SCIP_OKAY"
      then have "fst (lpFlushAddCols lpi st s) \<noteq> SCIP_OKAY"
        using False rc by (simp add: lpFlushAddCols_def l Let_def lpi_call_def)
      then show False using assms by simp
    qed
    show ?thesis
      using False rc c z
      by (simp add: lpFlushAddCols_def l Let_def lpi_call_def lp_sizes_eq_def)
  qed
  show "lp_cols (h_lp (snd (lpFlushAddCols lpi st s))) = lp_cols (h_lp s)"
    "lp_rows (h_lp (snd (lpFlushAddCols lpi st s))) = lp_rows (h_lp s)"
    "lp_ncols (h_lp (snd (lpFlushAddCols lpi st s))) = lp_ncols (h_lp s)"
    "lp_nrows (h_lp (snd (lpFlushAddCols lpi st s))) = lp_nrows (h_lp s)"
    "lp_nlpirows (h_lp (snd (lpFlushAddCols lpi st s))) = lp_nlpirows (h_lp s)"
    "lp_nlpicols (h_lp (snd (lpFlushAddCols lpi st s))) = lp_ncols (h_lp s)"
    using a by simp_all
qed

lemma lpFlushAddRows_sizes:
  assumes "fst (lpFlushAddRows lpi st s) = SCIP_OKAY"
  shows "lp_cols (h_lp (snd (lpFlushAddRows lpi st s))) = lp_cols (h_lp s)"
    "lp_rows (h_lp (snd (lpFlushAddRows lpi st s))) = lp_rows (h_lp s)"
    "lp_ncols (h_lp (snd (lpFlushAddRows lpi st s))) = lp_ncols (h_lp s)"
    "lp_nrows (h_lp (snd (lpFlushAddRows lpi st s))) = lp_nrows (h_lp s)"
    "lp_nlpicols (h_lp (snd (lpFlushAddRows lpi st s))) = lp_nlpicols (h_lp s)"
    "lp_nlpirows (h_lp (snd (lpFlushAddRows lpi st s))) = lp_nrows (h_lp s)"
proof -
  obtain rc s1 b where l:
    "lpFlushAddRows_loop lpi st (lp_nlpirows (h_lp s)) empty_buf s = (rc, s1, b)"
    by (cases "lpFlushAddRows_loop lpi st (lp_nlpirows (h_lp s)) empty_buf s")
  have z: "lp_sizes_eq (h_lp s) (h_lp s1)"
    using lpFlushAddRows_loop_sizes [of s lpi st "lp_nlpirows (h_lp s)" empty_buf] l by simp
  have a: "lp_cols (h_lp (snd (lpFlushAddRows lpi st s))) = lp_cols (h_lp s)
    \<and> lp_rows (h_lp (snd (lpFlushAddRows lpi st s))) = lp_rows (h_lp s)
    \<and> lp_ncols (h_lp (snd (lpFlushAddRows lpi st s))) = lp_ncols (h_lp s)
    \<and> lp_nrows (h_lp (snd (lpFlushAddRows lpi st s))) = lp_nrows (h_lp s)
    \<and> lp_nlpicols (h_lp (snd (lpFlushAddRows lpi st s))) = lp_nlpicols (h_lp s)
    \<and> lp_nlpirows (h_lp (snd (lpFlushAddRows lpi st s))) = lp_nrows (h_lp s)"
  proof (cases "lp_nrows (h_lp s) = lp_nlpirows (h_lp s)")
    case True
    then show ?thesis
      by (simp add: lpFlushAddRows_def)
  next
    case False
    have rc: "rc = SCIP_OKAY"
      using assms False l by (auto simp: lpFlushAddRows_def Let_def split: if_splits)
    have c: "lpi_retcode lpi (lp_lpicalls (h_lp s1))
               (LpiAddRows (lp_nrows (h_lp s) - lp_nlpirows (h_lp s)) (buf_lb b)
                  (buf_ub b) (buf_nnonz b) (buf_beg b) (buf_ind b) (buf_val b)) = SCIP_OKAY"
    proof (rule ccontr)
      assume "lpi_retcode lpi (lp_lpicalls (h_lp s1))
               (LpiAddRows (lp_nrows (h_lp s) - lp_nlpirows (h_lp s)) (buf_lb b)
                  (buf_ub b) (buf_nnonz b) (buf_beg b) (buf_ind b) (buf_val b)) \<noteq> SCIP_OKAY"
      then have "fst (lpFlushAddRows lpi st s) \<noteq> SCIP_OKAY"
        using False rc by (simp add: lpFlushAddRows_def l Let_def lpi_call_def)
      then show False using assms by simp
    qed
    show ?thesis
      using False rc c z
      by (simp add: lpFlushAddRows_def l Let_def lpi_call_def lp_sizes_eq_def)
  qed
  show "lp_cols (h_lp (snd (lpFlushAddRows lpi st s))) = lp_cols (h_lp s)"
    "lp_rows (h_lp (snd (lpFlushAddRows lpi st s))) = lp_rows (h_lp s)"
    "lp_ncols (h_lp (snd (lpFlushAddRows lpi st s))) = lp_ncols (h_lp s)"
    "lp_nrows (h_lp (snd (lpFlushAddRows lpi st s))) = lp_nrows (h_lp s)"
    "lp_nlpicols (h_lp (snd (lpFlushAddRows lpi st s))) = lp_nlpicols (h_lp s)"
    "lp_nlpirows (h_lp (snd (lpFlushAddRows lpi st s))) = lp_nrows (h_lp s)"
    using a by simp_all
qed

lemma col_sent_ind_filter:
  "col_sent_ind s c =
     filter (\<lambda>p. 0 \<le> p)
       (map (\<lambda>j. row_lpipos (h_rows s (col_rows (h_cols s c) j))) [0..col_len (h_cols s c) - 1])"
  by (simp add: col_sent_ind_def col_resident_entries_def filter_map comp_def)

lemma row_sent_ind_filter:
  "row_sent_ind s r =
     filter (\<lambda>p. 0 \<le> p)
       (map (\<lambda>j. col_lpipos (h_cols s (row_cols (h_rows s r) j))) [0..row_len (h_rows s r) - 1])"
  by (simp add: row_sent_ind_def row_resident_entries_def filter_map comp_def)

lemma sent_val_length:
  "length (col_sent_val s c) = length (col_sent_ind s c)"
  "length (row_sent_val s r) = length (row_sent_ind s r)"
  by (simp_all add: col_sent_val_def col_sent_ind_def row_sent_val_def row_sent_ind_def)

text \<open>A flush of an unflushed LP that succeeds has run the six steps, each with success.\<close>

lemma lpFlush_steps:
  assumes "\<not> lp_flushed (h_lp s)" "fst (lpFlush lpi st s) = SCIP_OKAY"
  defines "s1 \<equiv> snd (lpFlushDelCols lpi s)"
    and "s2 \<equiv> snd (lpFlushDelRows lpi (snd (lpFlushDelCols lpi s)))"
    and "s3 \<equiv> snd (lpFlushChgCols lpi st (snd (lpFlushDelRows lpi (snd (lpFlushDelCols lpi s)))))"
    and "s4 \<equiv> snd (lpFlushChgRows lpi st (snd (lpFlushChgCols lpi st
                 (snd (lpFlushDelRows lpi (snd (lpFlushDelCols lpi s)))))))"
    and "s5 \<equiv> snd (lpFlushAddCols lpi st (snd (lpFlushChgRows lpi st (snd (lpFlushChgCols lpi st
                 (snd (lpFlushDelRows lpi (snd (lpFlushDelCols lpi s)))))))))"
    and "s6 \<equiv> snd (lpFlushAddRows lpi st (snd (lpFlushAddCols lpi st (snd (lpFlushChgRows lpi st
                 (snd (lpFlushChgCols lpi st
                 (snd (lpFlushDelRows lpi (snd (lpFlushDelCols lpi s)))))))))))"
  shows "fst (lpFlushDelCols lpi s) = SCIP_OKAY"
    "fst (lpFlushDelRows lpi s1) = SCIP_OKAY"
    "fst (lpFlushChgCols lpi st s2) = SCIP_OKAY"
    "fst (lpFlushChgRows lpi st s3) = SCIP_OKAY"
    "fst (lpFlushAddCols lpi st s4) = SCIP_OKAY"
    "fst (lpFlushAddRows lpi st s5) = SCIP_OKAY"
    "snd (lpFlush lpi st s) = upd_lp (\<lambda>l. l\<lparr>lp_flushed := True\<rparr>) s6"
proof -
  have a: "fst (lpFlushDelCols lpi s) = SCIP_OKAY"
    using assms(1,2) by (simp add: lpFlush_def check_okay_def split: if_splits)
  have b: "fst (lpFlushDelRows lpi s1) = SCIP_OKAY"
    using assms(1,2) a by (simp add: lpFlush_def check_okay_def s1_def split: if_splits)
  have c: "fst (lpFlushChgCols lpi st s2) = SCIP_OKAY"
    using assms(1,2) a b
    by (simp add: lpFlush_def check_okay_def s1_def s2_def split: if_splits)
  have d: "fst (lpFlushChgRows lpi st s3) = SCIP_OKAY"
    using assms(1,2) a b c
    by (simp add: lpFlush_def check_okay_def s1_def s2_def s3_def split: if_splits)
  have e: "fst (lpFlushAddCols lpi st s4) = SCIP_OKAY"
    using assms(1,2) a b c d
    by (simp add: lpFlush_def check_okay_def s1_def s2_def s3_def s4_def split: if_splits)
  have f: "fst (lpFlushAddRows lpi st s5) = SCIP_OKAY"
    using assms(1,2) a b c d e
    by (simp add: lpFlush_def check_okay_def s1_def s2_def s3_def s4_def s5_def
          split: if_splits)
  show "fst (lpFlushDelCols lpi s) = SCIP_OKAY"
    "fst (lpFlushDelRows lpi s1) = SCIP_OKAY"
    "fst (lpFlushChgCols lpi st s2) = SCIP_OKAY"
    "fst (lpFlushChgRows lpi st s3) = SCIP_OKAY"
    "fst (lpFlushAddCols lpi st s4) = SCIP_OKAY"
    "fst (lpFlushAddRows lpi st s5) = SCIP_OKAY"
    using a b c d e f by simp_all
  show "snd (lpFlush lpi st s) = upd_lp (\<lambda>l. l\<lparr>lp_flushed := True\<rparr>) s6"
    using assms(1) a b c d e f
    by (simp add: lpFlush_def check_okay_def s1_def s2_def s3_def s4_def s5_def s6_def)
qed

lemma lpFlush_applies:
  assumes U: "\<not> lp_flushed (h_lp s)" and OK: "fst (lpFlush lpi st s) = SCIP_OKAY"
  defines "s1 \<equiv> snd (lpFlushDelCols lpi s)"
    and "s2 \<equiv> snd (lpFlushDelRows lpi (snd (lpFlushDelCols lpi s)))"
    and "s3 \<equiv> snd (lpFlushChgCols lpi st (snd (lpFlushDelRows lpi (snd (lpFlushDelCols lpi s)))))"
    and "s4 \<equiv> snd (lpFlushChgRows lpi st (snd (lpFlushChgCols lpi st
                 (snd (lpFlushDelRows lpi (snd (lpFlushDelCols lpi s)))))))"
    and "s5 \<equiv> snd (lpFlushAddCols lpi st (snd (lpFlushChgRows lpi st (snd (lpFlushChgCols lpi st
                 (snd (lpFlushDelRows lpi (snd (lpFlushDelCols lpi s)))))))))"
  shows "lp_lpicalls (h_lp (snd (lpFlush lpi st s))) =
           lp_lpicalls (h_lp s) @ del_cols_calls s @ del_rows_calls s
             @ chg_cols_calls lpi st s2 @ chg_rows_calls lpi st s3
             @ add_cols_calls lpi st s4 @ add_rows_calls lpi st s5"
    and "col_lpipos (h_cols s2 c) =
           (if c \<in> lp_lpicols (h_lp s) ` {unchanged_cols_end s..<lp_nlpicols (h_lp s)} then - 1
            else col_lpipos (h_cols s c))"
    and "row_lpipos (h_rows s2 r) =
           (if r \<in> lp_lpirows (h_lp s) ` {unchanged_rows_end s..<lp_nlpirows (h_lp s)} then - 1
            else row_lpipos (h_rows s r))"
    and "lp_cols (h_lp s4) = lp_cols (h_lp s) \<and> lp_ncols (h_lp s4) = lp_ncols (h_lp s)
         \<and> lp_nlpicols (h_lp s4) = min (unchanged_cols_end s) (lp_nlpicols (h_lp s))"
    and "lp_rows (h_lp s5) = lp_rows (h_lp s) \<and> lp_nrows (h_lp s5) = lp_nrows (h_lp s)
         \<and> lp_nlpirows (h_lp s5) = min (unchanged_rows_end s) (lp_nlpirows (h_lp s))"
    and "lp_flushed (h_lp (snd (lpFlush lpi st s)))
         \<and> lp_nlpicols (h_lp (snd (lpFlush lpi st s))) = lp_ncols (h_lp s)
         \<and> lp_nlpirows (h_lp (snd (lpFlush lpi st s))) = lp_nrows (h_lp s)
         \<and> lp_ncols (h_lp (snd (lpFlush lpi st s))) = lp_ncols (h_lp s)
         \<and> lp_nrows (h_lp (snd (lpFlush lpi st s))) = lp_nrows (h_lp s)"
proof -
  define s6 where "s6 = snd (lpFlushAddRows lpi st s5)"
  note st = lpFlush_steps [OF U OK, folded s1_def s2_def s3_def s4_def s5_def]
  have ok1: "fst (lpFlushDelCols lpi s) = SCIP_OKAY" by (rule st(1))
  have ok2: "fst (lpFlushDelRows lpi s1) = SCIP_OKAY" by (rule st(2))
  have ok3: "fst (lpFlushChgCols lpi st s2) = SCIP_OKAY" by (rule st(3))
  have ok4: "fst (lpFlushChgRows lpi st s3) = SCIP_OKAY" by (rule st(4))
  have ok5: "fst (lpFlushAddCols lpi st s4) = SCIP_OKAY" by (rule st(5))
  have ok6: "fst (lpFlushAddRows lpi st s5) = SCIP_OKAY" by (rule st(6))
  have fin: "snd (lpFlush lpi st s) = upd_lp (\<lambda>l. l\<lparr>lp_flushed := True\<rparr>) s6"
    using st(7) by (simp add: s6_def s5_def s4_def s3_def s2_def s1_def)
  have e2: "s2 = snd (lpFlushDelRows lpi s1)" by (simp add: s2_def s1_def)
  have e3: "s3 = snd (lpFlushChgCols lpi st s2)" by (simp add: s3_def s2_def)
  have e4: "s4 = snd (lpFlushChgRows lpi st s3)" by (simp add: s4_def s3_def)
  have e5: "s5 = snd (lpFlushAddCols lpi st s4)" by (simp add: s5_def s4_def)
  have l1: "h_lp s1 = (h_lp s)\<lparr>lp_lpifirstchgcol := unchanged_cols_end s,
                     lp_nlpicols := min (unchanged_cols_end s) (lp_nlpicols (h_lp s)),
                     lp_lpicalls := lp_lpicalls (h_lp s) @ del_cols_calls s\<rparr>"
    and r1: "h_rows s1 = h_rows s"
    unfolding s1_def using lpFlushDelCols_lp(1,2) [OF ok1] by simp_all
  have p1: "col_lpipos (h_cols s1 x) =
           (if x \<in> lp_lpicols (h_lp s) ` {unchanged_cols_end s..<lp_nlpicols (h_lp s)} then - 1
            else col_lpipos (h_cols s x))" for x
    unfolding s1_def by (rule lpFlushDelCols_lp(3) [OF ok1])
  have u1: "unchanged_rows_end s1 = unchanged_rows_end s" "del_rows_calls s1 = del_rows_calls s"
    unfolding s1_def by (rule del_rows_calls_after_cols [OF ok1])+
  have l2: "h_lp s2 = (h_lp s1)\<lparr>lp_lpifirstchgrow := unchanged_rows_end s,
                     lp_nlpirows := min (unchanged_rows_end s) (lp_nlpirows (h_lp s)),
                     lp_lpicalls := lp_lpicalls (h_lp s1) @ del_rows_calls s\<rparr>"
    and c2: "h_cols s2 = h_cols s1"
    unfolding e2 using lpFlushDelRows_lp(1,2) [OF ok2] u1 l1 by simp_all
  have p2: "row_lpipos (h_rows s2 x) =
           (if x \<in> lp_lpirows (h_lp s) ` {unchanged_rows_end s..<lp_nlpirows (h_lp s)} then - 1
            else row_lpipos (h_rows s x))" for x
    unfolding e2 using lpFlushDelRows_lp(3) [OF ok2, of x] u1 l1 r1 by simp
  have l3: "h_lp s3 = (h_lp s2)\<lparr>lp_nchgcols := 0,
                     lp_lpicalls := lp_lpicalls (h_lp s2) @ chg_cols_calls lpi st s2\<rparr>"
    unfolding e3 by (rule lpFlushChgCols_lp [OF ok3])
  have l4: "h_lp s4 = (h_lp s3)\<lparr>lp_nchgrows := 0,
                     lp_lpicalls := lp_lpicalls (h_lp s3) @ chg_rows_calls lpi st s3\<rparr>"
    unfolding e4 by (rule lpFlushChgRows_lp [OF ok4])
  have c5: "lp_lpicalls (h_lp s5) = lp_lpicalls (h_lp s4) @ add_cols_calls lpi st s4"
    unfolding e5 by (rule lpFlushAddCols_calls [OF ok5])
  have c6: "lp_lpicalls (h_lp s6) = lp_lpicalls (h_lp s5) @ add_rows_calls lpi st s5"
    unfolding s6_def by (rule lpFlushAddRows_calls [OF ok6])
  note z5 = lpFlushAddCols_sizes [OF ok5, folded e5]
  note z6 = lpFlushAddRows_sizes [OF ok6, folded s6_def]
  show "lp_lpicalls (h_lp (snd (lpFlush lpi st s))) =
           lp_lpicalls (h_lp s) @ del_cols_calls s @ del_rows_calls s
             @ chg_cols_calls lpi st s2 @ chg_rows_calls lpi st s3
             @ add_cols_calls lpi st s4 @ add_rows_calls lpi st s5"
    by (simp add: fin c6 c5 l4 l3 l2 l1)
  show "col_lpipos (h_cols s2 c) =
           (if c \<in> lp_lpicols (h_lp s) ` {unchanged_cols_end s..<lp_nlpicols (h_lp s)} then - 1
            else col_lpipos (h_cols s c))"
    by (simp only: c2 p1)
  show "row_lpipos (h_rows s2 r) =
           (if r \<in> lp_lpirows (h_lp s) ` {unchanged_rows_end s..<lp_nlpirows (h_lp s)} then - 1
            else row_lpipos (h_rows s r))"
    by (rule p2)
  show s4: "lp_cols (h_lp s4) = lp_cols (h_lp s) \<and> lp_ncols (h_lp s4) = lp_ncols (h_lp s)
         \<and> lp_nlpicols (h_lp s4) = min (unchanged_cols_end s) (lp_nlpicols (h_lp s))"
    by (simp add: l4 l3 l2 l1)
  have s4r: "lp_rows (h_lp s4) = lp_rows (h_lp s) \<and> lp_nrows (h_lp s4) = lp_nrows (h_lp s)
         \<and> lp_nlpirows (h_lp s4) = min (unchanged_rows_end s) (lp_nlpirows (h_lp s))"
    by (simp add: l4 l3 l2 l1)
  show s5: "lp_rows (h_lp s5) = lp_rows (h_lp s) \<and> lp_nrows (h_lp s5) = lp_nrows (h_lp s)
         \<and> lp_nlpirows (h_lp s5) = min (unchanged_rows_end s) (lp_nlpirows (h_lp s))"
    using z5 s4r by simp
  show "lp_flushed (h_lp (snd (lpFlush lpi st s)))
         \<and> lp_nlpicols (h_lp (snd (lpFlush lpi st s))) = lp_ncols (h_lp s)
         \<and> lp_nlpirows (h_lp (snd (lpFlush lpi st s))) = lp_nrows (h_lp s)
         \<and> lp_ncols (h_lp (snd (lpFlush lpi st s))) = lp_ncols (h_lp s)
         \<and> lp_nrows (h_lp (snd (lpFlush lpi st s))) = lp_nrows (h_lp s)"
    using z5 z6 s4 s5 by (simp add: fin)
qed

text \<open>
  An unflushed LP in which every step of the flush has work. Columns: address 5 is
  resident at position 0 and its lower bound changed; address 6 is resident at position
  1 but no longer in the LP; address 7 is in the LP at position 1 and not yet in the
  solver. Rows: address 1 is resident at position 0 and its right hand side changed;
  address 2 is resident at position 1 but no longer in the LP; address 3 is in the LP
  at position 1 and not yet in the solver. The coefficients are 2 and 3 in row 1
  (columns 5 and 7) and 4, 6 and 5 in row 3 (columns 5, 6 and 7); rows and columns are
  linked.
\<close>

definition pending_state :: STATE where
  "pending_state = \<lparr>
     h_rows = (\<lambda>_. empty_row)
       (1 := empty_row\<lparr>row_cols := (\<lambda>_. 5)(1 := 7), row_vals := (\<lambda>_. 2)(1 := 3),
                row_linkpos := (\<lambda>_. 0), row_lhs := - (10 ^ 20), row_rhs := 9,
                row_len := 2, row_lppos := 0, row_lpipos := 0, row_rhschanged := True\<rparr>,
        2 := empty_row\<lparr>row_index := 1, row_lpipos := 1\<rparr>,
        3 := empty_row\<lparr>row_cols := (\<lambda>_. 5)(1 := 6, 2 := 7),
                row_vals := (\<lambda>_. 4)(1 := 6, 2 := 5),
                row_linkpos := (\<lambda>_. 1)(1 := 0), row_lhs := 2, row_rhs := 10 ^ 20,
                row_index := 2, row_len := 3, row_lppos := 1\<rparr>),
     h_cols = (\<lambda>_. empty_col)
       (5 := empty_col\<lparr>col_var := \<lparr>var_obj = 1, var_lb = 1, var_ub = 8\<rparr>,
                col_rows := (\<lambda>_. 1)(1 := 3), col_vals := (\<lambda>_. 2)(1 := 4),
                col_linkpos := (\<lambda>_. 0), col_len := 2, col_lppos := 0, col_lpipos := 0,
                col_lbchanged := True\<rparr>,
        6 := empty_col\<lparr>col_rows := (\<lambda>_. 3), col_vals := (\<lambda>_. 6),
                col_linkpos := (\<lambda>_. 1), col_index := 1, col_len := 1, col_lpipos := 1\<rparr>,
        7 := empty_col\<lparr>col_var := \<lparr>var_obj = 1, var_lb = 0, var_ub = 10 ^ 20\<rparr>,
                col_rows := (\<lambda>_. 1)(1 := 3), col_vals := (\<lambda>_. 3)(1 := 5),
                col_linkpos := (\<lambda>_. 1)(1 := 2), col_index := 2, col_len := 2,
                col_lppos := 1\<rparr>),
     h_lp = empty_lp\<lparr>lp_cols := (\<lambda>_. 5)(1 := 7), lp_rows := (\<lambda>_. 1)(1 := 3),
        lp_lpicols := (\<lambda>_. 5)(1 := 6), lp_lpirows := (\<lambda>_. 1)(1 := 2),
        lp_chgcols := (\<lambda>_. 5), lp_chgrows := (\<lambda>_. 1),
        lp_ncols := 2, lp_nrows := 2, lp_nlpicols := 2, lp_nlpirows := 2,
        lp_nchgcols := 1, lp_nchgrows := 1, lp_lpifirstchgcol := 1, lp_lpifirstchgrow := 1,
        lp_flushed := False, lp_solved := False,
        lp_lpsolstat := SCIP_LPSOLSTAT_NOTSOLVED\<rparr>,
     h_stat = \<lparr>stat_ncolidx = 3, stat_nrowidx = 3, stat_nlp = 0, stat_nprimallp = 0,
                stat_nlpiterations = 0, stat_nprimallpiterations = 0\<rparr>\<rparr>"

lemma check_okay_okay: "check_okay (SCIP_OKAY, s) f = f s"
  by (simp add: check_okay_def)

lemma pending_state_flush:
  "lpFlush objlim_lpi std_set pending_state = (rc, s') \<Longrightarrow>
     rc = SCIP_OKAY \<and> lp_lpicalls (h_lp s') =
        [LpiDelCols 1 1, LpiDelRows 1 1, LpiChgBounds 1 [0] [1] [8],
         LpiChgSides 1 [0] [- (10 ^ 30)] [9],
         LpiAddCols 1 [1] [0] [10 ^ 30] 1 [0] [0] [3],
         LpiAddRows 1 [2] [10 ^ 30] 2 [0] [0, 1] [4, 5]]"
  apply (simp add: lpFlush_def pending_state_def empty_lp_def)
  apply (simp add: lpFlushDelCols_def lpFlushDelCols_find.simps lpFlushDelCols_loop.simps
      lpi_call_def objlim_lpi_def Let_def empty_col_def check_okay_okay)
  apply (simp add: lpFlushDelRows_def lpFlushDelRows_find.simps lpFlushDelRows_loop.simps
      Let_def empty_row_def lpi_call_def check_okay_okay)
  apply (simp add: lpFlushChgCols_def lpFlushChgCols_loop.simps Let_def empty_chgbuf_def
      lpi_call_def SCIPlpiInfinity_def std_set_def check_okay_okay)
  apply (simp add: lpFlushChgRows_def lpFlushChgRows_loop.simps Let_def empty_chgbuf_def
      lpi_call_def SCIPlpiInfinity_def std_set_def check_okay_okay)
  apply (simp add: lpFlushAddCols_def lpFlushAddCols_loop.simps Let_def colLink_def
      empty_buf_def lpFlushAddCols_coefs.simps lpi_call_def SCIPlpiInfinity_def check_okay_okay)
  apply (simp add: lpFlushAddRows_def lpFlushAddRows_loop.simps Let_def rowLink_def
      empty_buf_def lpFlushAddRows_coefs.simps lpi_call_def SCIPlpiInfinity_def check_okay_okay)
  apply auto
  done

lemma pending_state_unchanged_end:
  "unchanged_cols_end pending_state = 1" "unchanged_rows_end pending_state = 1"
  by (simp_all add: unchanged_cols_end_def unchanged_rows_end_def col_unchanged_def
        row_unchanged_def pending_state_def empty_lp_def empty_col_def empty_row_def upto.simps)

lemma pending_state_lp:
  "\<not> lp_flushed (h_lp pending_state)" "lp_lpicalls (h_lp pending_state) = []"
  "lp_nlpicols (h_lp pending_state) = 2" "lp_nlpirows (h_lp pending_state) = 2"
  "lp_ncols (h_lp pending_state) = 2" "lp_nrows (h_lp pending_state) = 2"
  "lp_lpicols (h_lp pending_state) 1 = 6" "lp_lpirows (h_lp pending_state) 1 = 2"
  by (simp_all add: pending_state_def empty_lp_def)

text \<open>
  Claim C2. Whatever the state, the solver calls that \<open>lpFlush\<close> adds come in strictly
  increasing places of the order (column deletion, row deletion, bound changes, side
  changes, column addition, row addition), every position sent with coefficients is
  nonnegative, and the inner loops of the two adding steps send of a column (row)
  exactly the entries whose row (column) has \<open>lpipos \<ge> 0\<close>. For an unflushed LP whose
  flush succeeds, the calls added are exactly, in this order: the deletion of the
  resident columns past the unchanged prefix, the deletion of the resident rows past
  the unchanged prefix, the bounds of the columns that are still resident and marked as
  changed, the sides of such rows, the columns of the LP from the end of the unchanged
  prefix on with their entries for resident rows only, and such rows with their entries
  for resident columns only; a step without work adds no call. The deleted columns and
  rows are not resident after the deletions and all others keep their position; after
  the flush the LP is flushed and all its columns and rows are resident.
\<close>

theorem C2_lpFlush_order:
  fixes lpi :: LPI and st :: SET and s s2 s3 s4 s5 s' :: STATE
  defines "s2 \<equiv> snd (lpFlushDelRows lpi (snd (lpFlushDelCols lpi s)))"
    and "s3 \<equiv> snd (lpFlushChgCols lpi st (snd (lpFlushDelRows lpi (snd (lpFlushDelCols lpi s)))))"
    and "s4 \<equiv> snd (lpFlushChgRows lpi st (snd (lpFlushChgCols lpi st
                 (snd (lpFlushDelRows lpi (snd (lpFlushDelCols lpi s)))))))"
    and "s5 \<equiv> snd (lpFlushAddCols lpi st (snd (lpFlushChgRows lpi st (snd (lpFlushChgCols lpi st
                 (snd (lpFlushDelRows lpi (snd (lpFlushDelCols lpi s)))))))))"
    and "s' \<equiv> snd (lpFlush lpi st s)"
  shows
  "(\<exists>cs. lp_lpicalls (h_lp s') = lp_lpicalls (h_lp s) @ cs
      \<and> sorted_wrt (<) (map lpi_phase cs)
      \<and> (\<forall>x \<in> set cs. 1 \<le> lpi_phase x \<and> lpi_phase x \<le> 6
            \<and> (\<forall>i \<in> set (lpi_sent_ind x). 0 \<le> i)))
   \<and> buf_ind (lpFlushAddCols_coefs s c i b)
       = buf_ind b @ map (\<lambda>j. row_lpipos (h_rows s (col_rows (h_cols s c) j)))
                       (col_resident_entries s c i)
   \<and> buf_val (lpFlushAddCols_coefs s c i b)
       = buf_val b @ map (col_vals (h_cols s c)) (col_resident_entries s c i)
   \<and> buf_ind (lpFlushAddRows_coefs s r i b)
       = buf_ind b @ map (\<lambda>j. col_lpipos (h_cols s (row_cols (h_rows s r) j)))
                       (row_resident_entries s r i)
   \<and> buf_val (lpFlushAddRows_coefs s r i b)
       = buf_val b @ map (row_vals (h_rows s r)) (row_resident_entries s r i)
   \<and> col_sent_ind s c =
        filter (\<lambda>p. 0 \<le> p)
          (map (\<lambda>j. row_lpipos (h_rows s (col_rows (h_cols s c) j))) [0..col_len (h_cols s c) - 1])
   \<and> row_sent_ind s r =
        filter (\<lambda>p. 0 \<le> p)
          (map (\<lambda>j. col_lpipos (h_cols s (row_cols (h_rows s r) j))) [0..row_len (h_rows s r) - 1])
   \<and> (\<not> lp_flushed (h_lp s) \<and> fst (lpFlush lpi st s) = SCIP_OKAY \<longrightarrow>
        lp_lpicalls (h_lp s') =
           lp_lpicalls (h_lp s) @ del_cols_calls s @ del_rows_calls s
             @ chg_cols_calls lpi st s2 @ chg_rows_calls lpi st s3
             @ add_cols_calls lpi st s4 @ add_rows_calls lpi st s5
        \<and> col_lpipos (h_cols s2 c) =
             (if c \<in> lp_lpicols (h_lp s) ` {unchanged_cols_end s..<lp_nlpicols (h_lp s)} then - 1
              else col_lpipos (h_cols s c))
        \<and> row_lpipos (h_rows s2 r) =
             (if r \<in> lp_lpirows (h_lp s) ` {unchanged_rows_end s..<lp_nlpirows (h_lp s)} then - 1
              else row_lpipos (h_rows s r))
        \<and> lp_cols (h_lp s4) = lp_cols (h_lp s) \<and> lp_ncols (h_lp s4) = lp_ncols (h_lp s)
        \<and> lp_nlpicols (h_lp s4) = min (unchanged_cols_end s) (lp_nlpicols (h_lp s))
        \<and> lp_rows (h_lp s5) = lp_rows (h_lp s) \<and> lp_nrows (h_lp s5) = lp_nrows (h_lp s)
        \<and> lp_nlpirows (h_lp s5) = min (unchanged_rows_end s) (lp_nlpirows (h_lp s))
        \<and> lp_flushed (h_lp s')
        \<and> lp_nlpicols (h_lp s') = lp_ncols (h_lp s) \<and> lp_nlpirows (h_lp s') = lp_nrows (h_lp s)
        \<and> lp_ncols (h_lp s') = lp_ncols (h_lp s) \<and> lp_nrows (h_lp s') = lp_nrows (h_lp s))"
proof -
  have A: "\<exists>cs. lp_lpicalls (h_lp s') = lp_lpicalls (h_lp s) @ cs
      \<and> sorted_wrt (<) (map lpi_phase cs)
      \<and> (\<forall>x \<in> set cs. 1 \<le> lpi_phase x \<and> lpi_phase x \<le> 6
            \<and> (\<forall>i \<in> set (lpi_sent_ind x). 0 \<le> i))"
    unfolding s'_def using lpFlush_upto [of s lpi st] by (simp add: flush_upto_def)
  have B: "\<not> lp_flushed (h_lp s) \<and> fst (lpFlush lpi st s) = SCIP_OKAY \<longrightarrow>
        lp_lpicalls (h_lp s') =
           lp_lpicalls (h_lp s) @ del_cols_calls s @ del_rows_calls s
             @ chg_cols_calls lpi st s2 @ chg_rows_calls lpi st s3
             @ add_cols_calls lpi st s4 @ add_rows_calls lpi st s5
        \<and> col_lpipos (h_cols s2 c) =
             (if c \<in> lp_lpicols (h_lp s) ` {unchanged_cols_end s..<lp_nlpicols (h_lp s)} then - 1
              else col_lpipos (h_cols s c))
        \<and> row_lpipos (h_rows s2 r) =
             (if r \<in> lp_lpirows (h_lp s) ` {unchanged_rows_end s..<lp_nlpirows (h_lp s)} then - 1
              else row_lpipos (h_rows s r))
        \<and> lp_cols (h_lp s4) = lp_cols (h_lp s) \<and> lp_ncols (h_lp s4) = lp_ncols (h_lp s)
        \<and> lp_nlpicols (h_lp s4) = min (unchanged_cols_end s) (lp_nlpicols (h_lp s))
        \<and> lp_rows (h_lp s5) = lp_rows (h_lp s) \<and> lp_nrows (h_lp s5) = lp_nrows (h_lp s)
        \<and> lp_nlpirows (h_lp s5) = min (unchanged_rows_end s) (lp_nlpirows (h_lp s))
        \<and> lp_flushed (h_lp s')
        \<and> lp_nlpicols (h_lp s') = lp_ncols (h_lp s) \<and> lp_nlpirows (h_lp s') = lp_nrows (h_lp s)
        \<and> lp_ncols (h_lp s') = lp_ncols (h_lp s) \<and> lp_nrows (h_lp s') = lp_nrows (h_lp s)"
  proof (intro impI)
    assume h: "\<not> lp_flushed (h_lp s) \<and> fst (lpFlush lpi st s) = SCIP_OKAY"
    then have U: "\<not> lp_flushed (h_lp s)" and OK: "fst (lpFlush lpi st s) = SCIP_OKAY"
      by simp_all
    note a = lpFlush_applies [OF U OK, folded s2_def s3_def s4_def s5_def s'_def]
    show "lp_lpicalls (h_lp s') =
           lp_lpicalls (h_lp s) @ del_cols_calls s @ del_rows_calls s
             @ chg_cols_calls lpi st s2 @ chg_rows_calls lpi st s3
             @ add_cols_calls lpi st s4 @ add_rows_calls lpi st s5
        \<and> col_lpipos (h_cols s2 c) =
             (if c \<in> lp_lpicols (h_lp s) ` {unchanged_cols_end s..<lp_nlpicols (h_lp s)} then - 1
              else col_lpipos (h_cols s c))
        \<and> row_lpipos (h_rows s2 r) =
             (if r \<in> lp_lpirows (h_lp s) ` {unchanged_rows_end s..<lp_nlpirows (h_lp s)} then - 1
              else row_lpipos (h_rows s r))
        \<and> lp_cols (h_lp s4) = lp_cols (h_lp s) \<and> lp_ncols (h_lp s4) = lp_ncols (h_lp s)
        \<and> lp_nlpicols (h_lp s4) = min (unchanged_cols_end s) (lp_nlpicols (h_lp s))
        \<and> lp_rows (h_lp s5) = lp_rows (h_lp s) \<and> lp_nrows (h_lp s5) = lp_nrows (h_lp s)
        \<and> lp_nlpirows (h_lp s5) = min (unchanged_rows_end s) (lp_nlpirows (h_lp s))
        \<and> lp_flushed (h_lp s')
        \<and> lp_nlpicols (h_lp s') = lp_ncols (h_lp s) \<and> lp_nlpirows (h_lp s') = lp_nrows (h_lp s)
        \<and> lp_ncols (h_lp s') = lp_ncols (h_lp s) \<and> lp_nrows (h_lp s') = lp_nrows (h_lp s)"
      using a(1) a(2) [of c] a(3) [of r] a(4) a(5) a(6) by (intro conjI) simp_all
  qed
  have E1: "buf_ind (lpFlushAddCols_coefs s c i b)
       = buf_ind b @ map (\<lambda>j. row_lpipos (h_rows s (col_rows (h_cols s c) j)))
                       (col_resident_entries s c i)"
    and E2: "buf_val (lpFlushAddCols_coefs s c i b)
       = buf_val b @ map (col_vals (h_cols s c)) (col_resident_entries s c i)"
    by (simp_all add: lpFlushAddCols_coefs_eq)
  have E3: "buf_ind (lpFlushAddRows_coefs s r i b)
       = buf_ind b @ map (\<lambda>j. col_lpipos (h_cols s (row_cols (h_rows s r) j)))
                       (row_resident_entries s r i)"
    and E4: "buf_val (lpFlushAddRows_coefs s r i b)
       = buf_val b @ map (row_vals (h_rows s r)) (row_resident_entries s r i)"
    by (simp_all add: lpFlushAddRows_coefs_eq)
  show ?thesis
    by (rule conjI, rule A, rule conjI, rule E1, rule conjI, rule E2, rule conjI, rule E3,
        rule conjI, rule E4, rule conjI, rule col_sent_ind_filter, rule conjI,
        rule row_sent_ind_filter, rule B)
qed

theorem C2_lpFlush_order_witness:
  "\<not> lp_flushed (h_lp pending_state)
   \<and> lp_lpicalls (h_lp pending_state) = []
   \<and> fst (lpFlush objlim_lpi std_set pending_state) = SCIP_OKAY
   \<and> lp_lpicalls (h_lp (snd (lpFlush objlim_lpi std_set pending_state)))
       = [LpiDelCols 1 1, LpiDelRows 1 1, LpiChgBounds 1 [0] [1] [8],
          LpiChgSides 1 [0] [- (10 ^ 30)] [9],
          LpiAddCols 1 [1] [0] [10 ^ 30] 1 [0] [0] [3],
          LpiAddRows 1 [2] [10 ^ 30] 2 [0] [0, 1] [4, 5]]
   \<and> del_cols_calls pending_state = [LpiDelCols 1 1]
   \<and> del_rows_calls pending_state = [LpiDelRows 1 1]
   \<and> chg_cols_calls objlim_lpi std_set
         (snd (lpFlushDelRows objlim_lpi (snd (lpFlushDelCols objlim_lpi pending_state))))
       @ chg_rows_calls objlim_lpi std_set
         (snd (lpFlushChgCols objlim_lpi std_set
           (snd (lpFlushDelRows objlim_lpi (snd (lpFlushDelCols objlim_lpi pending_state))))))
       @ add_cols_calls objlim_lpi std_set
         (snd (lpFlushChgRows objlim_lpi std_set (snd (lpFlushChgCols objlim_lpi std_set
           (snd (lpFlushDelRows objlim_lpi (snd (lpFlushDelCols objlim_lpi pending_state))))))))
       @ add_rows_calls objlim_lpi std_set
         (snd (lpFlushAddCols objlim_lpi std_set
           (snd (lpFlushChgRows objlim_lpi std_set (snd (lpFlushChgCols objlim_lpi std_set
           (snd (lpFlushDelRows objlim_lpi (snd (lpFlushDelCols objlim_lpi pending_state))))))))))
       = [LpiChgBounds 1 [0] [1] [8], LpiChgSides 1 [0] [- (10 ^ 30)] [9],
          LpiAddCols 1 [1] [0] [10 ^ 30] 1 [0] [0] [3],
          LpiAddRows 1 [2] [10 ^ 30] 2 [0] [0, 1] [4, 5]]
   \<and> col_lpipos (h_cols pending_state 6) = 1
   \<and> col_lpipos (h_cols
         (snd (lpFlushDelRows objlim_lpi (snd (lpFlushDelCols objlim_lpi pending_state)))) 6) = - 1
   \<and> row_lpipos (h_rows pending_state 2) = 1
   \<and> row_lpipos (h_rows
         (snd (lpFlushDelRows objlim_lpi (snd (lpFlushDelCols objlim_lpi pending_state)))) 2) = - 1
   \<and> lp_flushed (h_lp (snd (lpFlush objlim_lpi std_set pending_state)))
   \<and> lp_nlpicols (h_lp (snd (lpFlush objlim_lpi std_set pending_state))) = 2
   \<and> lp_nlpirows (h_lp (snd (lpFlush objlim_lpi std_set pending_state))) = 2"
proof -
  have ev: "fst (lpFlush objlim_lpi std_set pending_state) = SCIP_OKAY"
    "lp_lpicalls (h_lp (snd (lpFlush objlim_lpi std_set pending_state)))
       = [LpiDelCols 1 1, LpiDelRows 1 1, LpiChgBounds 1 [0] [1] [8],
          LpiChgSides 1 [0] [- (10 ^ 30)] [9],
          LpiAddCols 1 [1] [0] [10 ^ 30] 1 [0] [0] [3],
          LpiAddRows 1 [2] [10 ^ 30] 2 [0] [0, 1] [4, 5]]"
    using pending_state_flush [OF surjective_pairing]
    by simp_all
  have d: "del_cols_calls pending_state = [LpiDelCols 1 1]"
    "del_rows_calls pending_state = [LpiDelRows 1 1]"
    by (simp_all add: del_cols_calls_def del_rows_calls_def pending_state_unchanged_end
          pending_state_lp)
  have i: "{1..<2 :: int} = {1}"
    by auto
  have p: "col_lpipos (h_cols pending_state 6) = 1" "row_lpipos (h_rows pending_state 2) = 1"
    by (simp_all add: pending_state_def empty_col_def empty_row_def)
  note t = C2_lpFlush_order [where lpi = objlim_lpi and st = std_set and s = pending_state
      and c = 6 and r = 2, THEN conjunct2, THEN conjunct2, THEN conjunct2, THEN conjunct2,
      THEN conjunct2, THEN conjunct2, THEN conjunct2, THEN mp, OF conjI [OF pending_state_lp(1) ev(1)]]
  show ?thesis
    using t ev d p
    by (simp add: pending_state_lp pending_state_unchanged_end i)
qed

text \<open>A flushed, not yet solved LP with one resident row and one resident column.\<close>

definition flushed_state :: STATE where
  "flushed_state = upd_lp (\<lambda>l. l\<lparr>lp_solved := False,
      lp_lpsolstat := SCIP_LPSOLSTAT_NOTSOLVED\<rparr>) resident_state"

text \<open>
  Claim C7, as amended. When the flush has succeeded, the primal simplex was called and
  the feasibility of the basis was read without error, and the solver then reports that
  the objective limit was exceeded, \<open>SCIPlpSolvePrimal\<close> returns \<open>SCIP_LPERROR\<close> with
  the solution status ERROR and the objective value minus infinity. The call does not
  assign the solved flag: the flag is as the flush left it, an LP that was unsolved
  before the call is unsolved after it, and an LP that was flushed before the call has
  the solved flag it had before the call, so that a flushed and solved LP is still
  marked solved.
\<close>

theorem C7_primal_objlimit_is_error:
  assumes "fst (lpFlush lpi st s) = SCIP_OKAY"
    and "lpi_retcode lpi (lp_lpicalls (h_lp (snd (lpFlush lpi st s)))) LpiSolvePrimal = SCIP_OKAY"
    and "lpi_retcode lpi (lp_lpicalls (h_lp (snd (lpFlush lpi st s))) @ [LpiSolvePrimal])
           LpiGetBasisFeasibility = SCIP_OKAY"
    and "SCIPlpiIsObjlimExc lpi"
  shows "fst (SCIPlpSolvePrimal lpi st s) = SCIP_LPERROR
    \<and> lp_lpsolstat (h_lp (snd (SCIPlpSolvePrimal lpi st s))) = SCIP_LPSOLSTAT_ERROR
    \<and> lp_objval (h_lp (snd (SCIPlpSolvePrimal lpi st s))) = - set_infinity st
    \<and> lp_solved (h_lp (snd (SCIPlpSolvePrimal lpi st s)))
        = lp_solved (h_lp (snd (lpFlush lpi st s)))
    \<and> (\<not> lp_solved (h_lp s) \<longrightarrow> \<not> lp_solved (h_lp (snd (SCIPlpSolvePrimal lpi st s))))
    \<and> (lp_flushed (h_lp s) \<longrightarrow>
          lp_solved (h_lp (snd (SCIPlpSolvePrimal lpi st s))) = lp_solved (h_lp s))"
proof -
  have m: "lp_solved (h_lp (snd (lpFlush lpi st s))) \<longrightarrow> lp_solved (h_lp s)"
    using lpFlush_upto [of s lpi st] by (simp add: flush_upto_def)
  have f: "lp_flushed (h_lp s) \<longrightarrow> snd (lpFlush lpi st s) = s"
    by (simp add: lpFlush_def)
  have e: "fst (SCIPlpSolvePrimal lpi st s) = SCIP_LPERROR
    \<and> lp_lpsolstat (h_lp (snd (SCIPlpSolvePrimal lpi st s))) = SCIP_LPSOLSTAT_ERROR
    \<and> lp_objval (h_lp (snd (SCIPlpSolvePrimal lpi st s))) = - set_infinity st
    \<and> lp_solved (h_lp (snd (SCIPlpSolvePrimal lpi st s)))
        = lp_solved (h_lp (snd (lpFlush lpi st s)))"
    using assms
    by (auto simp: SCIPlpSolvePrimal_def check_okay_def lpi_call_def Let_def
          SCIPlpiIsObjlimExc_def SCIPlpiIsOptimal_def SCIPlpiIsPrimalInfeasible_def
          SCIPlpiIsPrimalUnbounded_def SCIPlpiIsIterlimExc_def SCIPlpiIsTimelimExc_def)
  show ?thesis
    using e m f by auto
qed

theorem C7_primal_objlimit_is_error_witness:
  "fst (lpFlush objlim_lpi std_set flushed_state) = SCIP_OKAY
   \<and> SCIPlpiIsObjlimExc objlim_lpi
   \<and> lp_flushed (h_lp flushed_state) \<and> \<not> lp_solved (h_lp flushed_state)
   \<and> fst (SCIPlpSolvePrimal objlim_lpi std_set flushed_state) = SCIP_LPERROR
   \<and> lp_lpsolstat (h_lp (snd (SCIPlpSolvePrimal objlim_lpi std_set flushed_state)))
       = SCIP_LPSOLSTAT_ERROR
   \<and> lp_objval (h_lp (snd (SCIPlpSolvePrimal objlim_lpi std_set flushed_state)))
       = - set_infinity std_set
   \<and> \<not> lp_solved (h_lp (snd (SCIPlpSolvePrimal objlim_lpi std_set flushed_state)))"
proof -
  have fl: "lp_flushed (h_lp flushed_state)" "\<not> lp_solved (h_lp flushed_state)"
    by (simp_all add: flushed_state_def resident_state_def linked_state_def
          empty_state_def empty_lp_def)
  have a: "fst (lpFlush objlim_lpi std_set flushed_state) = SCIP_OKAY"
    using fl by (simp add: lpFlush_def)
  have b: "lpi_retcode objlim_lpi
      (lp_lpicalls (h_lp (snd (lpFlush objlim_lpi std_set flushed_state)))) LpiSolvePrimal
      = SCIP_OKAY"
    by (simp add: objlim_lpi_def)
  have c: "lpi_retcode objlim_lpi
      (lp_lpicalls (h_lp (snd (lpFlush objlim_lpi std_set flushed_state))) @ [LpiSolvePrimal])
      LpiGetBasisFeasibility = SCIP_OKAY"
    by (simp add: objlim_lpi_def)
  have d: "SCIPlpiIsObjlimExc objlim_lpi"
    by (simp add: SCIPlpiIsObjlimExc_def objlim_lpi_def)
  show ?thesis
    using a d fl C7_primal_objlimit_is_error [OF a b c d] by auto
qed

text \<open>
  The claim as stated has the solved flag not set after the call. On the flushed and
  solved LP \<open>resident_state\<close> the flush returns at once, the solver reports the
  objective limit, and the call returns \<open>SCIP_LPERROR\<close> with the solution status ERROR
  while the solved flag is still set.
\<close>

theorem C7_solved_flag_stays_counterexample:
  "lp_flushed (h_lp resident_state) \<and> lp_solved (h_lp resident_state)
   \<and> SCIPlpiIsObjlimExc objlim_lpi
   \<and> lpFlush objlim_lpi std_set resident_state = (SCIP_OKAY, resident_state)
   \<and> fst (SCIPlpSolvePrimal objlim_lpi std_set resident_state) = SCIP_LPERROR
   \<and> lp_lpsolstat (h_lp (snd (SCIPlpSolvePrimal objlim_lpi std_set resident_state)))
       = SCIP_LPSOLSTAT_ERROR
   \<and> lp_solved (h_lp (snd (SCIPlpSolvePrimal objlim_lpi std_set resident_state)))"
proof -
  have fl: "lp_flushed (h_lp resident_state)" "lp_solved (h_lp resident_state)"
    by (simp_all add: resident_state_def linked_state_def empty_state_def empty_lp_def)
  have a: "lpFlush objlim_lpi std_set resident_state = (SCIP_OKAY, resident_state)"
    using fl by (simp add: lpFlush_def)
  have d: "SCIPlpiIsObjlimExc objlim_lpi"
    by (simp add: SCIPlpiIsObjlimExc_def objlim_lpi_def)
  have r: "lpi_retcode objlim_lpi cs call = SCIP_OKAY" for cs call
    by (simp add: objlim_lpi_def)
  have t: "lpi_termination objlim_lpi = LPI_OBJLIMEXC"
    by (simp add: objlim_lpi_def)
  have e: "fst (SCIPlpSolvePrimal objlim_lpi std_set resident_state) = SCIP_LPERROR
    \<and> lp_lpsolstat (h_lp (snd (SCIPlpSolvePrimal objlim_lpi std_set resident_state)))
         = SCIP_LPSOLSTAT_ERROR
    \<and> lp_solved (h_lp (snd (SCIPlpSolvePrimal objlim_lpi std_set resident_state)))
         = lp_solved (h_lp resident_state)"
    using r t
    by (simp add: SCIPlpSolvePrimal_def a check_okay_def lpi_call_def Let_def
          SCIPlpiIsObjlimExc_def SCIPlpiIsOptimal_def SCIPlpiIsPrimalInfeasible_def
          SCIPlpiIsPrimalUnbounded_def SCIPlpiIsIterlimExc_def SCIPlpiIsTimelimExc_def)
  show ?thesis
    using fl a d e by simp
qed

text \<open>
  Claim C10. \<open>SCIPcolGetPrimsol\<close> returns the cached primal solution value exactly for
  a column that is in the LP (\<open>lppos \<ge> 0\<close>), and 0 for every column that is not in the
  LP, whatever value the cache holds.
\<close>

theorem C10_colGetPrimsol:
  "SCIPcolGetPrimsol col = (if 0 \<le> col_lppos col then col_primsol col else 0)"
  by (simp add: SCIPcolGetPrimsol_def)

theorem C10_colGetPrimsol_witness:
  "SCIPcolGetPrimsol \<lparr>col_var = \<lparr>var_obj = 1, var_lb = 0, var_ub = 1\<rparr>,
      col_rows = (\<lambda>_. 0), col_vals = (\<lambda>_. 0), col_linkpos = (\<lambda>_. - 1),
      col_index = 0, col_len = 0, col_nunlinked = 0, col_lppos = - 1, col_lpipos = - 1,
      col_primsol = 7, col_redcost = 0, col_farkas = 0, col_strongdown = 0,
      col_strongup = 0, col_validredcostlp = - 1, col_validfarkaslp = - 1,
      col_strongitlim = - 1, col_sorted = True, col_lbchanged = False,
      col_ubchanged = False, col_coefchanged = False\<rparr> = 0"
  using C10_colGetPrimsol [of "\<lparr>col_var = \<lparr>var_obj = 1, var_lb = 0, var_ub = 1\<rparr>,
      col_rows = (\<lambda>_. 0), col_vals = (\<lambda>_. 0), col_linkpos = (\<lambda>_. - 1),
      col_index = 0, col_len = 0, col_nunlinked = 0, col_lppos = - 1, col_lpipos = - 1,
      col_primsol = 7, col_redcost = 0, col_farkas = 0, col_strongdown = 0,
      col_strongup = 0, col_validredcostlp = - 1, col_validfarkaslp = - 1,
      col_strongitlim = - 1, col_sorted = True, col_lbchanged = False,
      col_ubchanged = False, col_coefchanged = False\<rparr>"]
  by simp


subsection \<open>Bound tightening of a linear constraint\<close>

lemma linconsGetActivityResiduals_okay:
  "linconsGetActivityResiduals scip v val cs = (rc0, cs1, minres, maxres) \<Longrightarrow> rc0 = SCIP_OKAY"
  by (auto simp: linconsGetActivityResiduals_def Let_def split: if_splits)

lemma tightenUb_skip:
  "\<not> SCIPisSumLT scip x (ts_ub t) \<Longrightarrow> tightenUb scip v x t = (None, t)"
  by (simp add: tightenUb_def)

lemma tightenUb_cutoff:
  "SCIPisSumLT scip x (ts_ub t) \<Longrightarrow> SCIPisSumLT scip x (ts_lb t) \<Longrightarrow>
   tightenUb scip v x t = (Some SCIP_OKAY, t\<lparr>ts_result := SCIP_CUTOFF\<rparr>)"
  by (simp add: tightenUb_def)

lemma tightenUb_change:
  "SCIPisSumLT scip x (ts_ub t) \<Longrightarrow> \<not> SCIPisSumLT scip x (ts_lb t) \<Longrightarrow>
   SCIPchgVarUb scip v x (ts_cs t) = (rc', cs') \<Longrightarrow>
   tightenUb scip v x t =
     (if rc' \<noteq> SCIP_OKAY then
        (Some rc', t\<lparr>ts_cs := cs', ts_applied := ts_applied t @ [(SCIP_BOUNDTYPE_UPPER, v, x)]\<rparr>)
      else
        (None, t\<lparr>ts_cs := cs', ts_applied := ts_applied t @ [(SCIP_BOUNDTYPE_UPPER, v, x)],
                 ts_ub := SCIPvarGetUbLocal (cs_vars cs' v),
                 ts_nchgbds := ts_nchgbds t + 1, ts_result := SCIP_REDUCEDDOM\<rparr>))"
  by (simp add: tightenUb_def Let_def)

lemma tightenLb_skip:
  "\<not> SCIPisSumGT scip x (ts_lb t) \<Longrightarrow> tightenLb scip v x t = (None, t)"
  by (simp add: tightenLb_def)

lemma tightenLb_cutoff:
  "SCIPisSumGT scip x (ts_lb t) \<Longrightarrow> SCIPisSumGT scip x (ts_ub t) \<Longrightarrow>
   tightenLb scip v x t = (Some SCIP_OKAY, t\<lparr>ts_result := SCIP_CUTOFF\<rparr>)"
  by (simp add: tightenLb_def)

lemma tightenLb_change:
  "SCIPisSumGT scip x (ts_lb t) \<Longrightarrow> \<not> SCIPisSumGT scip x (ts_ub t) \<Longrightarrow>
   SCIPchgVarLb scip v x (ts_cs t) = (rc', cs') \<Longrightarrow>
   tightenLb scip v x t =
     (if rc' \<noteq> SCIP_OKAY then
        (Some rc', t\<lparr>ts_cs := cs', ts_applied := ts_applied t @ [(SCIP_BOUNDTYPE_LOWER, v, x)]\<rparr>)
      else
        (None, t\<lparr>ts_cs := cs', ts_applied := ts_applied t @ [(SCIP_BOUNDTYPE_LOWER, v, x)],
                 ts_lb := SCIPvarGetLbLocal (cs_vars cs' v),
                 ts_nchgbds := ts_nchgbds t + 1, ts_result := SCIP_REDUCEDDOM\<rparr>))"
  by (simp add: tightenLb_def Let_def)

text \<open>What a block does to the list of the requested changes, and to the rest.\<close>

lemma tightenUb_applied:
  "ts_applied (snd (tightenUb scip v x t)) = ts_applied t
     \<and> ts_cs (snd (tightenUb scip v x t)) = ts_cs t
     \<and> ts_nchgbds (snd (tightenUb scip v x t)) = ts_nchgbds t
   \<or> ts_applied (snd (tightenUb scip v x t)) = ts_applied t @ [(SCIP_BOUNDTYPE_UPPER, v, x)]
     \<and> SCIPisSumLT scip x (ts_ub t) \<and> \<not> SCIPisSumLT scip x (ts_lb t)"
  by (simp add: tightenUb_def Let_def)

lemma tightenLb_applied:
  "ts_applied (snd (tightenLb scip v x t)) = ts_applied t
     \<and> ts_cs (snd (tightenLb scip v x t)) = ts_cs t
     \<and> ts_nchgbds (snd (tightenLb scip v x t)) = ts_nchgbds t
   \<or> ts_applied (snd (tightenLb scip v x t)) = ts_applied t @ [(SCIP_BOUNDTYPE_LOWER, v, x)]"
  by (simp add: tightenLb_def Let_def)

text \<open>The start of a call, and the function for a positive coefficient.\<close>

definition tighten_start :: "CONSSTATE \<Rightarrow> varptr \<Rightarrow> int \<Rightarrow> RESULT \<Rightarrow> TSTATE" where
  "tighten_start cs1 v nchgbds result =
     \<lparr>ts_cs = cs1, ts_lb = SCIPvarGetLbLocal (cs_vars cs1 v),
      ts_ub = SCIPvarGetUbLocal (cs_vars cs1 v), ts_nchgbds = nchgbds,
      ts_result = result, ts_applied = []\<rparr>"

lemma linconsTightenVarBounds_pos:
  assumes "val > 0"
    and R: "linconsGetActivityResiduals scip v val cs = (rc0, cs1, minres, maxres)"
    and B1: "(if \<not> SCIPisInfinity scip (- minres) \<and> \<not> SCIPisInfinity scip (lc_rhs (cs_lincons cs))
              then tightenUb scip v ((lc_rhs (cs_lincons cs) - minres) / val)
                     (tighten_start cs1 v nchgbds result)
              else (None, tighten_start cs1 v nchgbds result)) = (r1, t1)"
    and B2: "(if \<not> SCIPisInfinity scip maxres \<and> \<not> SCIPisInfinity scip (- lc_lhs (cs_lincons cs))
              then tightenLb scip v ((lc_lhs (cs_lincons cs) - maxres) / val) t1
              else (None, t1)) = (r2, t2)"
  shows "linconsTightenVarBounds scip v val nchgbds result cs =
           (case r1 of Some rc1 \<Rightarrow> (rc1, t1)
            | None \<Rightarrow> (case r2 of Some rc2 \<Rightarrow> (rc2, t2) | None \<Rightarrow> (SCIP_OKAY, t2)))"
proof -
  have "rc0 = SCIP_OKAY"
    using R by (rule linconsGetActivityResiduals_okay)
  then show ?thesis
    unfolding linconsTightenVarBounds_def R Let_def prod.case tighten_start_def [symmetric]
    using assms(1) B1 B2 by (auto split: option.splits if_splits)
qed

lemma tighten_start_simps [simp]:
  "ts_cs (tighten_start cs1 v n r) = cs1"
  "ts_lb (tighten_start cs1 v n r) = SCIPvarGetLbLocal (cs_vars cs1 v)"
  "ts_ub (tighten_start cs1 v n r) = SCIPvarGetUbLocal (cs_vars cs1 v)"
  "ts_nchgbds (tighten_start cs1 v n r) = n"
  "ts_result (tighten_start cs1 v n r) = r"
  "ts_applied (tighten_start cs1 v n r) = []"
  by (simp_all add: tighten_start_def)

lemma tightenUb_lb [simp]: "ts_lb (snd (tightenUb scip v x t)) = ts_lb t"
  by (simp add: tightenUb_def Let_def)

text \<open>
  The requested changes of a call with a positive coefficient: none, the upper
  candidate, the lower candidate, or the upper candidate and then the lower one; the
  upper candidate only if it passed the two tests of its block.
\<close>

lemma linconsTightenVarBounds_pos_applied:
  assumes "val > 0"
    and R: "linconsGetActivityResiduals scip v val cs = (rc0, cs1, minres, maxres)"
    and T: "linconsTightenVarBounds scip v val nchgbds result cs = (rc, t)"
  shows "(ts_applied t = [] \<and> ts_cs t = cs1 \<and> ts_nchgbds t = nchgbds
          \<or> ts_applied t = [(SCIP_BOUNDTYPE_LOWER, v, (lc_lhs (cs_lincons cs) - maxres) / val)])
       \<or> (ts_applied t = [(SCIP_BOUNDTYPE_UPPER, v, (lc_rhs (cs_lincons cs) - minres) / val)]
           \<or> ts_applied t = [(SCIP_BOUNDTYPE_UPPER, v, (lc_rhs (cs_lincons cs) - minres) / val),
                             (SCIP_BOUNDTYPE_LOWER, v, (lc_lhs (cs_lincons cs) - maxres) / val)])
         \<and> \<not> SCIPisInfinity scip (- minres) \<and> \<not> SCIPisInfinity scip (lc_rhs (cs_lincons cs))
         \<and> SCIPisSumLT scip ((lc_rhs (cs_lincons cs) - minres) / val)
              (SCIPvarGetUbLocal (cs_vars cs1 v))
         \<and> \<not> SCIPisSumLT scip ((lc_rhs (cs_lincons cs) - minres) / val)
              (SCIPvarGetLbLocal (cs_vars cs1 v))"
proof -
  define t0 where "t0 = tighten_start cs1 v nchgbds result"
  define newub where "newub = (lc_rhs (cs_lincons cs) - minres) / val"
  define newlb where "newlb = (lc_lhs (cs_lincons cs) - maxres) / val"
  define U where "U \<longleftrightarrow> \<not> SCIPisInfinity scip (- minres) \<and> \<not> SCIPisInfinity scip (lc_rhs (cs_lincons cs))"
  define L where "L \<longleftrightarrow> \<not> SCIPisInfinity scip maxres \<and> \<not> SCIPisInfinity scip (- lc_lhs (cs_lincons cs))"
  obtain r1 t1 where B1: "(if U then tightenUb scip v newub t0 else (None, t0)) = (r1, t1)"
    by (cases "if U then tightenUb scip v newub t0 else (None, t0)") simp
  obtain r2 t2 where B2: "(if L then tightenLb scip v newlb t1 else (None, t1)) = (r2, t2)"
    by (cases "if L then tightenLb scip v newlb t1 else (None, t1)") simp
  have "linconsTightenVarBounds scip v val nchgbds result cs =
          (case r1 of Some rc1 \<Rightarrow> (rc1, t1)
           | None \<Rightarrow> (case r2 of Some rc2 \<Rightarrow> (rc2, t2) | None \<Rightarrow> (SCIP_OKAY, t2)))"
    using assms(1) R B1 B2 unfolding U_def L_def newub_def newlb_def t0_def
    by (rule linconsTightenVarBounds_pos)
  then have t: "t = t1 \<or> t = t2"
    using T by (auto split: option.splits)
  have a1: "ts_applied t1 = [] \<and> ts_cs t1 = cs1 \<and> ts_nchgbds t1 = nchgbds
          \<or> ts_applied t1 = [(SCIP_BOUNDTYPE_UPPER, v, newub)] \<and> U
            \<and> SCIPisSumLT scip newub (SCIPvarGetUbLocal (cs_vars cs1 v))
            \<and> \<not> SCIPisSumLT scip newub (SCIPvarGetLbLocal (cs_vars cs1 v))"
  proof (cases U)
    case True
    then have "t1 = snd (tightenUb scip v newub t0)"
      using B1 by simp
    then show ?thesis
      using tightenUb_applied [of scip v newub t0] True by (auto simp: t0_def)
  next
    case False
    then show ?thesis
      using B1 by (auto simp: t0_def)
  qed
  have a2: "ts_applied t2 = ts_applied t1 \<and> ts_cs t2 = ts_cs t1 \<and> ts_nchgbds t2 = ts_nchgbds t1
          \<or> ts_applied t2 = ts_applied t1 @ [(SCIP_BOUNDTYPE_LOWER, v, newlb)]"
  proof (cases L)
    case True
    then have "t2 = snd (tightenLb scip v newlb t1)"
      using B2 by simp
    then show ?thesis
      using tightenLb_applied [of scip v newlb t1] by auto
  next
    case False
    then show ?thesis
      using B2 by auto
  qed
  show ?thesis
    using t a1 a2 unfolding U_def newub_def [symmetric] newlb_def [symmetric] by auto
qed

lemma tighten_upper_crossing:
  assumes "val > 0"
    and R: "linconsGetActivityResiduals scip v val cs = (rc0, cs1, minres, maxres)"
    and T: "linconsTightenVarBounds scip v val nchgbds result cs = (rc, t)"
    and U: "\<not> SCIPisInfinity scip (- minres)" "\<not> SCIPisInfinity scip (lc_rhs (cs_lincons cs))"
    and X: "SCIPisSumLT scip ((lc_rhs (cs_lincons cs) - minres) / val) (SCIPvarGetUbLocal (cs_vars cs1 v))"
           "SCIPisSumLT scip ((lc_rhs (cs_lincons cs) - minres) / val) (SCIPvarGetLbLocal (cs_vars cs1 v))"
  shows "rc = SCIP_OKAY \<and> t = (tighten_start cs1 v nchgbds result)\<lparr>ts_result := SCIP_CUTOFF\<rparr>"
proof -
  define t0 where "t0 = tighten_start cs1 v nchgbds result"
  define t1 where "t1 = t0\<lparr>ts_result := SCIP_CUTOFF\<rparr>"
  define newlb where "newlb = (lc_lhs (cs_lincons cs) - maxres) / val"
  define L where "L \<longleftrightarrow> \<not> SCIPisInfinity scip maxres \<and> \<not> SCIPisInfinity scip (- lc_lhs (cs_lincons cs))"
  have B1: "(if \<not> SCIPisInfinity scip (- minres) \<and> \<not> SCIPisInfinity scip (lc_rhs (cs_lincons cs))
             then tightenUb scip v ((lc_rhs (cs_lincons cs) - minres) / val) t0
             else (None, t0)) = (Some SCIP_OKAY, t1)"
    using U X by (simp add: tightenUb_cutoff t0_def t1_def)
  obtain r2 t2 where B2: "(if L then tightenLb scip v newlb t1 else (None, t1)) = (r2, t2)"
    by (cases "if L then tightenLb scip v newlb t1 else (None, t1)") simp
  have "linconsTightenVarBounds scip v val nchgbds result cs =
          (case Some SCIP_OKAY of Some rc1 \<Rightarrow> (rc1, t1)
           | None \<Rightarrow> (case r2 of Some rc2 \<Rightarrow> (rc2, t2) | None \<Rightarrow> (SCIP_OKAY, t2)))"
    using assms(1) R B1 B2 unfolding L_def newlb_def t0_def
    by (rule linconsTightenVarBounds_pos)
  then show ?thesis
    using T by (simp add: t1_def t0_def)
qed

lemma tighten_lower_crossing_first:
  assumes "val > 0"
    and R: "linconsGetActivityResiduals scip v val cs = (rc0, cs1, minres, maxres)"
    and T: "linconsTightenVarBounds scip v val nchgbds result cs = (rc, t)"
    and U: "SCIPisInfinity scip (- minres) \<or> SCIPisInfinity scip (lc_rhs (cs_lincons cs))
            \<or> \<not> SCIPisSumLT scip ((lc_rhs (cs_lincons cs) - minres) / val)
                    (SCIPvarGetUbLocal (cs_vars cs1 v))"
    and L: "\<not> SCIPisInfinity scip maxres" "\<not> SCIPisInfinity scip (- lc_lhs (cs_lincons cs))"
    and X: "SCIPisSumGT scip ((lc_lhs (cs_lincons cs) - maxres) / val) (SCIPvarGetLbLocal (cs_vars cs1 v))"
           "SCIPisSumGT scip ((lc_lhs (cs_lincons cs) - maxres) / val) (SCIPvarGetUbLocal (cs_vars cs1 v))"
  shows "rc = SCIP_OKAY \<and> t = (tighten_start cs1 v nchgbds result)\<lparr>ts_result := SCIP_CUTOFF\<rparr>"
proof -
  define t0 where "t0 = tighten_start cs1 v nchgbds result"
  define t2 where "t2 = t0\<lparr>ts_result := SCIP_CUTOFF\<rparr>"
  have B1: "(if \<not> SCIPisInfinity scip (- minres) \<and> \<not> SCIPisInfinity scip (lc_rhs (cs_lincons cs))
             then tightenUb scip v ((lc_rhs (cs_lincons cs) - minres) / val) t0
             else (None, t0)) = (None, t0)"
    using U by (auto simp: tightenUb_skip t0_def)
  have B2: "(if \<not> SCIPisInfinity scip maxres \<and> \<not> SCIPisInfinity scip (- lc_lhs (cs_lincons cs))
             then tightenLb scip v ((lc_lhs (cs_lincons cs) - maxres) / val) t0
             else (None, t0)) = (Some SCIP_OKAY, t2)"
    using L X by (simp add: tightenLb_cutoff t0_def t2_def)
  have "linconsTightenVarBounds scip v val nchgbds result cs =
          (case None of Some rc1 \<Rightarrow> (rc1, t0)
           | None \<Rightarrow> (case Some SCIP_OKAY of Some rc2 \<Rightarrow> (rc2, t2) | None \<Rightarrow> (SCIP_OKAY, t2)))"
    using assms(1) R B1 B2 unfolding t0_def
    by (rule linconsTightenVarBounds_pos)
  then show ?thesis
    using T by (simp add: t2_def t0_def)
qed

lemma tighten_lower_crossing_second:
  assumes "val > 0"
    and R: "linconsGetActivityResiduals scip v val cs = (rc0, cs1, minres, maxres)"
    and T: "linconsTightenVarBounds scip v val nchgbds result cs = (rc, t)"
    and U: "\<not> SCIPisInfinity scip (- minres)" "\<not> SCIPisInfinity scip (lc_rhs (cs_lincons cs))"
           "SCIPisSumLT scip ((lc_rhs (cs_lincons cs) - minres) / val) (SCIPvarGetUbLocal (cs_vars cs1 v))"
           "\<not> SCIPisSumLT scip ((lc_rhs (cs_lincons cs) - minres) / val) (SCIPvarGetLbLocal (cs_vars cs1 v))"
    and C: "SCIPchgVarUb scip v ((lc_rhs (cs_lincons cs) - minres) / val) cs1 = (SCIP_OKAY, cs2)"
    and L: "\<not> SCIPisInfinity scip maxres" "\<not> SCIPisInfinity scip (- lc_lhs (cs_lincons cs))"
    and X: "SCIPisSumGT scip ((lc_lhs (cs_lincons cs) - maxres) / val) (SCIPvarGetLbLocal (cs_vars cs1 v))"
           "SCIPisSumGT scip ((lc_lhs (cs_lincons cs) - maxres) / val) (SCIPvarGetUbLocal (cs_vars cs2 v))"
  shows "rc = SCIP_OKAY \<and> ts_result t = SCIP_CUTOFF
       \<and> ts_applied t = [(SCIP_BOUNDTYPE_UPPER, v, (lc_rhs (cs_lincons cs) - minres) / val)]
       \<and> ts_cs t = cs2 \<and> ts_nchgbds t = nchgbds + 1"
proof -
  define t0 where "t0 = tighten_start cs1 v nchgbds result"
  define newub where "newub = (lc_rhs (cs_lincons cs) - minres) / val"
  define t1 where "t1 = t0\<lparr>ts_cs := cs2, ts_applied := ts_applied t0 @ [(SCIP_BOUNDTYPE_UPPER, v, newub)],
                 ts_ub := SCIPvarGetUbLocal (cs_vars cs2 v),
                 ts_nchgbds := ts_nchgbds t0 + 1, ts_result := SCIP_REDUCEDDOM\<rparr>"
  define t2 where "t2 = t1\<lparr>ts_result := SCIP_CUTOFF\<rparr>"
  have "tightenUb scip v newub t0 = (None, t1)"
    using tightenUb_change [of scip newub t0 v SCIP_OKAY cs2] U C
    by (simp add: t0_def t1_def newub_def)
  then have B1: "(if \<not> SCIPisInfinity scip (- minres) \<and> \<not> SCIPisInfinity scip (lc_rhs (cs_lincons cs))
             then tightenUb scip v ((lc_rhs (cs_lincons cs) - minres) / val) t0
             else (None, t0)) = (None, t1)"
    using U by (simp add: newub_def)
  have B2: "(if \<not> SCIPisInfinity scip maxres \<and> \<not> SCIPisInfinity scip (- lc_lhs (cs_lincons cs))
             then tightenLb scip v ((lc_lhs (cs_lincons cs) - maxres) / val) t1
             else (None, t1)) = (Some SCIP_OKAY, t2)"
    using L X by (simp add: tightenLb_cutoff t0_def t1_def t2_def)
  have "linconsTightenVarBounds scip v val nchgbds result cs =
          (case None of Some rc1 \<Rightarrow> (rc1, t1)
           | None \<Rightarrow> (case Some SCIP_OKAY of Some rc2 \<Rightarrow> (rc2, t2) | None \<Rightarrow> (SCIP_OKAY, t2)))"
    using assms(1) R B1 B2 unfolding t0_def
    by (rule linconsTightenVarBounds_pos)
  then show ?thesis
    using T by (simp add: t2_def t1_def t0_def newub_def)
qed

text \<open>
  The residual minimum activity of a constraint with the single term \<open>1 * x\<close>,
  \<open>x\<close> in \<open>[10, 20]\<close>, whose activities are not yet computed or are the exact ones.
\<close>

lemma single_column_residuals:
  assumes S: "scip_set scip = std_set"
    and N: "lc_nvars (cs_lincons cs) = 1" "lc_vars (cs_lincons cs) 0 = v"
           "lc_vals (cs_lincons cs) 0 = 1"
    and A: "lc_validactivities (cs_lincons cs) \<longrightarrow>
              lc_minactivityinf (cs_lincons cs) = 0 \<and> lc_minactivity (cs_lincons cs) = 10"
    and B: "var_lb (cs_vars cs v) = 10" "var_ub (cs_vars cs v) = 20"
    and R: "linconsGetActivityResiduals scip v 1 cs = (rc0, cs1, minres, maxres)"
  shows "minres = 0 \<and> cs_vars cs1 = cs_vars cs"
proof (cases "lc_validactivities (cs_lincons cs)")
  case True
  then show ?thesis
    using A B R
    by (auto simp: linconsGetActivityResiduals_def Let_def SCIPisInfinity_def S std_set_def
          SCIPvarGetLbLocal_def SCIPvarGetUbLocal_def)
next
  case False
  define lc0 where "lc0 = (cs_lincons cs)\<lparr>lc_validactivities := True, lc_pseudoactivity := 0,
             lc_minactivity := 0, lc_maxactivity := 0,
             lc_minactivityinf := 0, lc_maxactivityinf := 0\<rparr>"
  define lc1 where "lc1 = linconsUpdateAddCoef scip (cs_vars cs v) 1 lc0"
  have "linconsCalcActivities_loop scip (cs_vars cs) 0 lc0 =
          linconsCalcActivities_loop scip (cs_vars cs) 1 lc1"
    using N by (subst linconsCalcActivities_loop.simps) (simp add: lc0_def lc1_def)
  also have "\<dots> = lc1"
    using N by (subst linconsCalcActivities_loop.simps) (simp add: lc0_def lc1_def)
  finally have C: "linconsCalcActivities scip cs = cs\<lparr>cs_lincons := lc1\<rparr>"
    by (simp add: linconsCalcActivities_def lc0_def)
  have "lc_minactivityinf lc1 = 0 \<and> lc_minactivity lc1 = 10"
    using B
    by (simp add: lc1_def lc0_def linconsUpdateAddCoef_def linconsUpdateChgLb_def
          linconsUpdateChgUb_def Let_def SCIPisInfinity_def S std_set_def
          SCIPvarGetLbLocal_def SCIPvarGetUbLocal_def)
  then show ?thesis
    using False B R
    by (auto simp: linconsGetActivityResiduals_def C Let_def SCIPisInfinity_def S std_set_def
          SCIPvarGetLbLocal_def SCIPvarGetUbLocal_def)
qed

lemma single_column_cutoff:
  assumes S: "scip_set scip = std_set"
    and N: "lc_nvars (cs_lincons cs) = 1" "lc_vars (cs_lincons cs) 0 = v"
           "lc_vals (cs_lincons cs) 0 = 1"
    and A: "lc_validactivities (cs_lincons cs) \<longrightarrow>
              lc_minactivityinf (cs_lincons cs) = 0 \<and> lc_minactivity (cs_lincons cs) = 10"
    and B: "var_lb (cs_vars cs v) = 10" "var_ub (cs_vars cs v) = 20"
    and H: "lc_rhs (cs_lincons cs) = 5"
    and R: "linconsGetActivityResiduals scip v 1 cs = (rc0, cs1, minres, maxres)"
    and T: "linconsTightenVarBounds scip v 1 nchgbds result cs = (rc, t)"
  shows "rc = SCIP_OKAY \<and> ts_result t = SCIP_CUTOFF \<and> ts_applied t = []
       \<and> cs_vars (ts_cs t) = cs_vars cs \<and> ts_nchgbds t = nchgbds"
proof -
  have m: "minres = 0 \<and> cs_vars cs1 = cs_vars cs"
    using S N A B R by (rule single_column_residuals)
  have "rc = SCIP_OKAY \<and> t = (tighten_start cs1 v nchgbds result)\<lparr>ts_result := SCIP_CUTOFF\<rparr>"
    using m B H
    by (intro tighten_upper_crossing [OF _ R T])
       (simp_all add: SCIPisInfinity_def SCIPisSumLT_def S std_set_def
          SCIPvarGetLbLocal_def SCIPvarGetUbLocal_def)
  then show ?thesis
    using m by simp
qed

text \<open>
  Modelled from the spec: two bound changes for the examples, as \<open>SCIPchgVarLb\<close> and
  \<open>SCIPchgVarUb\<close> are not among the sources. The first stores the new bound of a
  continuous variable; the second stores the bound of an integer variable, rounded to
  the next integer inside the domain. Both leave the constraint as it is: a call of
  \<open>linconsTightenVarBounds\<close> does not read the activities again after a bound change.
\<close>

definition set_var_lb :: "varptr \<Rightarrow> real \<Rightarrow> CONSSTATE \<Rightarrow> CONSSTATE" where
  "set_var_lb v x cs = cs\<lparr>cs_vars := (cs_vars cs)(v := (cs_vars cs v)\<lparr>var_lb := x\<rparr>)\<rparr>"

definition set_var_ub :: "varptr \<Rightarrow> real \<Rightarrow> CONSSTATE \<Rightarrow> CONSSTATE" where
  "set_var_ub v x cs = cs\<lparr>cs_vars := (cs_vars cs)(v := (cs_vars cs v)\<lparr>var_ub := x\<rparr>)\<rparr>"

definition continuous_scip :: SCIP where
  "continuous_scip = \<lparr>scip_set = std_set,
     SCIPchgVarLb = (\<lambda>v x cs. (SCIP_OKAY, set_var_lb v x cs)),
     SCIPchgVarUb = (\<lambda>v x cs. (SCIP_OKAY, set_var_ub v x cs))\<rparr>"

definition integer_scip :: SCIP where
  "integer_scip = \<lparr>scip_set = std_set,
     SCIPchgVarLb = (\<lambda>v x cs. (SCIP_OKAY, set_var_lb v (of_int \<lceil>x\<rceil>) cs)),
     SCIPchgVarUb = (\<lambda>v x cs. (SCIP_OKAY, set_var_ub v (of_int \<lfloor>x\<rfloor>) cs))\<rparr>"

text \<open>
  The constraint \<open>lhs \<le> 1 * x \<le> rhs\<close> on the variable at address 1 with the bounds
  \<open>[lb, ub]\<close>, with its activities computed.
\<close>

definition single_column :: "real \<Rightarrow> real \<Rightarrow> real \<Rightarrow> real \<Rightarrow> CONSSTATE" where
  "single_column lb ub lhs rhs =
     \<lparr>cs_vars = (\<lambda>_. \<lparr>var_obj = 0, var_lb = lb, var_ub = ub\<rparr>),
      cs_lincons = \<lparr>lc_vars = (\<lambda>_. 1), lc_vals = (\<lambda>_. 1), lc_lhs = lhs, lc_rhs = rhs,
        lc_pseudoactivity = lb, lc_minactivity = lb, lc_maxactivity = ub,
        lc_minactivityinf = 0, lc_maxactivityinf = 0, lc_nvars = 1,
        lc_modifiable = False, lc_validactivities = True\<rparr>\<rparr>"

lemma single_column_residuals_zero:
  assumes "scip_set scip = std_set" "- (10 ^ 20) < lb" "ub < 10 ^ 20"
  shows "linconsGetActivityResiduals scip 1 1 (single_column lb ub lhs rhs) =
           (SCIP_OKAY, single_column lb ub lhs rhs, 0, 0)"
  using assms
  by (simp add: linconsGetActivityResiduals_def single_column_def Let_def SCIPisInfinity_def
        std_set_def SCIPvarGetLbLocal_def SCIPvarGetUbLocal_def)

lemma single_column_fields:
  "lc_lhs (cs_lincons (single_column lb ub lhs rhs)) = lhs"
  "lc_rhs (cs_lincons (single_column lb ub lhs rhs)) = rhs"
  "lc_nvars (cs_lincons (single_column lb ub lhs rhs)) = 1"
  "lc_vars (cs_lincons (single_column lb ub lhs rhs)) 0 = 1"
  "lc_vals (cs_lincons (single_column lb ub lhs rhs)) 0 = 1"
  "lc_validactivities (cs_lincons (single_column lb ub lhs rhs))"
  "lc_minactivityinf (cs_lincons (single_column lb ub lhs rhs)) = 0"
  "lc_minactivity (cs_lincons (single_column lb ub lhs rhs)) = lb"
  "cs_vars (single_column lb ub lhs rhs) v = \<lparr>var_obj = 0, var_lb = lb, var_ub = ub\<rparr>"
  by (simp_all add: single_column_def)

lemma std_scip_simps:
  "SCIPisInfinity continuous_scip x \<longleftrightarrow> x \<ge> 10 ^ 20"
  "SCIPisSumLT continuous_scip x y \<longleftrightarrow> x - y < - (1 / 10 ^ 6)"
  "SCIPisSumGT continuous_scip x y \<longleftrightarrow> x - y > 1 / 10 ^ 6"
  "SCIPisInfinity integer_scip x \<longleftrightarrow> x \<ge> 10 ^ 20"
  "SCIPisSumLT integer_scip x y \<longleftrightarrow> x - y < - (1 / 10 ^ 6)"
  "SCIPisSumGT integer_scip x y \<longleftrightarrow> x - y > 1 / 10 ^ 6"
  "scip_set continuous_scip = std_set"
  "scip_set integer_scip = std_set"
  "SCIPchgVarUb continuous_scip v x cs = (SCIP_OKAY, set_var_ub v x cs)"
  "SCIPchgVarUb integer_scip v x cs = (SCIP_OKAY, set_var_ub v (of_int \<lfloor>x\<rfloor>) cs)"
  by (simp_all add: SCIPisInfinity_def SCIPisSumLT_def SCIPisSumGT_def continuous_scip_def
        integer_scip_def std_set_def)

lemma set_var_ub_reads:
  "SCIPvarGetUbLocal (cs_vars (set_var_ub v x cs) v) = x"
  "SCIPvarGetLbLocal (cs_vars (set_var_ub v x cs) v) = SCIPvarGetLbLocal (cs_vars cs v)"
  "var_ub (cs_vars (set_var_ub v x cs) v) = x"
  by (simp_all add: set_var_ub_def SCIPvarGetUbLocal_def SCIPvarGetLbLocal_def)

lemma single_column_reads:
  "SCIPvarGetLbLocal (cs_vars (single_column lb ub lhs rhs) v) = lb"
  "SCIPvarGetUbLocal (cs_vars (single_column lb ub lhs rhs) v) = ub"
  "var_lb (cs_vars (single_column lb ub lhs rhs) v) = lb"
  "var_ub (cs_vars (single_column lb ub lhs rhs) v) = ub"
  by (simp_all add: single_column_def SCIPvarGetUbLocal_def SCIPvarGetLbLocal_def)

text \<open>
  Claim C5, as amended. A call of \<open>linconsTightenVarBounds\<close> with a positive coefficient,
  \<open>newub = (rhs - minresactivity) / val\<close> and \<open>newlb = (lhs - maxresactivity) / val\<close>:
  the upper candidate is passed to \<open>SCIPchgVarUb\<close> only if the residual minimum activity
  and the right hand side are finite and it is below the upper bound by more than the
  tolerance for sums (and not below the lower bound by more than it); a call that
  requests no change leaves the state and the counter as they are. If the upper
  candidate crosses the lower bound, the call returns \<open>SCIP_OKAY\<close> with the result
  \<open>SCIP_CUTOFF\<close> and no change requested. If the lower candidate crosses the upper
  bound and the upper candidate was not applied, the same holds. If the upper candidate
  was applied and the lower candidate crosses the upper bound read after that change,
  the call returns \<open>SCIP_OKAY\<close> with the result \<open>SCIP_CUTOFF\<close>, and the change of the
  upper bound is the one change it has applied. For the constraint with the single
  term \<open>1 * x\<close>, the right hand side 5 and \<open>x\<close> in \<open>[10, 20]\<close> the call reports the
  cutoff with no change requested.
\<close>

theorem C5_tighten_var_bounds:
  fixes lb ub newub newlb lhs rhs :: real
  assumes "val > 0"
    and "linconsGetActivityResiduals scip v val cs = (rc0, cs1, minres, maxres)"
    and "linconsTightenVarBounds scip v val nchgbds result cs = (rc, t)"
  defines "lhs \<equiv> lc_lhs (cs_lincons cs)"
    and "rhs \<equiv> lc_rhs (cs_lincons cs)"
    and "lb \<equiv> SCIPvarGetLbLocal (cs_vars cs1 v)"
    and "ub \<equiv> SCIPvarGetUbLocal (cs_vars cs1 v)"
    and "newub \<equiv> (lc_rhs (cs_lincons cs) - minres) / val"
    and "newlb \<equiv> (lc_lhs (cs_lincons cs) - maxres) / val"
  shows "((SCIP_BOUNDTYPE_UPPER, w, x) \<in> set (ts_applied t) \<longrightarrow>
            w = v \<and> x = newub \<and> \<not> SCIPisInfinity scip (- minres) \<and> \<not> SCIPisInfinity scip rhs
            \<and> SCIPisSumLT scip newub ub \<and> \<not> SCIPisSumLT scip newub lb)
       \<and> (ts_applied t = [] \<longrightarrow> ts_cs t = cs1 \<and> ts_nchgbds t = nchgbds)
       \<and> (\<not> SCIPisInfinity scip (- minres) \<and> \<not> SCIPisInfinity scip rhs
            \<and> SCIPisSumLT scip newub ub \<and> SCIPisSumLT scip newub lb \<longrightarrow>
            rc = SCIP_OKAY \<and> ts_result t = SCIP_CUTOFF \<and> ts_applied t = [])
       \<and> ((SCIPisInfinity scip (- minres) \<or> SCIPisInfinity scip rhs
              \<or> \<not> SCIPisSumLT scip newub ub)
            \<and> \<not> SCIPisInfinity scip maxres \<and> \<not> SCIPisInfinity scip (- lhs)
            \<and> SCIPisSumGT scip newlb lb \<and> SCIPisSumGT scip newlb ub \<longrightarrow>
            rc = SCIP_OKAY \<and> ts_result t = SCIP_CUTOFF \<and> ts_applied t = [])
       \<and> (\<not> SCIPisInfinity scip (- minres) \<and> \<not> SCIPisInfinity scip rhs
            \<and> SCIPisSumLT scip newub ub \<and> \<not> SCIPisSumLT scip newub lb
            \<and> SCIPchgVarUb scip v newub cs1 = (SCIP_OKAY, csu)
            \<and> \<not> SCIPisInfinity scip maxres \<and> \<not> SCIPisInfinity scip (- lhs)
            \<and> SCIPisSumGT scip newlb lb
            \<and> SCIPisSumGT scip newlb (SCIPvarGetUbLocal (cs_vars csu v)) \<longrightarrow>
            rc = SCIP_OKAY \<and> ts_result t = SCIP_CUTOFF
            \<and> ts_applied t = [(SCIP_BOUNDTYPE_UPPER, v, newub)]
            \<and> ts_cs t = csu \<and> ts_nchgbds t = nchgbds + 1)
       \<and> (scip_set scip = std_set \<and> val = 1 \<and> lc_nvars (cs_lincons cs) = 1
            \<and> lc_vars (cs_lincons cs) 0 = v \<and> lc_vals (cs_lincons cs) 0 = 1
            \<and> (lc_validactivities (cs_lincons cs) \<longrightarrow>
                 lc_minactivityinf (cs_lincons cs) = 0 \<and> lc_minactivity (cs_lincons cs) = 10)
            \<and> var_lb (cs_vars cs v) = 10 \<and> var_ub (cs_vars cs v) = 20 \<and> rhs = 5 \<longrightarrow>
            rc = SCIP_OKAY \<and> ts_result t = SCIP_CUTOFF \<and> ts_applied t = []
            \<and> cs_vars (ts_cs t) = cs_vars cs \<and> ts_nchgbds t = nchgbds)"
proof -
  note R = assms(2) and T = assms(3)
  have 1: "(SCIP_BOUNDTYPE_UPPER, w, x) \<in> set (ts_applied t) \<longrightarrow>
            w = v \<and> x = newub \<and> \<not> SCIPisInfinity scip (- minres) \<and> \<not> SCIPisInfinity scip rhs
            \<and> SCIPisSumLT scip newub ub \<and> \<not> SCIPisSumLT scip newub lb"
    using linconsTightenVarBounds_pos_applied [OF assms(1) R T]
    unfolding newub_def rhs_def ub_def lb_def by auto
  have 2: "ts_applied t = [] \<longrightarrow> ts_cs t = cs1 \<and> ts_nchgbds t = nchgbds"
    using linconsTightenVarBounds_pos_applied [OF assms(1) R T] by auto
  have 3: "\<not> SCIPisInfinity scip (- minres) \<and> \<not> SCIPisInfinity scip rhs
            \<and> SCIPisSumLT scip newub ub \<and> SCIPisSumLT scip newub lb \<longrightarrow>
            rc = SCIP_OKAY \<and> ts_result t = SCIP_CUTOFF \<and> ts_applied t = []"
    using tighten_upper_crossing [OF assms(1) R T]
    unfolding newub_def rhs_def ub_def lb_def by auto
  have 4: "(SCIPisInfinity scip (- minres) \<or> SCIPisInfinity scip rhs
              \<or> \<not> SCIPisSumLT scip newub ub)
            \<and> \<not> SCIPisInfinity scip maxres \<and> \<not> SCIPisInfinity scip (- lhs)
            \<and> SCIPisSumGT scip newlb lb \<and> SCIPisSumGT scip newlb ub \<longrightarrow>
            rc = SCIP_OKAY \<and> ts_result t = SCIP_CUTOFF \<and> ts_applied t = []"
    using tighten_lower_crossing_first [OF assms(1) R T]
    unfolding newub_def newlb_def rhs_def lhs_def ub_def lb_def by auto
  have 5: "\<not> SCIPisInfinity scip (- minres) \<and> \<not> SCIPisInfinity scip rhs
            \<and> SCIPisSumLT scip newub ub \<and> \<not> SCIPisSumLT scip newub lb
            \<and> SCIPchgVarUb scip v newub cs1 = (SCIP_OKAY, csu)
            \<and> \<not> SCIPisInfinity scip maxres \<and> \<not> SCIPisInfinity scip (- lhs)
            \<and> SCIPisSumGT scip newlb lb
            \<and> SCIPisSumGT scip newlb (SCIPvarGetUbLocal (cs_vars csu v)) \<longrightarrow>
            rc = SCIP_OKAY \<and> ts_result t = SCIP_CUTOFF
            \<and> ts_applied t = [(SCIP_BOUNDTYPE_UPPER, v, newub)]
            \<and> ts_cs t = csu \<and> ts_nchgbds t = nchgbds + 1"
    using tighten_lower_crossing_second [OF assms(1) R T, of csu]
    unfolding newub_def newlb_def rhs_def lhs_def ub_def lb_def by blast
  have 6: "scip_set scip = std_set \<and> val = 1 \<and> lc_nvars (cs_lincons cs) = 1
            \<and> lc_vars (cs_lincons cs) 0 = v \<and> lc_vals (cs_lincons cs) 0 = 1
            \<and> (lc_validactivities (cs_lincons cs) \<longrightarrow>
                 lc_minactivityinf (cs_lincons cs) = 0 \<and> lc_minactivity (cs_lincons cs) = 10)
            \<and> var_lb (cs_vars cs v) = 10 \<and> var_ub (cs_vars cs v) = 20 \<and> rhs = 5 \<longrightarrow>
            rc = SCIP_OKAY \<and> ts_result t = SCIP_CUTOFF \<and> ts_applied t = []
            \<and> cs_vars (ts_cs t) = cs_vars cs \<and> ts_nchgbds t = nchgbds"
    using single_column_cutoff [of scip cs v rc0 cs1 minres maxres nchgbds result rc t] R T
    unfolding rhs_def by blast
  show ?thesis
    using 1 2 3 4 5 6 by blast
qed

theorem C5_tighten_var_bounds_witness:
  "(0 :: real) < 1
   \<and> linconsGetActivityResiduals continuous_scip 1 1 (single_column 10 20 (- (10 ^ 20)) 5) =
       (SCIP_OKAY, single_column 10 20 (- (10 ^ 20)) 5, 0, 0)
   \<and> linconsTightenVarBounds continuous_scip 1 1 0 SCIP_DIDNOTFIND
         (single_column 10 20 (- (10 ^ 20)) 5)
      = (SCIP_OKAY, snd (linconsTightenVarBounds continuous_scip 1 1 0 SCIP_DIDNOTFIND
         (single_column 10 20 (- (10 ^ 20)) 5)))
   \<and> ts_result (snd (linconsTightenVarBounds continuous_scip 1 1 0 SCIP_DIDNOTFIND
         (single_column 10 20 (- (10 ^ 20)) 5))) = SCIP_CUTOFF
   \<and> ts_applied (snd (linconsTightenVarBounds continuous_scip 1 1 0 SCIP_DIDNOTFIND
         (single_column 10 20 (- (10 ^ 20)) 5))) = []
   \<and> linconsGetActivityResiduals integer_scip 1 1 (single_column 0 10 (21 / 5) (9 / 2)) =
       (SCIP_OKAY, single_column 0 10 (21 / 5) (9 / 2), 0, 0)
   \<and> SCIPchgVarUb integer_scip 1 (9 / 2) (single_column 0 10 (21 / 5) (9 / 2)) =
       (SCIP_OKAY, set_var_ub 1 4 (single_column 0 10 (21 / 5) (9 / 2)))
   \<and> ts_result (snd (linconsTightenVarBounds integer_scip 1 1 0 SCIP_DIDNOTFIND
         (single_column 0 10 (21 / 5) (9 / 2)))) = SCIP_CUTOFF
   \<and> ts_applied (snd (linconsTightenVarBounds integer_scip 1 1 0 SCIP_DIDNOTFIND
         (single_column 0 10 (21 / 5) (9 / 2)))) = [(SCIP_BOUNDTYPE_UPPER, 1, 9 / 2)]
   \<and> ts_cs (snd (linconsTightenVarBounds integer_scip 1 1 0 SCIP_DIDNOTFIND
         (single_column 0 10 (21 / 5) (9 / 2)))) = set_var_ub 1 4 (single_column 0 10 (21 / 5) (9 / 2))"
proof -
  let ?a = "single_column 10 20 (- (10 ^ 20)) 5"
  let ?b = "single_column 0 10 (21 / 5) (9 / 2)"
  have Ra: "linconsGetActivityResiduals continuous_scip 1 1 ?a = (SCIP_OKAY, ?a, 0, 0)"
    by (rule single_column_residuals_zero) (simp_all add: std_scip_simps)
  have Rb: "linconsGetActivityResiduals integer_scip 1 1 ?b = (SCIP_OKAY, ?b, 0, 0)"
    by (rule single_column_residuals_zero) (simp_all add: std_scip_simps)
  have Cb: "SCIPchgVarUb integer_scip 1 (9 / 2) ?b = (SCIP_OKAY, set_var_ub 1 4 ?b)"
    by (simp add: std_scip_simps)
  have a: "fst (linconsTightenVarBounds continuous_scip 1 1 0 SCIP_DIDNOTFIND ?a) = SCIP_OKAY
         \<and> ts_result (snd (linconsTightenVarBounds continuous_scip 1 1 0 SCIP_DIDNOTFIND ?a)) = SCIP_CUTOFF
         \<and> ts_applied (snd (linconsTightenVarBounds continuous_scip 1 1 0 SCIP_DIDNOTFIND ?a)) = []
         \<and> cs_vars (ts_cs (snd (linconsTightenVarBounds continuous_scip 1 1 0 SCIP_DIDNOTFIND ?a)))
             = cs_vars ?a
         \<and> ts_nchgbds (snd (linconsTightenVarBounds continuous_scip 1 1 0 SCIP_DIDNOTFIND ?a)) = 0"
    by (rule C5_tighten_var_bounds [where nchgbds = 0 and result = SCIP_DIDNOTFIND,
          OF zero_less_one Ra surjective_pairing, THEN conjunct2, THEN conjunct2, THEN conjunct2,
          THEN conjunct2, THEN conjunct2, THEN mp])
       (simp add: std_scip_simps single_column_fields single_column_reads
          SCIPvarGetLbLocal_def SCIPvarGetUbLocal_def)
  have b: "fst (linconsTightenVarBounds integer_scip 1 1 0 SCIP_DIDNOTFIND ?b) = SCIP_OKAY
         \<and> ts_result (snd (linconsTightenVarBounds integer_scip 1 1 0 SCIP_DIDNOTFIND ?b)) = SCIP_CUTOFF
         \<and> ts_applied (snd (linconsTightenVarBounds integer_scip 1 1 0 SCIP_DIDNOTFIND ?b))
             = [(SCIP_BOUNDTYPE_UPPER, 1, (lc_rhs (cs_lincons ?b) - 0) / 1)]
         \<and> ts_cs (snd (linconsTightenVarBounds integer_scip 1 1 0 SCIP_DIDNOTFIND ?b))
             = set_var_ub 1 4 ?b
         \<and> ts_nchgbds (snd (linconsTightenVarBounds integer_scip 1 1 0 SCIP_DIDNOTFIND ?b)) = 0 + 1"
    by (rule C5_tighten_var_bounds [where nchgbds = 0 and result = SCIP_DIDNOTFIND,
          OF zero_less_one Rb surjective_pairing, THEN conjunct2, THEN conjunct2, THEN conjunct2,
          THEN conjunct2, THEN conjunct1, THEN mp])
       (simp add: std_scip_simps single_column_fields single_column_reads set_var_ub_reads
          SCIPvarGetLbLocal_def SCIPvarGetUbLocal_def)
  show ?thesis
    using a b Ra Rb Cb by (simp add: prod_eq_iff single_column_fields)
qed

text \<open>
  The claim as it was stated lets a call that reports a cutoff apply no bound change.
  Two calls that report the cutoff after the upper bound was changed: one with the left
  hand side 12 above the right hand side 5 for a continuous variable in \<open>[0, 10]\<close>,
  where the lower candidate 12 is above the upper bound 10 of the call and above the
  upper bound 5 set in it; and one with the sides \<open>[21/5, 9/2]\<close> for an integer
  variable in \<open>[0, 10]\<close>, where the upper bound is rounded down to 4 and the lower
  candidate \<open>21/5\<close> is above it.
\<close>

theorem C5_cutoff_after_bound_change_counterexample:
  "linconsGetActivityResiduals continuous_scip 1 1 (single_column 0 10 12 5) =
       (SCIP_OKAY, single_column 0 10 12 5, 0, 0)
   \<and> \<not> SCIPisInfinity continuous_scip (- 0) \<and> \<not> SCIPisInfinity continuous_scip 5
   \<and> SCIPisSumGT continuous_scip ((12 - 0) / 1) (var_ub (cs_vars (single_column 0 10 12 5) 1))
   \<and> fst (linconsTightenVarBounds continuous_scip 1 1 0 SCIP_DIDNOTFIND (single_column 0 10 12 5))
       = SCIP_OKAY
   \<and> ts_result (snd (linconsTightenVarBounds continuous_scip 1 1 0 SCIP_DIDNOTFIND
         (single_column 0 10 12 5))) = SCIP_CUTOFF
   \<and> ts_applied (snd (linconsTightenVarBounds continuous_scip 1 1 0 SCIP_DIDNOTFIND
         (single_column 0 10 12 5))) = [(SCIP_BOUNDTYPE_UPPER, 1, 5)]
   \<and> ts_nchgbds (snd (linconsTightenVarBounds continuous_scip 1 1 0 SCIP_DIDNOTFIND
         (single_column 0 10 12 5))) = 1
   \<and> var_ub (cs_vars (single_column 0 10 12 5) 1) = 10
   \<and> var_ub (cs_vars (ts_cs (snd (linconsTightenVarBounds continuous_scip 1 1 0 SCIP_DIDNOTFIND
         (single_column 0 10 12 5)))) 1) = 5
   \<and> linconsGetActivityResiduals integer_scip 1 1 (single_column 0 10 (21 / 5) (9 / 2)) =
       (SCIP_OKAY, single_column 0 10 (21 / 5) (9 / 2), 0, 0)
   \<and> ts_result (snd (linconsTightenVarBounds integer_scip 1 1 0 SCIP_DIDNOTFIND
         (single_column 0 10 (21 / 5) (9 / 2)))) = SCIP_CUTOFF
   \<and> ts_applied (snd (linconsTightenVarBounds integer_scip 1 1 0 SCIP_DIDNOTFIND
         (single_column 0 10 (21 / 5) (9 / 2)))) = [(SCIP_BOUNDTYPE_UPPER, 1, 9 / 2)]
   \<and> var_ub (cs_vars (single_column 0 10 (21 / 5) (9 / 2)) 1) = 10
   \<and> var_ub (cs_vars (ts_cs (snd (linconsTightenVarBounds integer_scip 1 1 0 SCIP_DIDNOTFIND
         (single_column 0 10 (21 / 5) (9 / 2))))) 1) = 4"
proof -
  let ?a = "single_column 0 10 12 5"
  let ?b = "single_column 0 10 (21 / 5) (9 / 2)"
  have Ra: "linconsGetActivityResiduals continuous_scip 1 1 ?a = (SCIP_OKAY, ?a, 0, 0)"
    by (rule single_column_residuals_zero) (simp_all add: std_scip_simps)
  have Rb: "linconsGetActivityResiduals integer_scip 1 1 ?b = (SCIP_OKAY, ?b, 0, 0)"
    by (rule single_column_residuals_zero) (simp_all add: std_scip_simps)
  have a: "fst (linconsTightenVarBounds continuous_scip 1 1 0 SCIP_DIDNOTFIND ?a) = SCIP_OKAY
         \<and> ts_result (snd (linconsTightenVarBounds continuous_scip 1 1 0 SCIP_DIDNOTFIND ?a)) = SCIP_CUTOFF
         \<and> ts_applied (snd (linconsTightenVarBounds continuous_scip 1 1 0 SCIP_DIDNOTFIND ?a))
             = [(SCIP_BOUNDTYPE_UPPER, 1, (lc_rhs (cs_lincons ?a) - 0) / 1)]
         \<and> ts_cs (snd (linconsTightenVarBounds continuous_scip 1 1 0 SCIP_DIDNOTFIND ?a))
             = set_var_ub 1 5 ?a
         \<and> ts_nchgbds (snd (linconsTightenVarBounds continuous_scip 1 1 0 SCIP_DIDNOTFIND ?a)) = 0 + 1"
    by (rule tighten_lower_crossing_second [OF zero_less_one Ra surjective_pairing])
       (simp_all add: std_scip_simps single_column_fields single_column_reads set_var_ub_reads
          SCIPvarGetLbLocal_def SCIPvarGetUbLocal_def)
  have b: "fst (linconsTightenVarBounds integer_scip 1 1 0 SCIP_DIDNOTFIND ?b) = SCIP_OKAY
         \<and> ts_result (snd (linconsTightenVarBounds integer_scip 1 1 0 SCIP_DIDNOTFIND ?b)) = SCIP_CUTOFF
         \<and> ts_applied (snd (linconsTightenVarBounds integer_scip 1 1 0 SCIP_DIDNOTFIND ?b))
             = [(SCIP_BOUNDTYPE_UPPER, 1, (lc_rhs (cs_lincons ?b) - 0) / 1)]
         \<and> ts_cs (snd (linconsTightenVarBounds integer_scip 1 1 0 SCIP_DIDNOTFIND ?b))
             = set_var_ub 1 4 ?b
         \<and> ts_nchgbds (snd (linconsTightenVarBounds integer_scip 1 1 0 SCIP_DIDNOTFIND ?b)) = 0 + 1"
    by (rule tighten_lower_crossing_second [OF zero_less_one Rb surjective_pairing])
       (simp_all add: std_scip_simps single_column_fields single_column_reads set_var_ub_reads
          SCIPvarGetLbLocal_def SCIPvarGetUbLocal_def)
  show ?thesis
    using a b Ra Rb
    by (simp add: single_column_fields set_var_ub_reads std_scip_simps)
qed

end
